theory Spec2Isabelle
  imports Complex_Main "HOL-Library.Product_Lexorder"
begin

section \<open>PI planner: scheduling model, planner store and dependency edge router\<close>

text \<open>
  A shallow embedding of \<^verbatim>\<open>src/lib/calc.ts\<close>, \<^verbatim>\<open>src/store/piStore.ts\<close> and the path
  computation of the dependency overlay component. JavaScript strings are \<^typ>\<open>string\<close>,
  arrays are lists, \<^verbatim>\<open>undefined\<close>/\<^verbatim>\<open>null\<close> are \<^term>\<open>None\<close>, and an object type of
  \<^verbatim>\<open>types.ts\<close> is a record. Numbers that only count or order things are \<^typ>\<open>int\<close>;
  pixel coordinates and story points are \<^typ>\<open>rat\<close> (exact arithmetic: the model does not
  round the way IEEE doubles do).
\<close>

subsection \<open>Constants and data model\<close>

text \<open>
  \<^verbatim>\<open>src/constants.ts\<close> is not among the source files. Its four exported constants are
  taken as parameters: every function that reads one of them takes the record \<open>c\<close> first.
\<close>

record constants =
  BACKLOG_COLUMN_ID :: string
  UNASSIGNED_DEVELOPER_ID :: string
  REQUIRED_SPRINT_COUNT :: nat
  DEFAULT_SPRINT_CAPACITY :: rat

record sprint =
  sprint_id :: string
  sprint_name :: string
  sprint_order :: int
  capacityPerDevSP :: "rat option"

record developer =
  developer_id :: string
  developer_name :: string

record feature =
  feature_id :: string
  feature_name :: string
  feature_url :: "string option"

record ticket =
  ticket_id :: string
  key :: string
  ticket_name :: string
  storyPoints :: rat
  developerId :: string
  featureId :: string
  sprintIds :: "string list"
  dependencies :: "string list"
  createdAt :: int
  jiraUrl :: "string option"

subsection \<open>Array helpers of the JavaScript runtime\<close>

text \<open>\<^verbatim>\<open>xs.indexOf(x)\<close>: the first position of \<open>x\<close>, or \<open>-1\<close>.\<close>

fun indexOf :: "'a list \<Rightarrow> 'a \<Rightarrow> int" where
  "indexOf [] x = -1"
| "indexOf (y # ys) x =
     (if y = x then 0 else (if indexOf ys x < 0 then -1 else indexOf ys x + 1))"

text \<open>
  \<^verbatim>\<open>xs.sort(cmp)\<close>. The language standard makes the sort stable, and for a comparator
  that is consistent (as every comparator of this program is: a difference of keys, or a
  lexicographic pair of such differences) the outcome is the one stable sorted
  arrangement, which insertion from the right computes. \<open>cmp a b \<le> 0\<close> reads
  "\<open>a\<close> may stay before \<open>b\<close>".
\<close>

fun insert_cmp :: "('a \<Rightarrow> 'a \<Rightarrow> 'n::{zero,linorder}) \<Rightarrow> 'a \<Rightarrow> 'a list \<Rightarrow> 'a list" where
  "insert_cmp cmp x [] = [x]"
| "insert_cmp cmp x (y # ys) =
     (if cmp x y \<le> 0 then x # y # ys else y # insert_cmp cmp x ys)"

fun sort_cmp :: "('a \<Rightarrow> 'a \<Rightarrow> 'n::{zero,linorder}) \<Rightarrow> 'a list \<Rightarrow> 'a list" where
  "sort_cmp cmp [] = []"
| "sort_cmp cmp (x # xs) = insert_cmp cmp x (sort_cmp cmp xs)"

subsection \<open>Scheduling model (calc.ts)\<close>

text \<open>
  \<^verbatim>\<open>ticket.sprintIds[ticket.sprintIds.length - 1]\<close>: reading past an empty array gives
  \<^verbatim>\<open>undefined\<close>, here \<^term>\<open>None\<close>.
\<close>

definition currentSprintId :: "ticket \<Rightarrow> string option" where
  "currentSprintId t = (if sprintIds t = [] then None else Some (last (sprintIds t)))"

definition sprintIndex :: "string \<Rightarrow> string list \<Rightarrow> int" where
  "sprintIndex i ordered = indexOf ordered i"

text \<open>
  \<^verbatim>\<open>sprintIndex\<close> applied to a value that may be \<^verbatim>\<open>undefined\<close>: an array of strings
  never holds \<^verbatim>\<open>undefined\<close>, so \<^verbatim>\<open>indexOf\<close> answers \<open>-1\<close>.
\<close>

definition sprintIndexOpt :: "string option \<Rightarrow> string list \<Rightarrow> int" where
  "sprintIndexOpt i ordered = (case i of None \<Rightarrow> -1 | Some s \<Rightarrow> sprintIndex s ordered)"

text \<open>
  The \<^verbatim>\<open>filter\<close> of \<^verbatim>\<open>sortSprintTrail\<close> with its mutable \<^verbatim>\<open>seen\<close> set: an id passes
  when it is not yet in the set, and is added to it.
\<close>

fun dedupe :: "string set \<Rightarrow> string list \<Rightarrow> string list" where
  "dedupe seen [] = []"
| "dedupe seen (i # is) =
     (if i \<in> seen then dedupe seen is else i # dedupe (insert i seen) is)"

definition sortSprintTrail :: "string list \<Rightarrow> string list \<Rightarrow> string list" where
  "sortSprintTrail ids ordered =
     sort_cmp (\<lambda>a b. sprintIndex a ordered - sprintIndex b ordered) (dedupe {} ids)"

record blockResult =
  blocked :: bool
  blockers :: "string list"

definition isMoveBlockedByDeps ::
  "constants \<Rightarrow> ticket \<Rightarrow> string \<Rightarrow> (string \<Rightarrow> ticket option) \<Rightarrow> string list \<Rightarrow> blockResult" where
  "isMoveBlockedByDeps c t targetSprintId getTicket orderedIds =
     (if targetSprintId = BACKLOG_COLUMN_ID c then \<lparr>blocked = False, blockers = []\<rparr>
      else
        let targetIdx = sprintIndex targetSprintId orderedIds;
            bs = filter (\<lambda>depId.
                   case getTicket depId of
                     None \<Rightarrow> False
                   | Some dep \<Rightarrow> sprintIndexOpt (currentSprintId dep) orderedIds > targetIdx)
                 (dependencies t)
        in \<lparr>blocked = length bs > 0, blockers = bs\<rparr>)"

text \<open>\<^verbatim>\<open>capacityForSprint\<close>: the capacity of the first sprint with that id, else 8.\<close>

definition capacityForSprint :: "string \<Rightarrow> sprint list \<Rightarrow> rat" where
  "capacityForSprint sprintId sprints =
     (case find (\<lambda>s. sprint_id s = sprintId) sprints of
        None \<Rightarrow> 8
      | Some s \<Rightarrow> (case capacityPerDevSP s of None \<Rightarrow> 8 | Some v \<Rightarrow> v))"

subsection \<open>String helpers of the JavaScript runtime\<close>

text \<open>
  \<^verbatim>\<open>s.trim()\<close>, \<^verbatim>\<open>s.toUpperCase()\<close>, \<^verbatim>\<open>xs.join(sep)\<close>, \<^verbatim>\<open>s.endsWith(t)\<close> and the decimal
  rendering of a non-negative integer in a template string, for ASCII text: the white
  space trimmed is tab, line feed, vertical tab, form feed, carriage return and space, and
  only the letters a to z change case.
\<close>

definition isSpace :: "char \<Rightarrow> bool" where
  "isSpace ch = (ch \<in> set [CHR 0x09, CHR 0x0A, CHR 0x0B, CHR 0x0C, CHR 0x0D, CHR '' ''])"

definition trim :: "string \<Rightarrow> string" where
  "trim s = rev (dropWhile isSpace (rev (dropWhile isSpace s)))"

definition upperChar :: "char \<Rightarrow> char" where
  "upperChar ch =
     (if (97::nat) \<le> of_char ch \<and> of_char ch \<le> (122::nat)
      then char_of (of_char ch - (32::nat)) else ch)"

definition toUpperCase :: "string \<Rightarrow> string" where
  "toUpperCase s = map upperChar s"

fun join :: "string \<Rightarrow> string list \<Rightarrow> string" where
  "join sep [] = []"
| "join sep [x] = x"
| "join sep (x # y # ys) = x @ sep @ join sep (y # ys)"

definition endsWith :: "string \<Rightarrow> string \<Rightarrow> bool" where
  "endsWith s t = (length t \<le> length s \<and> drop (length s - length t) s = t)"

function showNat :: "nat \<Rightarrow> string" where
  "showNat n =
     (if n < 10 then [''0123456789'' ! n]
      else showNat (n div 10) @ [''0123456789'' ! (n mod 10)])"
  by pat_completeness auto
termination
  by (relation "measure (\<lambda>n. n)") auto

subsection \<open>Planner store: state (piStore.ts)\<close>

text \<open>
  \<^verbatim>\<open>PlannerData\<close> is the persisted part of the store. Its field \<^verbatim>\<open>currentSprintId\<close> is
  named \<open>currentSprint\<close> here, since \<open>currentSprintId\<close> is already the function of
  \<^verbatim>\<open>calc.ts\<close>.
\<close>

record plannerData =
  sprints :: "sprint list"
  developers :: "developer list"
  features :: "feature list"
  tickets :: "ticket list"
  currentSprint :: "string option"
  ticketBaseUrl :: "string option"

datatype moveMode = Move | Extend

record keyboardMoveState =
  km_ticketId :: string
  targetDeveloperId :: string
  targetSprintId :: string

record announcement =
  message :: string
  timestamp :: int

datatype noticeTone = Info | Error

record plannerNotice =
  notice_id :: int
  notice_message :: string
  tone :: noticeTone

text \<open>
  The store is the planner data, the user-interface fields, and \<open>storage\<close>: the item
  that \<^verbatim>\<open>persistPlannerState\<close> wrote to the browser's local storage under the planner's
  key (\<^term>\<open>None\<close> when the key is absent). The model assumes a browser whose storage
  accepts the write.
\<close>

record plannerStore = plannerData +
  showDependencies :: bool
  keyboardMove :: "keyboardMoveState option"
  liveAnnouncement :: "announcement option"
  notices :: "plannerNotice list"
  storage :: "plannerData option"

text \<open>\<^verbatim>\<open>Partial<PlannerData>\<close>, the argument of \<^verbatim>\<open>commit\<close>: an absent field is \<^term>\<open>None\<close>.\<close>

record dataPatch =
  p_sprints :: "sprint list option"
  p_developers :: "developer list option"
  p_features :: "feature list option"
  p_tickets :: "ticket list option"
  p_currentSprint :: "string option"
  p_ticketBaseUrl :: "string option"

definition noPatch :: dataPatch where
  "noPatch = \<lparr>p_sprints = None, p_developers = None, p_features = None, p_tickets = None,
              p_currentSprint = None, p_ticketBaseUrl = None\<rparr>"

text \<open>\<^verbatim>\<open>a ?? b\<close>: \<open>b\<close> when \<open>a\<close> is \<^verbatim>\<open>null\<close> or \<^verbatim>\<open>undefined\<close>.\<close>

definition orElse :: "'a option \<Rightarrow> 'a \<Rightarrow> 'a" where
  "orElse a b = (case a of None \<Rightarrow> b | Some v \<Rightarrow> v)"

definition persistPlannerState :: "plannerData \<Rightarrow> 'z plannerStore_scheme \<Rightarrow> 'z plannerStore_scheme" where
  "persistPlannerState d s = s\<lparr>storage := Some d\<rparr>"

definition clearPlannerState :: "'z plannerStore_scheme \<Rightarrow> 'z plannerStore_scheme" where
  "clearPlannerState s = s\<lparr>storage := None\<rparr>"

text \<open>
  \<^verbatim>\<open>commit(patch)\<close>: persist the current data overridden by the patch. A \<^verbatim>\<open>null\<close>
  \<^verbatim>\<open>currentSprintId\<close> or \<^verbatim>\<open>ticketBaseUrl\<close> in the patch falls back to the current value,
  as \<^verbatim>\<open>??\<close> does.
\<close>

definition commit :: "dataPatch \<Rightarrow> plannerStore \<Rightarrow> plannerStore" where
  "commit patch s =
     persistPlannerState
       \<lparr>sprints = orElse (p_sprints patch) (sprints s),
        developers = orElse (p_developers patch) (developers s),
        features = orElse (p_features patch) (features s),
        tickets = orElse (p_tickets patch) (tickets s),
        currentSprint = (case p_currentSprint patch of None \<Rightarrow> currentSprint s | Some v \<Rightarrow> Some v),
        ticketBaseUrl = (case p_ticketBaseUrl patch of None \<Rightarrow> ticketBaseUrl s | Some v \<Rightarrow> Some v)\<rparr>
       s"

definition orderedSprints :: "'z plannerData_scheme \<Rightarrow> string list" where
  "orderedSprints s =
     map sprint_id (sort_cmp (\<lambda>a b. sprint_order a - sprint_order b) (sprints s))"

definition clampIndex :: "int \<Rightarrow> int \<Rightarrow> int" where
  "clampIndex v len =
     (if len = 0 then 0 else if v < 0 then 0 else if v > len - 1 then len - 1 else v)"

text \<open>\<^verbatim>\<open>xs[i]\<close> for an integer \<open>i\<close>: \<^verbatim>\<open>undefined\<close> outside the array.\<close>

definition elemAt :: "'a list \<Rightarrow> int \<Rightarrow> 'a option" where
  "elemAt xs i = (if 0 \<le> i \<and> i < int (length xs) then Some (xs ! nat i) else None)"

text \<open>\<^verbatim>\<open>xs.findIndex(p)\<close>: the first position whose element satisfies \<open>p\<close>, or \<open>-1\<close>.\<close>

fun findIndex :: "('a \<Rightarrow> bool) \<Rightarrow> 'a list \<Rightarrow> int" where
  "findIndex p [] = -1"
| "findIndex p (y # ys) =
     (if p y then 0 else (if findIndex p ys < 0 then -1 else findIndex p ys + 1))"

subsection \<open>Planner store: feature and developer operations\<close>

text \<open>
  Every operation takes the store last and returns the new store. \<^verbatim>\<open>nanoid()\<close>,
  \<^verbatim>\<open>Date.now()\<close> and the random part of a notice id are arguments (\<open>newId\<close>, \<open>now\<close>,
  \<open>nid\<close>). \<^verbatim>\<open>Partial<Feature>\<close>, \<^verbatim>\<open>Partial<Developer>\<close> and \<^verbatim>\<open>Partial<Ticket>\<close> are
  records of options; the spread \<^verbatim>\<open>{...x, ...patch}\<close> takes a field from the patch when
  it is there.
\<close>

record featurePatch =
  fp_id :: "string option"
  fp_name :: "string option"
  fp_url :: "string option"

record developerPatch =
  dp_id :: "string option"
  dp_name :: "string option"

definition addFeature :: "string \<Rightarrow> string \<Rightarrow> plannerStore \<Rightarrow> plannerStore" where
  "addFeature name newId s =
     (let trimmed = trim name in
      if trimmed = [] then s
      else
        let nextFeatures =
              features s @ [\<lparr>feature_id = newId, feature_name = trimmed, feature_url = None\<rparr>]
        in (commit (noPatch\<lparr>p_features := Some nextFeatures\<rparr>) s)\<lparr>features := nextFeatures\<rparr>)"

definition updateFeature :: "string \<Rightarrow> featurePatch \<Rightarrow> plannerStore \<Rightarrow> plannerStore" where
  "updateFeature fid patch s =
     (let nextFeatures =
            map (\<lambda>f.
                   if feature_id f \<noteq> fid then f
                   else
                     let trimmedName = map_option trim (fp_name patch);
                         normalizedUrl =
                           (case fp_url patch of
                              None \<Rightarrow> feature_url f
                            | Some u \<Rightarrow> if trim u \<noteq> [] then Some (trim u) else None)
                     in \<lparr>feature_id = orElse (fp_id patch) (feature_id f),
                         feature_name =
                           (case trimmedName of
                              None \<Rightarrow> feature_name f
                            | Some n \<Rightarrow> if n \<noteq> [] then n else feature_name f),
                         feature_url = normalizedUrl\<rparr>)
                (features s)
      in (commit (noPatch\<lparr>p_features := Some nextFeatures\<rparr>) s)\<lparr>features := nextFeatures\<rparr>)"

definition removeFeature :: "string \<Rightarrow> plannerStore \<Rightarrow> plannerStore" where
  "removeFeature fid s =
     (let nextFeatures = filter (\<lambda>f. feature_id f \<noteq> fid) (features s);
          nextTickets = filter (\<lambda>t. featureId t \<noteq> fid) (tickets s)
      in (commit (noPatch\<lparr>p_features := Some nextFeatures, p_tickets := Some nextTickets\<rparr>) s)
           \<lparr>features := nextFeatures, tickets := nextTickets\<rparr>)"

definition addDeveloper :: "string \<Rightarrow> string \<Rightarrow> plannerStore \<Rightarrow> plannerStore" where
  "addDeveloper name newId s =
     (let trimmed = trim name in
      if trimmed = [] then s
      else
        let nextDevelopers = developers s @ [\<lparr>developer_id = newId, developer_name = trimmed\<rparr>]
        in (commit (noPatch\<lparr>p_developers := Some nextDevelopers\<rparr>) s)
             \<lparr>developers := nextDevelopers\<rparr>)"

definition updateDeveloper ::
  "constants \<Rightarrow> string \<Rightarrow> developerPatch \<Rightarrow> plannerStore \<Rightarrow> plannerStore" where
  "updateDeveloper c did patch s =
     (if did = UNASSIGNED_DEVELOPER_ID c then s
      else
        let nextDevelopers =
              map (\<lambda>d.
                     if developer_id d = did
                     then \<lparr>developer_id = orElse (dp_id patch) (developer_id d),
                           developer_name =
                             (case dp_name patch of
                                None \<Rightarrow> developer_name d
                              | Some n \<Rightarrow> if trim n \<noteq> [] then trim n else developer_name d)\<rparr>
                     else d)
                  (developers s)
        in (commit (noPatch\<lparr>p_developers := Some nextDevelopers\<rparr>) s)
             \<lparr>developers := nextDevelopers\<rparr>)"

definition removeDeveloper :: "constants \<Rightarrow> string \<Rightarrow> plannerStore \<Rightarrow> plannerStore" where
  "removeDeveloper c did s =
     (if did = UNASSIGNED_DEVELOPER_ID c then s
      else
        let nextDevelopers = filter (\<lambda>d. developer_id d \<noteq> did) (developers s);
            nextTickets =
              map (\<lambda>t. if developerId t = did
                        then t\<lparr>developerId := UNASSIGNED_DEVELOPER_ID c\<rparr> else t)
                  (tickets s)
        in (commit (noPatch\<lparr>p_developers := Some nextDevelopers, p_tickets := Some nextTickets\<rparr>) s)
             \<lparr>developers := nextDevelopers, tickets := nextTickets\<rparr>)"

subsection \<open>Planner store: ticket operations\<close>

text \<open>The argument of \<^verbatim>\<open>addTicket\<close>: a ticket without id and creation time.\<close>

record newTicket =
  n_key :: string
  n_name :: string
  n_storyPoints :: rat
  n_developerId :: "string option"
  n_featureId :: string
  n_jiraUrl :: "string option"
  n_sprintIds :: "string list option"
  n_dependencies :: "string list option"

record ticketPatch =
  tp_id :: "string option"
  tp_key :: "string option"
  tp_name :: "string option"
  tp_storyPoints :: "rat option"
  tp_developerId :: "string option"
  tp_featureId :: "string option"
  tp_sprintIds :: "string list option"
  tp_dependencies :: "string list option"
  tp_createdAt :: "int option"
  tp_jiraUrl :: "string option"

definition noTicketPatch :: ticketPatch where
  "noTicketPatch =
     \<lparr>tp_id = None, tp_key = None, tp_name = None, tp_storyPoints = None,
      tp_developerId = None, tp_featureId = None, tp_sprintIds = None,
      tp_dependencies = None, tp_createdAt = None, tp_jiraUrl = None\<rparr>"

text \<open>\<^verbatim>\<open>u?.trim() ? u.trim() : undefined\<close>.\<close>

definition trimmedOrNone :: "string option \<Rightarrow> string option" where
  "trimmedOrNone u =
     (case u of None \<Rightarrow> None | Some v \<Rightarrow> if trim v \<noteq> [] then Some (trim v) else None)"

definition addTicket ::
  "constants \<Rightarrow> newTicket \<Rightarrow> string \<Rightarrow> int \<Rightarrow> plannerStore \<Rightarrow> plannerStore" where
  "addTicket c partial newId now s =
     (let orderedSprintIds = orderedSprints s;
          sids = sortSprintTrail (orElse (n_sprintIds partial) []) orderedSprintIds;
          resolvedSprintIds = (if sids \<noteq> [] then sids else [BACKLOG_COLUMN_ID c]);
          t = \<lparr>ticket_id = newId, key = n_key partial, ticket_name = n_name partial,
               storyPoints = n_storyPoints partial,
               developerId = orElse (n_developerId partial) (UNASSIGNED_DEVELOPER_ID c),
               featureId = n_featureId partial,
               sprintIds = resolvedSprintIds,
               dependencies = orElse (n_dependencies partial) [],
               createdAt = now,
               jiraUrl = trimmedOrNone (n_jiraUrl partial)\<rparr>;
          nextTickets = tickets s @ [t]
      in (commit (noPatch\<lparr>p_tickets := Some nextTickets\<rparr>) s)\<lparr>tickets := nextTickets\<rparr>)"

definition updateOne :: "constants \<Rightarrow> string list \<Rightarrow> ticketPatch \<Rightarrow> ticket \<Rightarrow> ticket" where
  "updateOne c orderedSprintIds patch t =
     (let sids0 = (case tp_sprintIds patch of
                     None \<Rightarrow> sprintIds t
                   | Some p \<Rightarrow> sortSprintTrail p orderedSprintIds);
          sids = (if sids0 = [] then [BACKLOG_COLUMN_ID c] else sids0);
          normalizedKey =
            (case tp_key patch of
               None \<Rightarrow> key t
             | Some k \<Rightarrow> if trim k \<noteq> [] then toUpperCase (trim k) else key t)
      in \<lparr>ticket_id = orElse (tp_id patch) (ticket_id t),
          key = normalizedKey,
          ticket_name = orElse (tp_name patch) (ticket_name t),
          storyPoints = orElse (tp_storyPoints patch) (storyPoints t),
          developerId = orElse (tp_developerId patch) (developerId t),
          featureId = orElse (tp_featureId patch) (featureId t),
          sprintIds = sids,
          dependencies = orElse (tp_dependencies patch) (dependencies t),
          createdAt = orElse (tp_createdAt patch) (createdAt t),
          jiraUrl = (case tp_jiraUrl patch of
                       None \<Rightarrow> jiraUrl t
                     | Some u \<Rightarrow> trimmedOrNone (Some u))\<rparr>)"

definition updateTicket ::
  "constants \<Rightarrow> string \<Rightarrow> ticketPatch \<Rightarrow> plannerStore \<Rightarrow> plannerStore" where
  "updateTicket c tid patch s =
     (let orderedSprintIds = orderedSprints s;
          nextTickets =
            map (\<lambda>t. if ticket_id t \<noteq> tid then t else updateOne c orderedSprintIds patch t)
                (tickets s)
      in (commit (noPatch\<lparr>p_tickets := Some nextTickets\<rparr>) s)\<lparr>tickets := nextTickets\<rparr>)"

definition deleteTicket :: "string \<Rightarrow> plannerStore \<Rightarrow> plannerStore" where
  "deleteTicket tid s =
     (let nextTickets =
            map (\<lambda>t. t\<lparr>dependencies := filter (\<lambda>depId. depId \<noteq> tid) (dependencies t)\<rparr>)
                (filter (\<lambda>t. ticket_id t \<noteq> tid) (tickets s))
      in (commit (noPatch\<lparr>p_tickets := Some nextTickets\<rparr>) s)\<lparr>tickets := nextTickets\<rparr>)"

definition moveTicketTo ::
  "constants \<Rightarrow> string \<Rightarrow> string \<Rightarrow> string \<Rightarrow> moveMode \<Rightarrow> plannerStore \<Rightarrow> plannerStore" where
  "moveTicketTo c tid toSprintId devId mode s =
     (let orderedSprintIds = orderedSprints s;
          nextTickets =
            map (\<lambda>t.
                   if ticket_id t \<noteq> tid then t
                   else
                     let baseTrail =
                           (if mode = Extend \<and> toSprintId \<noteq> BACKLOG_COLUMN_ID c
                            then sortSprintTrail (sprintIds t @ [toSprintId]) orderedSprintIds
                            else [toSprintId])
                     in t\<lparr>sprintIds := (if baseTrail \<noteq> [] then baseTrail else [BACKLOG_COLUMN_ID c]),
                          developerId := devId\<rparr>)
                (tickets s)
      in (commit (noPatch\<lparr>p_tickets := Some nextTickets\<rparr>) s)\<lparr>tickets := nextTickets\<rparr>)"

definition moveTicket ::
  "constants \<Rightarrow> string \<Rightarrow> string \<Rightarrow> moveMode \<Rightarrow> plannerStore \<Rightarrow> plannerStore" where
  "moveTicket c tid toSprintId mode s =
     (case find (\<lambda>t. ticket_id t = tid) (tickets s) of
        None \<Rightarrow> s
      | Some t \<Rightarrow> moveTicketTo c tid toSprintId (developerId t) mode s)"

definition setSprintTrail ::
  "constants \<Rightarrow> string \<Rightarrow> string list \<Rightarrow> plannerStore \<Rightarrow> plannerStore" where
  "setSprintTrail c tid sids s =
     (let nextTrail = sortSprintTrail sids (orderedSprints s)
      in updateTicket c tid
           (noTicketPatch\<lparr>tp_sprintIds :=
              Some (if nextTrail \<noteq> [] then nextTrail else [BACKLOG_COLUMN_ID c])\<rparr>) s)"

text \<open>\<^verbatim>\<open>set({ tickets: [...tickets] })\<close>: a fresh array with the same tickets.\<close>

definition refreshTicketPositions :: "plannerStore \<Rightarrow> plannerStore" where
  "refreshTicketPositions s = s\<lparr>tickets := tickets s\<rparr>"

subsection \<open>Planner store: normalisation, load and replace\<close>

definition ensureUnassignedDeveloper :: "constants \<Rightarrow> developer list \<Rightarrow> developer list" where
  "ensureUnassignedDeveloper c devs =
     (if list_ex (\<lambda>d. developer_id d = UNASSIGNED_DEVELOPER_ID c) devs then devs
      else \<lparr>developer_id = UNASSIGNED_DEVELOPER_ID c, developer_name = ''Unassigned''\<rparr> # devs)"

text \<open>The \<^verbatim>\<open>while\<close> loop of \<^verbatim>\<open>ensureSprintSlots\<close>, on \<open>result\<close> and \<open>nextOrder\<close>.\<close>

function fillSprintSlots :: "constants \<Rightarrow> sprint list \<Rightarrow> int \<Rightarrow> sprint list" where
  "fillSprintSlots c result nextOrder =
     (if length result < REQUIRED_SPRINT_COUNT c
      then fillSprintSlots c
             (result @ [\<lparr>sprint_id = ''S'' @ showNat (length result + 1),
                          sprint_name = ''Sprint '' @ showNat (length result + 1),
                          sprint_order = nextOrder,
                          capacityPerDevSP = Some (DEFAULT_SPRINT_CAPACITY c)\<rparr>])
             (nextOrder + 1)
      else result)"
  by pat_completeness auto
termination
  by (relation "measure (\<lambda>(c, result, nextOrder). REQUIRED_SPRINT_COUNT c - length result)") auto

definition ensureSprintSlots :: "constants \<Rightarrow> sprint list \<Rightarrow> sprint list" where
  "ensureSprintSlots c sps =
     (let sorted = sort_cmp (\<lambda>a b. sprint_order a - sprint_order b) sps;
          nextOrder = (if sorted \<noteq> [] then sprint_order (last sorted) + 1 else 1)
      in fillSprintSlots c sorted nextOrder)"

text \<open>
  \<^verbatim>\<open>id && sprints.some(...) ? id : fallback\<close>, where \<open>fallback\<close> is the id of the first
  sprint by order, if any. The empty string is falsy.
\<close>

definition validCurrentSprint :: "sprint list \<Rightarrow> string option \<Rightarrow> string option" where
  "validCurrentSprint sps i =
     (let ordered = sort_cmp (\<lambda>a b. sprint_order a - sprint_order b) sps;
          fallback = map_option sprint_id (elemAt ordered 0)
      in case i of
           None \<Rightarrow> fallback
         | Some v \<Rightarrow> if v \<noteq> [] \<and> list_ex (\<lambda>sp. sprint_id sp = v) sps then Some v else fallback)"

definition normalizeState :: "constants \<Rightarrow> 'z plannerData_scheme \<Rightarrow> plannerData" where
  "normalizeState c d =
     (let devs = ensureUnassignedDeveloper c (developers d);
          sps = ensureSprintSlots c (sprints d);
          feats = (if features d \<noteq> [] then features d
                   else [\<lparr>feature_id = ''feature-default'', feature_name = ''New Feature'',
                          feature_url = None\<rparr>]);
          featureIds = set (map feature_id feats);
          developerIds = set (map developer_id devs);
          sprintOrder = map sprint_id sps;
          sprintSet = set (sprintOrder @ [BACKLOG_COLUMN_ID c]);
          ticketIds = set (map ticket_id (tickets d));
          sanitizedTickets =
            map (\<lambda>t.
                   let trail = sortSprintTrail (filter (\<lambda>i. i \<in> sprintSet) (sprintIds t)) sprintOrder
                   in t\<lparr>developerId := (if developerId t \<in> developerIds then developerId t
                                         else UNASSIGNED_DEVELOPER_ID c),
                        featureId := (if featureId t \<in> featureIds then featureId t
                                       else (case elemAt feats 0 of
                                               None \<Rightarrow> ''feature-default''
                                             | Some f \<Rightarrow> feature_id f)),
                        sprintIds := (if trail \<noteq> [] then trail else [BACKLOG_COLUMN_ID c]),
                        dependencies :=
                          filter (\<lambda>depId. depId \<in> ticketIds)
                            (filter (\<lambda>depId. depId \<noteq> ticket_id t) (dependencies t)),
                        jiraUrl := trimmedOrNone (jiraUrl t)\<rparr>)
                (tickets d)
      in \<lparr>sprints = sps, developers = devs, features = feats, tickets = sanitizedTickets,
          currentSprint = validCurrentSprint sps (currentSprint d),
          ticketBaseUrl = trimmedOrNone (ticketBaseUrl d)\<rparr>)"

text \<open>\<^verbatim>\<open>set(data)\<close> for a whole \<^verbatim>\<open>PlannerData\<close>: the six data fields are replaced.\<close>

definition setData :: "plannerData \<Rightarrow> plannerStore \<Rightarrow> plannerStore" where
  "setData d s =
     s\<lparr>sprints := sprints d, developers := developers d, features := features d,
       tickets := tickets d, currentSprint := currentSprint d,
       ticketBaseUrl := ticketBaseUrl d\<rparr>"

definition replaceState :: "constants \<Rightarrow> plannerData \<Rightarrow> plannerStore \<Rightarrow> plannerStore" where
  "replaceState c d s =
     (let normalized = normalizeState c d
      in setData normalized (persistPlannerState normalized s))"

definition getPlannerSnapshot :: "constants \<Rightarrow> plannerStore \<Rightarrow> plannerData" where
  "getPlannerSnapshot c s = normalizeState c s"

text \<open>
  \<^verbatim>\<open>resetPlanner\<close>. After \<^verbatim>\<open>clearPlannerState\<close> the storage key is absent, so
  \<^verbatim>\<open>loadPlannerState\<close> writes and returns \<^verbatim>\<open>defaultData\<close>, the seed that \<^verbatim>\<open>persist.ts\<close>
  builds once when the module loads (its creation times come from the clock); the seed is
  the argument \<open>defaultData\<close>.
\<close>

definition resetPlanner :: "constants \<Rightarrow> plannerData \<Rightarrow> plannerStore \<Rightarrow> plannerStore" where
  "resetPlanner c defaultData s =
     (let s1 = persistPlannerState defaultData (clearPlannerState s);
          seeded = normalizeState c defaultData;
          cleared = seeded\<lparr>developers :=
                             [\<lparr>developer_id = UNASSIGNED_DEVELOPER_ID c,
                               developer_name = ''Unassigned''\<rparr>],
                           features := [], tickets := []\<rparr>
      in (setData cleared (persistPlannerState cleared s1))
           \<lparr>notices := [], keyboardMove := None, liveAnnouncement := None\<rparr>)"

definition setCurrentSprint :: "string option \<Rightarrow> plannerStore \<Rightarrow> plannerStore" where
  "setCurrentSprint i s =
     (let valid = validCurrentSprint (sprints s) i
      in (commit (noPatch\<lparr>p_currentSprint := valid\<rparr>) s)\<lparr>currentSprint := valid\<rparr>)"

subsection \<open>Planner store: queries\<close>

definition getTicketsByFeature :: "string \<Rightarrow> plannerStore \<Rightarrow> ticket list" where
  "getTicketsByFeature fid s = filter (\<lambda>t. featureId t = fid) (tickets s)"

record capacityInfo =
  assigned :: rat
  capacity :: rat
  over :: bool

definition getCapacityBy :: "constants \<Rightarrow> string \<Rightarrow> string \<Rightarrow> plannerStore \<Rightarrow> capacityInfo" where
  "getCapacityBy c devId sprintId s =
     (let cap = (case find (\<lambda>sp. sprint_id sp = sprintId) (sprints s) of
                   None \<Rightarrow> DEFAULT_SPRINT_CAPACITY c
                 | Some sp \<Rightarrow> orElse (capacityPerDevSP sp) (DEFAULT_SPRINT_CAPACITY c));
          asg = foldl (\<lambda>sum t. sum + storyPoints t) 0
                  (filter (\<lambda>t. developerId t = devId \<and> currentSprintId t = Some sprintId)
                     (tickets s))
      in \<lparr>assigned = asg, capacity = cap, over = (asg > cap)\<rparr>)"

text \<open>The store's own \<^verbatim>\<open>isMoveBlockedByDeps(ticketId, targetSprintId)\<close>.\<close>

definition storeIsMoveBlockedByDeps ::
  "constants \<Rightarrow> string \<Rightarrow> string \<Rightarrow> plannerStore \<Rightarrow> blockResult" where
  "storeIsMoveBlockedByDeps c tid target s =
     (case find (\<lambda>t. ticket_id t = tid) (tickets s) of
        None \<Rightarrow> \<lparr>blocked = False, blockers = []\<rparr>
      | Some t \<Rightarrow>
          isMoveBlockedByDeps c t target
            (\<lambda>i. find (\<lambda>t. ticket_id t = i) (tickets s)) (orderedSprints s))"

subsection \<open>Planner store: announcements, notices and keyboard moves\<close>

definition toggleDependencies :: "plannerStore \<Rightarrow> plannerStore" where
  "toggleDependencies s = s\<lparr>showDependencies := \<not> showDependencies s\<rparr>"

definition announce :: "string \<Rightarrow> int \<Rightarrow> plannerStore \<Rightarrow> plannerStore" where
  "announce msg now s = s\<lparr>liveAnnouncement := Some \<lparr>message = msg, timestamp = now\<rparr>\<rparr>"

definition clearAnnouncement :: "plannerStore \<Rightarrow> plannerStore" where
  "clearAnnouncement s = s\<lparr>liveAnnouncement := None\<rparr>"

definition pushNotice :: "string \<Rightarrow> noticeTone \<Rightarrow> int \<Rightarrow> plannerStore \<Rightarrow> plannerStore" where
  "pushNotice msg tn nid s =
     s\<lparr>notices := notices s @ [\<lparr>notice_id = nid, notice_message = msg, tone = tn\<rparr>]\<rparr>"

definition dismissNotice :: "int \<Rightarrow> plannerStore \<Rightarrow> plannerStore" where
  "dismissNotice nid s = s\<lparr>notices := filter (\<lambda>n. notice_id n \<noteq> nid) (notices s)\<rparr>"

definition setTicketBaseUrl :: "string option \<Rightarrow> int \<Rightarrow> plannerStore \<Rightarrow> plannerStore" where
  "setTicketBaseUrl url now s =
     (let trimmed = (case url of
                       None \<Rightarrow> None
                     | Some u \<Rightarrow> if length (trim u) > 0 then Some (trim u) else None);
          s1 = (commit (noPatch\<lparr>p_ticketBaseUrl := trimmed\<rparr>) s)\<lparr>ticketBaseUrl := trimmed\<rparr>
      in case trimmed of
           Some u \<Rightarrow>
             announce (''Ticket links will now use '' @ u
                         @ (if endsWith u ''/'' then [] else ''/'') @ '' + key.'') now s1
         | None \<Rightarrow> announce ''Ticket link base cleared.'' now s1)"

text \<open>
  \<^verbatim>\<open>beginKeyboardMove\<close> stores \<^verbatim>\<open>currentSprintId(ticket)\<close> as the target sprint. For a
  ticket whose trail is empty that value is \<^verbatim>\<open>undefined\<close>: the source raises nothing
  and stores a pending move whose target is \<^verbatim>\<open>undefined\<close>, which a later
  \<^verbatim>\<open>commitKeyboardMove\<close> would write into the trail. Targets and trails of this model
  hold strings only, so the model cannot follow the source there: it returns the value
  \<open>UndefinedSprintId\<close> instead, which marks the one place where model and source part.
  That place is reached only from a store in which some ticket has an empty trail; from a
  store whose trails are all non-empty the model stores the last id of the trail, as the
  source does (lemma \<open>begin_under_invariant\<close>).
\<close>

datatype error = UndefinedSprintId

definition beginKeyboardMove :: "string \<Rightarrow> plannerStore \<Rightarrow> error + plannerStore" where
  "beginKeyboardMove tid s =
     (case find (\<lambda>t. ticket_id t = tid) (tickets s) of
        None \<Rightarrow> Inr s
      | Some t \<Rightarrow>
          (case currentSprintId t of
             None \<Rightarrow> Inl UndefinedSprintId
           | Some cur \<Rightarrow>
               Inr (s\<lparr>keyboardMove :=
                        Some \<lparr>km_ticketId = tid, targetDeveloperId = developerId t,
                              targetSprintId = cur\<rparr>\<rparr>)))"

datatype axis = Row | Column

definition moveKeyboardTarget ::
  "constants \<Rightarrow> axis \<Rightarrow> int \<Rightarrow> plannerStore \<Rightarrow> plannerStore" where
  "moveKeyboardTarget c ax delta s =
     (case keyboardMove s of
        None \<Rightarrow> s
      | Some mv \<Rightarrow>
          (case ax of
             Row \<Rightarrow>
               let devs = developers s;
                   idx = findIndex (\<lambda>d. developer_id d = targetDeveloperId mv) devs;
                   nextIdx = clampIndex (idx + delta) (int (length devs))
               in s\<lparr>keyboardMove :=
                      Some (mv\<lparr>targetDeveloperId :=
                                  orElse (map_option developer_id (elemAt devs nextIdx))
                                    (targetDeveloperId mv)\<rparr>)\<rparr>
           | Column \<Rightarrow>
               let augmented = BACKLOG_COLUMN_ID c # orderedSprints s;
                   idx = indexOf augmented (targetSprintId mv);
                   nextIdx = clampIndex (idx + delta) (int (length augmented))
               in s\<lparr>keyboardMove :=
                      Some (mv\<lparr>targetSprintId :=
                                  orElse (elemAt augmented nextIdx) (targetSprintId mv)\<rparr>)\<rparr>))"

text \<open>
  The keys of the blocking tickets, as \<^verbatim>\<open>commitKeyboardMove\<close> joins them: a blocker
  without a ticket, or with an empty key, is left out (\<^verbatim>\<open>filter(Boolean)\<close>).
\<close>

definition blockerKeys :: "string list \<Rightarrow> plannerStore \<Rightarrow> string" where
  "blockerKeys bs s =
     join '', ''
       (filter (\<lambda>k. k \<noteq> [])
          (List.map_filter (\<lambda>i. map_option key (find (\<lambda>t. ticket_id t = i) (tickets s))) bs))"

definition commitKeyboardMove ::
  "constants \<Rightarrow> moveMode \<Rightarrow> int \<Rightarrow> plannerStore \<Rightarrow> plannerStore" where
  "commitKeyboardMove c mode now s =
     (case keyboardMove s of
        None \<Rightarrow> s
      | Some mv \<Rightarrow>
          let r = storeIsMoveBlockedByDeps c (km_ticketId mv) (targetSprintId mv) s in
          if blocked r
          then announce (''Move blocked by '' @ blockerKeys (blockers r) s) now s
          else
            let actualMode = (if targetSprintId mv = BACKLOG_COLUMN_ID c then Move else mode);
                s1 = moveTicketTo c (km_ticketId mv) (targetSprintId mv) (targetDeveloperId mv)
                       actualMode s;
                s2 = (case find (\<lambda>t. ticket_id t = km_ticketId mv) (tickets s1) of
                        None \<Rightarrow> s1
                      | Some t \<Rightarrow>
                          let devName =
                                (case find (\<lambda>d. developer_id d = targetDeveloperId mv)
                                        (developers s1) of
                                   None \<Rightarrow> ''Unknown''
                                 | Some d \<Rightarrow> developer_name d);
                              sprintName =
                                (if targetSprintId mv = BACKLOG_COLUMN_ID c then ''Backlog''
                                 else (case find (\<lambda>sp. sprint_id sp = targetSprintId mv)
                                              (sprints s1) of
                                         None \<Rightarrow> targetSprintId mv
                                       | Some sp \<Rightarrow> sprint_name sp))
                          in announce (key t @ '' scheduled for '' @ devName @ '' in ''
                                         @ sprintName) now s1)
            in s2\<lparr>keyboardMove := None\<rparr>)"

definition cancelKeyboardMove :: "plannerStore \<Rightarrow> plannerStore" where
  "cancelKeyboardMove s = s\<lparr>keyboardMove := None\<rparr>"

subsection \<open>Planner store: every state-changing operation as one step\<close>

datatype operation =
    AddFeature string string
  | UpdateFeature string featurePatch
  | RemoveFeature string
  | AddDeveloper string string
  | UpdateDeveloper string developerPatch
  | RemoveDeveloper string
  | AddTicket newTicket string int
  | UpdateTicket string ticketPatch
  | DeleteTicket string
  | MoveTicket string string moveMode
  | MoveTicketTo string string string moveMode
  | SetSprintTrail string "string list"
  | RefreshTicketPositions
  | ReplaceState plannerData
  | ToggleDependencies
  | Announce string int
  | ClearAnnouncement
  | BeginKeyboardMove string
  | MoveKeyboardTarget axis int
  | CommitKeyboardMove moveMode int
  | CancelKeyboardMove
  | PushNotice string noticeTone int
  | DismissNotice int
  | SetCurrentSprint "string option"
  | ResetPlanner
  | SetTicketBaseUrl "string option" int

fun step :: "constants \<Rightarrow> plannerData \<Rightarrow> operation \<Rightarrow> plannerStore \<Rightarrow> error + plannerStore" where
  "step c dd (AddFeature name newId) s = Inr (addFeature name newId s)"
| "step c dd (UpdateFeature fid patch) s = Inr (updateFeature fid patch s)"
| "step c dd (RemoveFeature fid) s = Inr (removeFeature fid s)"
| "step c dd (AddDeveloper name newId) s = Inr (addDeveloper name newId s)"
| "step c dd (UpdateDeveloper did patch) s = Inr (updateDeveloper c did patch s)"
| "step c dd (RemoveDeveloper did) s = Inr (removeDeveloper c did s)"
| "step c dd (AddTicket partial newId now) s = Inr (addTicket c partial newId now s)"
| "step c dd (UpdateTicket tid patch) s = Inr (updateTicket c tid patch s)"
| "step c dd (DeleteTicket tid) s = Inr (deleteTicket tid s)"
| "step c dd (MoveTicket tid to mode) s = Inr (moveTicket c tid to mode s)"
| "step c dd (MoveTicketTo tid to devId mode) s = Inr (moveTicketTo c tid to devId mode s)"
| "step c dd (SetSprintTrail tid sids) s = Inr (setSprintTrail c tid sids s)"
| "step c dd RefreshTicketPositions s = Inr (refreshTicketPositions s)"
| "step c dd (ReplaceState d) s = Inr (replaceState c d s)"
| "step c dd ToggleDependencies s = Inr (toggleDependencies s)"
| "step c dd (Announce msg now) s = Inr (announce msg now s)"
| "step c dd ClearAnnouncement s = Inr (clearAnnouncement s)"
| "step c dd (BeginKeyboardMove tid) s = beginKeyboardMove tid s"
| "step c dd (MoveKeyboardTarget ax delta) s = Inr (moveKeyboardTarget c ax delta s)"
| "step c dd (CommitKeyboardMove mode now) s = Inr (commitKeyboardMove c mode now s)"
| "step c dd CancelKeyboardMove s = Inr (cancelKeyboardMove s)"
| "step c dd (PushNotice msg tn nid) s = Inr (pushNotice msg tn nid s)"
| "step c dd (DismissNotice nid) s = Inr (dismissNotice nid s)"
| "step c dd (SetCurrentSprint i) s = Inr (setCurrentSprint i s)"
| "step c dd ResetPlanner s = Inr (resetPlanner c dd s)"
| "step c dd (SetTicketBaseUrl url now) s = Inr (setTicketBaseUrl url now s)"

subsection \<open>Dependency edge router: geometry\<close>

text \<open>
  The \<^verbatim>\<open>useMemo\<close> body of \<^verbatim>\<open>DependencyOverlay\<close> that computes \<^verbatim>\<open>paths\<close>. A
  \<^verbatim>\<open>RectSnapshot\<close> is a bounding box in page coordinates, a \<^verbatim>\<open>RelativeRect\<close> the same box
  relative to the container, with its ticket id. The inner functions of the source close
  over \<^verbatim>\<open>rectList\<close> and \<^verbatim>\<open>containerRect\<close>; here they take them as arguments. Numbers
  are rationals, so nothing is ever \<^verbatim>\<open>NaN\<close> and the two \<^verbatim>\<open>Number.isNaN\<close> guards of the
  source never fire.
\<close>

record rectSnapshot =
  rs_top :: rat
  rs_left :: rat
  rs_right :: rat
  rs_bottom :: rat
  rs_width :: rat
  rs_height :: rat

record relativeRect =
  r_id :: string
  r_left :: rat
  r_right :: rat
  r_top :: rat
  r_bottom :: rat
  r_width :: rat
  r_height :: rat
  centerX :: rat
  centerY :: rat

record point =
  px :: rat
  py :: rat

definition toRelativeRect :: "rectSnapshot \<Rightarrow> string \<Rightarrow> rectSnapshot \<Rightarrow> relativeRect" where
  "toRelativeRect containerRect i rect =
     \<lparr>r_id = i,
      r_left = rs_left rect - rs_left containerRect,
      r_right = rs_right rect - rs_left containerRect,
      r_top = rs_top rect - rs_top containerRect,
      r_bottom = rs_bottom rect - rs_top containerRect,
      r_width = rs_width rect,
      r_height = rs_height rect,
      centerX = rs_left rect - rs_left containerRect + rs_width rect / 2,
      centerY = rs_top rect - rs_top containerRect + rs_height rect / 2\<rparr>"

definition CLEARANCE :: rat where "CLEARANCE = 6"
definition GUTTER_BASE :: rat where "GUTTER_BASE = 28"
definition GUTTER_STEP :: rat where "GUTTER_STEP = 18"
definition GUTTER_ATTEMPTS :: nat where "GUTTER_ATTEMPTS = 5"
definition LANE_STEP :: rat where "LANE_STEP = 32"
definition MIN_Y :: rat where "MIN_Y = 12"

definition MAX_Y :: "rectSnapshot \<Rightarrow> rat" where
  "MAX_Y containerRect = max (MIN_Y + 4) (rs_height containerRect - 12)"

definition clamp :: "rat \<Rightarrow> rat \<Rightarrow> rat \<Rightarrow> rat" where
  "clamp v mn mx = min mx (max mn v)"

definition horizontalBlocked ::
  "relativeRect list \<Rightarrow> rat \<Rightarrow> rat \<Rightarrow> rat \<Rightarrow> string set \<Rightarrow> bool" where
  "horizontalBlocked rectList y x1 x2 ignore =
     list_ex (\<lambda>rect.
        r_id rect \<notin> ignore
        \<and> (y \<ge> r_top rect - CLEARANCE \<and> y \<le> r_bottom rect + CLEARANCE)
        \<and> (max x1 x2 \<ge> r_left rect - CLEARANCE \<and> min x1 x2 \<le> r_right rect + CLEARANCE))
       rectList"

definition verticalBlocked ::
  "relativeRect list \<Rightarrow> rat \<Rightarrow> rat \<Rightarrow> rat \<Rightarrow> string set \<Rightarrow> bool" where
  "verticalBlocked rectList x y1 y2 ignore =
     list_ex (\<lambda>rect.
        r_id rect \<notin> ignore
        \<and> (x \<ge> r_left rect - CLEARANCE \<and> x \<le> r_right rect + CLEARANCE)
        \<and> (max y1 y2 \<ge> r_top rect - CLEARANCE \<and> min y1 y2 \<le> r_bottom rect + CLEARANCE))
       rectList"

text \<open>\<^verbatim>\<open>Math.round(v * 10) / 10\<close>; \<^verbatim>\<open>Math.round\<close> rounds a half towards plus infinity.\<close>

definition round1 :: "rat \<Rightarrow> rat" where
  "round1 v = of_int (round (v * 10)) / 10"

text \<open>
  \<^verbatim>\<open>dedupePoints\<close>: a point is dropped when it equals the last point kept (which is
  already rounded); a point that is kept is rounded.
\<close>

fun dedupeLoop :: "point list \<Rightarrow> point list \<Rightarrow> point list" where
  "dedupeLoop reduced [] = reduced"
| "dedupeLoop reduced (pt # pts) =
     (if reduced \<noteq> [] \<and> px (last reduced) = px pt \<and> py (last reduced) = py pt
      then dedupeLoop reduced pts
      else dedupeLoop (reduced @ [\<lparr>px = round1 (px pt), py = round1 (py pt)\<rparr>]) pts)"

definition dedupePoints :: "point list \<Rightarrow> point list" where
  "dedupePoints pts = dedupeLoop [] pts"

text \<open>
  A \<^verbatim>\<open>for\<close> loop whose body either \<^verbatim>\<open>continue\<close>s or \<^verbatim>\<open>return\<close>s a value: the first value
  returned, \<^term>\<open>None\<close> when the loop runs out.
\<close>

fun firstSome :: "('a \<Rightarrow> 'b option) \<Rightarrow> 'a list \<Rightarrow> 'b option" where
  "firstSome f [] = None"
| "firstSome f (x # xs) = (case f x of None \<Rightarrow> firstSome f xs | Some v \<Rightarrow> Some v)"

subsection \<open>Dependency edge router: lanes and paths\<close>

text \<open>The offsets probed by \<^verbatim>\<open>findLaneY\<close>: the preferred one first, then the defaults.\<close>

definition laneOffsets :: "int \<Rightarrow> int list" where
  "laneOffsets lanePreference =
     foldl (\<lambda>offsets offset. if offset \<in> set offsets then offsets else offsets @ [offset])
       (if lanePreference \<noteq> 0
        then [max 1 (round \<bar>of_int lanePreference :: rat\<bar>) * sgn lanePreference]
        else [])
       [0, 1, -1, 2, -2, 3, -3, 4, -4, 5, -5]"

text \<open>
  The tests of one candidate lane in \<^verbatim>\<open>findLaneY\<close>; the candidate is accepted when none
  of the four rejects it.
\<close>

definition laneRejected ::
  "relativeRect list \<Rightarrow> relativeRect \<Rightarrow> relativeRect \<Rightarrow> rat \<Rightarrow> rat \<Rightarrow> rat \<Rightarrow> rat \<Rightarrow> rat \<Rightarrow> bool" where
  "laneRejected rectList startRect endRect exitX entryX startAnchorY endAnchorY candidate =
     (((candidate > r_top startRect - CLEARANCE \<and> candidate < r_bottom startRect + CLEARANCE)
        \<or> (candidate > r_top endRect - CLEARANCE \<and> candidate < r_bottom endRect + CLEARANCE))
      \<or> horizontalBlocked rectList candidate exitX entryX {r_id startRect, r_id endRect}
      \<or> verticalBlocked rectList exitX startAnchorY candidate {r_id startRect}
      \<or> verticalBlocked rectList entryX endAnchorY candidate {r_id endRect})"

text \<open>
  The two nested loops of \<^verbatim>\<open>findLaneY\<close>, over the raw candidates \<open>base + offset * LANE_STEP\<close>
  in loop order, with the set \<^verbatim>\<open>tested\<close> of clamped candidates already seen.
\<close>

fun laneSearch :: "rat \<Rightarrow> (rat \<Rightarrow> bool) \<Rightarrow> rat set \<Rightarrow> rat list \<Rightarrow> rat option" where
  "laneSearch maxY rejected tested [] = None"
| "laneSearch maxY rejected tested (candidateRaw # rest) =
     (if clamp candidateRaw MIN_Y maxY \<in> tested then laneSearch maxY rejected tested rest
      else if rejected (clamp candidateRaw MIN_Y maxY)
      then laneSearch maxY rejected (insert (clamp candidateRaw MIN_Y maxY) tested) rest
      else Some (clamp candidateRaw MIN_Y maxY))"

definition findLaneY ::
  "relativeRect list \<Rightarrow> rectSnapshot \<Rightarrow> bool \<Rightarrow> relativeRect \<Rightarrow> relativeRect \<Rightarrow> rat \<Rightarrow> rat
     \<Rightarrow> int \<Rightarrow> rat \<Rightarrow> rat \<Rightarrow> rat option" where
  "findLaneY rectList containerRect basePrefersDown startRect endRect exitX entryX
       lanePreference startAnchorY endAnchorY =
     (let downStart = clamp (max (r_bottom startRect) (r_bottom endRect) + 20) MIN_Y
                        (MAX_Y containerRect);
          upStart = clamp (min (r_top startRect) (r_top endRect) - 20) MIN_Y (MAX_Y containerRect);
          orderedBases = (if basePrefersDown then [downStart, upStart] else [upStart, downStart]);
          offsets = laneOffsets lanePreference
      in laneSearch (MAX_Y containerRect)
           (laneRejected rectList startRect endRect exitX entryX startAnchorY endAnchorY)
           {}
           (concat (map (\<lambda>base. map (\<lambda>offset. base + of_int offset * LANE_STEP) offsets)
                      orderedBases)))"

definition buildCrossColumnPath ::
  "relativeRect list \<Rightarrow> rectSnapshot \<Rightarrow> relativeRect \<Rightarrow> relativeRect \<Rightarrow> rat \<Rightarrow> rat
     \<Rightarrow> int \<Rightarrow> int \<Rightarrow> point list option" where
  "buildCrossColumnPath rectList containerRect startRect endRect startAnchorY endAnchorY
       horizontalDir laneOffsetIndex =
     (let preferDown = (if laneOffsetIndex = 0 then centerY endRect \<ge> centerY startRect
                        else laneOffsetIndex > 0);
          startEdgeX = (if horizontalDir > 0 then r_right startRect else r_left startRect);
          endEdgeX = (if horizontalDir > 0 then r_left endRect else r_right endRect)
      in firstSome
           (\<lambda>attempt.
              let gutter = GUTTER_BASE + of_int \<bar>laneOffsetIndex\<bar> * GUTTER_STEP + of_nat attempt * 6;
                  exitX = startEdgeX + of_int horizontalDir * gutter;
                  entryX = endEdgeX - of_int horizontalDir * gutter
              in if verticalBlocked rectList exitX startAnchorY startAnchorY {r_id startRect}
                 then None
                 else
                   (case findLaneY rectList containerRect preferDown startRect endRect exitX entryX
                           laneOffsetIndex startAnchorY endAnchorY of
                      None \<Rightarrow> None
                    | Some laneY \<Rightarrow>
                        Some (dedupePoints
                               [\<lparr>px = startEdgeX, py = startAnchorY\<rparr>,
                                \<lparr>px = exitX, py = startAnchorY\<rparr>,
                                \<lparr>px = exitX, py = laneY\<rparr>,
                                \<lparr>px = entryX, py = laneY\<rparr>,
                                \<lparr>px = entryX, py = endAnchorY\<rparr>,
                                \<lparr>px = endEdgeX, py = endAnchorY\<rparr>])))
           [0..<GUTTER_ATTEMPTS])"

definition buildSameColumnPath ::
  "relativeRect list \<Rightarrow> rectSnapshot \<Rightarrow> relativeRect \<Rightarrow> relativeRect \<Rightarrow> rat \<Rightarrow> rat
     \<Rightarrow> nat \<Rightarrow> point list option" where
  "buildSameColumnPath rectList containerRect startRect endRect startAnchorY endAnchorY laneIndex =
     (let rightSpace = rs_width containerRect - max (r_right startRect) (r_right endRect);
          leftSpace = min (r_left startRect) (r_left endRect);
          directions = (if rightSpace \<ge> leftSpace then [1, -1] else [-1, 1 :: int])
      in firstSome
           (\<lambda>dir.
              let startEdgeX = (if dir > 0 then r_right startRect else r_left startRect);
                  endEdgeX = (if dir > 0 then r_right endRect else r_left endRect);
                  laneXRaw = startEdgeX + of_int dir * (28 + of_nat laneIndex * 22);
                  laneX = clamp laneXRaw 4 (rs_width containerRect - 4)
              in if verticalBlocked rectList laneX (min startAnchorY endAnchorY)
                      (max startAnchorY endAnchorY) {r_id startRect, r_id endRect}
                 then None
                 else Some (dedupePoints
                              [\<lparr>px = startEdgeX, py = startAnchorY\<rparr>,
                               \<lparr>px = laneX, py = startAnchorY\<rparr>,
                               \<lparr>px = laneX, py = endAnchorY\<rparr>,
                               \<lparr>px = endEdgeX, py = endAnchorY\<rparr>]))
           directions)"

definition buildPath ::
  "relativeRect list \<Rightarrow> rectSnapshot \<Rightarrow> relativeRect \<Rightarrow> relativeRect \<Rightarrow> rat \<Rightarrow> rat
     \<Rightarrow> bool \<Rightarrow> int \<Rightarrow> int \<Rightarrow> nat \<Rightarrow> point list option" where
  "buildPath rectList containerRect startRect endRect startAnchorY endAnchorY sameColumn
       horizontalDir laneOffsetIndex laneIndexSameColumn =
     (if sameColumn
      then buildSameColumnPath rectList containerRect startRect endRect startAnchorY endAnchorY
             laneIndexSameColumn
      else buildCrossColumnPath rectList containerRect startRect endRect startAnchorY endAnchorY
             horizontalDir laneOffsetIndex)"

subsection \<open>Dependency edge router: edges, anchor slots and results\<close>

text \<open>
  A \<^verbatim>\<open>Segment\<close> is one dependency edge, from the dependency (\<open>seg_from\<close>) to the
  dependent ticket (\<open>seg_to\<close>). The source's fields \<^verbatim>\<open>from\<close> and \<^verbatim>\<open>to\<close> are renamed.
\<close>

record segment =
  seg_from :: string
  seg_to :: string
  startRect :: relativeRect
  endRect :: relativeRect
  startSprintIdx :: int
  endSprintIdx :: int
  sameColumn :: bool
  horizontalDir :: int
  groupKey :: string
  orderKey :: rat
  startSideKey :: string
  endSideKey :: string
  startSlot :: "nat option"
  endSlot :: "nat option"

text \<open>
  The object that the inner loop pushes onto \<^verbatim>\<open>segments\<close>, for the dependency id, the
  dependent ticket, their two rectangles and their two sprint indices.
\<close>

definition newSegment ::
  "string \<Rightarrow> ticket \<Rightarrow> relativeRect \<Rightarrow> relativeRect \<Rightarrow> int \<Rightarrow> int \<Rightarrow> segment" where
  "newSegment depId t sr er ssi esi =
     (let hdir = (if centerX er \<ge> centerX sr then 1 else -1 :: int);
          startSide = (if hdir > 0 then ''right'' else ''left'');
          endSide = (if hdir > 0 then ''left'' else ''right'')
      in \<lparr>seg_from = depId, seg_to = ticket_id t,
          startRect = sr, endRect = er,
          startSprintIdx = ssi, endSprintIdx = esi,
          sameColumn = (ssi = esi),
          horizontalDir = hdir,
          groupKey =
            (if ssi = esi then ''col-'' @ showNat (nat ssi)
             else ''row-'' @ showNat (nat ssi) @ ''-'' @ showNat (nat esi)
                    @ ''-'' @ (if hdir > 0 then ''r'' else ''l'')),
          orderKey = (centerY sr + centerY er) / 2,
          startSideKey = depId @ '':'' @ startSide,
          endSideKey = ticket_id t @ '':'' @ endSide,
          startSlot = None, endSlot = None\<rparr>)"

text \<open>
  The body of the two nested \<^verbatim>\<open>forEach\<close> loops for one ticket and one of its dependency
  ids: \<^term>\<open>None\<close> where the source \<^verbatim>\<open>return\<close>s without pushing a segment. \<^verbatim>\<open>rectMap\<close>
  is keyed by ticket id and \<^verbatim>\<open>rectList\<close> holds one rectangle per key, so
  \<^verbatim>\<open>rectMap.get\<close> is the search for the id in \<^verbatim>\<open>rectList\<close>. An empty
  \<^verbatim>\<open>activeTicketId\<close> is falsy.
\<close>

definition segmentFor ::
  "relativeRect list \<Rightarrow> ticket list \<Rightarrow> string list \<Rightarrow> string option \<Rightarrow> ticket \<Rightarrow> string
     \<Rightarrow> segment option" where
  "segmentFor rectList tks orderedSprintIds activeTicketId t depId =
     (if (case activeTicketId of
            None \<Rightarrow> False
          | Some a \<Rightarrow> a \<noteq> [] \<and> a \<noteq> depId \<and> a \<noteq> ticket_id t)
      then None
      else
        (case find (\<lambda>item. ticket_id item = depId) tks of
           None \<Rightarrow> None
         | Some fromTicket \<Rightarrow>
             (case (find (\<lambda>r. r_id r = depId) rectList,
                    find (\<lambda>r. r_id r = ticket_id t) rectList) of
                (Some sr, Some er) \<Rightarrow>
                  let ssi = sprintIndexOpt (currentSprintId fromTicket) orderedSprintIds;
                      esi = sprintIndexOpt (currentSprintId t) orderedSprintIds
                  in if ssi = -1 \<or> esi = -1 then None
                     else Some (newSegment depId t sr er ssi esi)
              | _ \<Rightarrow> None)))"

definition extractSegments ::
  "relativeRect list \<Rightarrow> ticket list \<Rightarrow> string list \<Rightarrow> string option \<Rightarrow> segment list" where
  "extractSegments rectList tks orderedSprintIds activeTicketId =
     concat (map (\<lambda>t. List.map_filter
                         (segmentFor rectList tks orderedSprintIds activeTicketId t)
                         (dependencies t))
               tks)"

text \<open>
  \<^verbatim>\<open>startTotals\<close> and \<^verbatim>\<open>endTotals\<close>: each pushed segment adds one to the entry of its
  key, in push order.
\<close>

definition countKeys :: "string list \<Rightarrow> (string \<rightharpoonup> nat)" where
  "countKeys ks = foldl (\<lambda>m k. m(k \<mapsto> orElse (m k) 0 + 1)) Map.empty ks"

text \<open>The comparator of the sort in \<^verbatim>\<open>assignSlots\<close>.\<close>

definition slotCompare :: "bool \<Rightarrow> segment \<Rightarrow> segment \<Rightarrow> rat" where
  "slotCompare byStart a b =
     (if (if byStart then centerY (startRect a) - centerY (startRect b)
          else centerY (endRect a) - centerY (endRect b)) \<noteq> 0
      then (if byStart then centerY (startRect a) - centerY (startRect b)
            else centerY (endRect a) - centerY (endRect b))
      else (if byStart then centerY (endRect a) - centerY (endRect b)
            else centerY (startRect a) - centerY (startRect b)))"

text \<open>
  The pair of numbers by which the comparator of \<^verbatim>\<open>assignSlots\<close> orders the segments,
  first component first: the vertical centre of the segment's own end, then that of its
  other end.
\<close>

definition slotKey :: "bool \<Rightarrow> segment \<Rightarrow> rat \<times> rat" where
  "slotKey byStart a = (if byStart then (centerY (startRect a), centerY (endRect a))
                        else (centerY (endRect a), centerY (startRect a)))"

text \<open>
  The \<^verbatim>\<open>forEach\<close> of \<^verbatim>\<open>assignSlots\<close> over the sorted copy. The source writes the slot
  into the segment object, which the array \<^verbatim>\<open>segments\<close> shares with the sorted copy; the
  model carries each segment's position in \<^verbatim>\<open>segments\<close> along and returns the slot given
  to each position.
\<close>

fun slotLoop ::
  "(segment \<Rightarrow> string) \<Rightarrow> (string \<rightharpoonup> nat) \<Rightarrow> (string \<rightharpoonup> nat) \<Rightarrow> (nat \<times> segment) list
     \<Rightarrow> (nat \<times> nat) list" where
  "slotLoop keyOf totalMap assignedMap [] = []"
| "slotLoop keyOf totalMap assignedMap ((i, seg) # rest) =
     (if orElse (totalMap (keyOf seg)) 1 \<le> 1
      then (i, 0) # slotLoop keyOf totalMap assignedMap rest
      else (i, orElse (assignedMap (keyOf seg)) 0)
             # slotLoop keyOf totalMap
                 (assignedMap(keyOf seg \<mapsto> orElse (assignedMap (keyOf seg)) 0 + 1)) rest)"

definition assignSlots ::
  "(segment \<Rightarrow> string) \<Rightarrow> (string \<rightharpoonup> nat) \<Rightarrow> bool \<Rightarrow> segment list \<Rightarrow> (nat \<rightharpoonup> nat)" where
  "assignSlots keyOf totalMap byStart segs =
     map_of (slotLoop keyOf totalMap Map.empty
               (sort_cmp (\<lambda>a b. slotCompare byStart (snd a) (snd b)) (enumerate 0 segs)))"

text \<open>The segments after both calls of \<^verbatim>\<open>assignSlots\<close>.\<close>

definition slottedSegments :: "segment list \<Rightarrow> segment list" where
  "slottedSegments segs =
     map (\<lambda>(i, seg).
            seg\<lparr>startSlot :=
                   assignSlots startSideKey (countKeys (map startSideKey segs)) True segs i,
                 endSlot :=
                   assignSlots endSideKey (countKeys (map endSideKey segs)) False segs i\<rparr>)
         (enumerate 0 segs)"

text \<open>
  \<^verbatim>\<open>computeAnchor\<close>. The source computes \<^verbatim>\<open>rect.top + step * (clampedSlot + 1)\<close> with
  \<^verbatim>\<open>step = rect.height / (total + 1)\<close> in double precision, rounding after each
  operation; the model computes the same expression exactly. The two agree wherever the
  three operations are exact in double precision, as they are on the boards evaluated
  below, whose coordinates are small integers; no general statement about the value of
  this expression is made.
\<close>

definition computeAnchor :: "relativeRect \<Rightarrow> nat option \<Rightarrow> nat \<Rightarrow> rat" where
  "computeAnchor rect slot totalCount =
     (case slot of
        None \<Rightarrow> centerY rect
      | Some sl \<Rightarrow>
          if totalCount \<le> 1 then centerY rect
          else r_top rect
                 + (r_height rect / (of_nat totalCount + 1))
                     * (of_int (max 0 (min (int sl) (int totalCount - 1))) + 1))"

text \<open>The two anchors of a segment, as the result loop computes them.\<close>

definition startAnchorY :: "segment list \<Rightarrow> segment \<Rightarrow> rat" where
  "startAnchorY segs seg =
     computeAnchor (startRect seg) (startSlot seg)
       (orElse (countKeys (map startSideKey segs) (startSideKey seg)) 1)"

definition endAnchorY :: "segment list \<Rightarrow> segment \<Rightarrow> rat" where
  "endAnchorY segs seg =
     computeAnchor (endRect seg) (endSlot seg)
       (orElse (countKeys (map endSideKey segs) (endSideKey seg)) 1)"

text \<open>
  The lane offset index of the member at position \<open>idx\<close> of a group of \<open>len\<close> segments.
\<close>

definition laneOffsetIndexOf :: "bool \<Rightarrow> nat \<Rightarrow> nat \<Rightarrow> int" where
  "laneOffsetIndexOf same idx len =
     (if same then int idx
      else if (of_nat idx - (of_nat len - 1) / 2 :: rat) = 0 then 0
      else if (of_nat idx - (of_nat len - 1) / 2 :: rat) > 0
      then \<lceil>of_nat idx - (of_nat len - 1) / 2 :: rat\<rceil>
      else \<lfloor>of_nat idx - (of_nat len - 1) / 2 :: rat\<rfloor>)"

text \<open>
  One entry of \<^verbatim>\<open>results\<close>. The source renders the points as the text of an SVG path
  (\<^verbatim>\<open>M x y L x y ...\<close>); the model keeps the points.
\<close>

record pathResult =
  path_from :: string
  path_to :: string
  points :: "point list"

definition groupResults ::
  "relativeRect list \<Rightarrow> rectSnapshot \<Rightarrow> segment list \<Rightarrow> segment list \<Rightarrow> pathResult list" where
  "groupResults rectList containerRect segs grp =
     List.map_filter
       (\<lambda>(idx, seg).
          case buildPath rectList containerRect (startRect seg) (endRect seg)
                 (startAnchorY segs seg) (endAnchorY segs seg) (sameColumn seg)
                 (horizontalDir seg) (laneOffsetIndexOf (sameColumn seg) idx (length grp)) idx of
            None \<Rightarrow> None
          | Some pts \<Rightarrow>
              if length pts < 2 then None
              else Some \<lparr>path_from = seg_from seg, path_to = seg_to seg, points = pts\<rparr>)
       (enumerate 0 (sort_cmp (\<lambda>a b. orderKey a - orderKey b) grp))"

text \<open>
  \<^verbatim>\<open>paths\<close>. \<^verbatim>\<open>positions\<close> is the list of the entries of the position object, whose
  keys are distinct. \<^verbatim>\<open>grouped\<close> is a map in insertion order: the groups come in the
  order in which their keys first occur among the segments.
\<close>

definition rectListOf ::
  "rectSnapshot \<Rightarrow> (string \<times> rectSnapshot) list \<Rightarrow> string option \<Rightarrow> rectSnapshot option
     \<Rightarrow> relativeRect list" where
  "rectListOf containerRect positions activeTicketId activeRectSnapshot =
     map (\<lambda>(i, rect). toRelativeRect containerRect i rect) positions
     @ (case (activeTicketId, activeRectSnapshot) of
          (Some a, Some ar) \<Rightarrow>
            if a \<noteq> [] \<and> a \<notin> set (map fst positions) then [toRelativeRect containerRect a ar]
            else []
        | _ \<Rightarrow> [])"

definition paths ::
  "rectSnapshot option \<Rightarrow> bool \<Rightarrow> (string \<times> rectSnapshot) list \<Rightarrow> ticket list \<Rightarrow> string list
     \<Rightarrow> string option \<Rightarrow> rectSnapshot option \<Rightarrow> pathResult list" where
  "paths containerRect showDeps positions tks orderedSprintIds activeTicketId activeRectSnapshot =
     (case containerRect of
        None \<Rightarrow> []
      | Some cr \<Rightarrow>
          if \<not> showDeps then []
          else
            let rectList = rectListOf cr positions activeTicketId activeRectSnapshot in
            if rectList = [] then []
            else
              let segs = slottedSegments
                           (extractSegments rectList tks orderedSprintIds activeTicketId)
              in concat
                   (map (\<lambda>gk. groupResults rectList cr segs (filter (\<lambda>sg. groupKey sg = gk) segs))
                      (dedupe {} (map groupKey segs))))"

text \<open>
  Whether the straight segment between two points passes through the inside of a
  rectangle, and whether some segment of a polyline does.
\<close>

definition segmentCrosses :: "point \<Rightarrow> point \<Rightarrow> relativeRect \<Rightarrow> bool" where
  "segmentCrosses a b rect =
     (min (px a) (px b) < r_right rect \<and> max (px a) (px b) > r_left rect
      \<and> min (py a) (py b) < r_bottom rect \<and> max (py a) (py b) > r_top rect)"

fun pathCrosses :: "point list \<Rightarrow> relativeRect \<Rightarrow> bool" where
  "pathCrosses (a # b # rest) rect = (segmentCrosses a b rect \<or> pathCrosses (b # rest) rect)"
| "pathCrosses _ rect = False"

subsection \<open>Invariants of the ticket collection\<close>

text \<open>Every ticket has a trail with at least one sprint id.\<close>

definition trailsNonEmpty :: "ticket list \<Rightarrow> bool" where
  "trailsNonEmpty ts = list_all (\<lambda>t. sprintIds t \<noteq> []) ts"

text \<open>
  No ticket depends on itself, and every dependency is the id of a ticket of the
  collection.
\<close>

definition depsValid :: "ticket list \<Rightarrow> bool" where
  "depsValid ts =
     list_all (\<lambda>t. list_all (\<lambda>d. d \<noteq> ticket_id t \<and> d \<in> set (map ticket_id ts)) (dependencies t)) ts"

subsection \<open>A small planner used for concrete evaluation\<close>

definition exConstants :: constants where
  "exConstants =
     \<lparr>BACKLOG_COLUMN_ID = ''backlog'', UNASSIGNED_DEVELOPER_ID = ''unassigned'',
      REQUIRED_SPRINT_COUNT = 3, DEFAULT_SPRINT_CAPACITY = 8\<rparr>"

definition exTicket :: "string \<Rightarrow> string \<Rightarrow> string list \<Rightarrow> string list \<Rightarrow> ticket" where
  "exTicket i feat sids deps =
     \<lparr>ticket_id = i, key = ''KEY-'' @ i, ticket_name = ''Example'', storyPoints = 3,
      developerId = ''dev-a'', featureId = feat, sprintIds = sids, dependencies = deps,
      createdAt = 0, jiraUrl = None\<rparr>"

text \<open>
  The sprints are stored out of order: sprint 3 first, then sprints 1 and 2. Their
  \<open>order\<close> fields, not their positions in the array, say which comes first.
\<close>

definition exSprints :: "sprint list" where
  "exSprints =
     [\<lparr>sprint_id = ''S3'', sprint_name = ''Sprint 3'', sprint_order = 3, capacityPerDevSP = Some 8\<rparr>,
      \<lparr>sprint_id = ''S1'', sprint_name = ''Sprint 1'', sprint_order = 1, capacityPerDevSP = Some 8\<rparr>,
      \<lparr>sprint_id = ''S2'', sprint_name = ''Sprint 2'', sprint_order = 2, capacityPerDevSP = Some 8\<rparr>]"

text \<open>
  Ticket \<open>A\<close> is planned for sprint 2; \<open>B\<close> depends on \<open>A\<close> and is planned for sprint 3;
  \<open>C\<close> belongs to another feature.
\<close>

definition exStore :: plannerStore where
  "exStore =
     \<lparr>sprints = exSprints,
      developers = [\<lparr>developer_id = ''unassigned'', developer_name = ''Unassigned''\<rparr>,
                    \<lparr>developer_id = ''dev-a'', developer_name = ''Alice''\<rparr>],
      features = [\<lparr>feature_id = ''F1'', feature_name = ''Billing'', feature_url = None\<rparr>,
                  \<lparr>feature_id = ''F2'', feature_name = ''Onboarding'', feature_url = None\<rparr>],
      tickets = [exTicket ''A'' ''F1'' [''S2''] [],
                 exTicket ''B'' ''F1'' [''S3''] [''A''],
                 exTicket ''C'' ''F2'' [''S1''] []],
      currentSprint = Some ''S1'', ticketBaseUrl = None,
      showDependencies = True, keyboardMove = None, liveAnnouncement = None, notices = [],
      storage = None\<rparr>"




subsection \<open>A small board used for concrete evaluation of the router\<close>

definition exContainer :: rectSnapshot where
  "exContainer = \<lparr>rs_top = 0, rs_left = 0, rs_right = 1000, rs_bottom = 600,
                   rs_width = 1000, rs_height = 600\<rparr>"

definition exRect :: "rat \<Rightarrow> rat \<Rightarrow> rat \<Rightarrow> rat \<Rightarrow> rectSnapshot" where
  "exRect l t w h = \<lparr>rs_top = t, rs_left = l, rs_right = l + w, rs_bottom = t + h,
                     rs_width = w, rs_height = h\<rparr>"

text \<open>
  Ticket \<open>A\<close> (sprint 1) is a dependency of \<open>B\<close> (sprint 2), to its right at the same
  height. The card of \<open>C\<close> overlaps the left edge of \<open>B\<close>, 20 pixels to the left of it
  and 10 pixels lower, as a card does while it is dragged across the board.
\<close>

definition exBoardTickets :: "ticket list" where
  "exBoardTickets =
     [exTicket ''A'' ''F1'' [''S1''] [], exTicket ''B'' ''F1'' [''S2''] [''A''],
      exTicket ''C'' ''F1'' [''S2''] []]"

definition exBoardPositions :: "(string \<times> rectSnapshot) list" where
  "exBoardPositions =
     [(''A'', exRect 100 100 100 50), (''B'', exRect 400 100 100 50),
      (''C'', exRect 380 110 100 50)]"

text \<open>The three cards relative to the container, and the one edge of the board.\<close>

definition boardA :: relativeRect where
  "boardA = \<lparr>r_id = ''A'', r_left = 100, r_right = 200, r_top = 100, r_bottom = 150,
              r_width = 100, r_height = 50, centerX = 150, centerY = 125\<rparr>"

definition boardB :: relativeRect where
  "boardB = \<lparr>r_id = ''B'', r_left = 400, r_right = 500, r_top = 100, r_bottom = 150,
              r_width = 100, r_height = 50, centerX = 450, centerY = 125\<rparr>"

definition boardC :: relativeRect where
  "boardC = \<lparr>r_id = ''C'', r_left = 380, r_right = 480, r_top = 110, r_bottom = 160,
              r_width = 100, r_height = 50, centerX = 430, centerY = 135\<rparr>"

definition edgeAB :: segment where
  "edgeAB = \<lparr>seg_from = ''A'', seg_to = ''B'', startRect = boardA, endRect = boardB,
              startSprintIdx = 0, endSprintIdx = 1, sameColumn = False, horizontalDir = 1,
              groupKey = ''row-0-1-r'', orderKey = 125, startSideKey = ''A:right'',
              endSideKey = ''B:left'', startSlot = None, endSlot = None\<rparr>"

text \<open>
  A second board. \<open>T\<close> (sprint 1) depends on \<open>Y\<close> and is a dependency of \<open>X\<close>;
  \<open>X\<close> and \<open>Y\<close> (sprint 2) both stand to the right of \<open>T\<close>, \<open>X\<close> above and \<open>Y\<close>
  below. The edge from \<open>T\<close> to \<open>X\<close> leaves \<open>T\<close> on its right side, and the edge from
  \<open>Y\<close> to \<open>T\<close> arrives at \<open>T\<close> on its right side.
\<close>

definition mixBoardTickets :: "ticket list" where
  "mixBoardTickets =
     [exTicket ''T'' ''F1'' [''S1''] [''Y''], exTicket ''X'' ''F1'' [''S2''] [''T''],
      exTicket ''Y'' ''F1'' [''S2''] []]"

definition mixBoardPositions :: "(string \<times> rectSnapshot) list" where
  "mixBoardPositions =
     [(''T'', exRect 100 100 100 60), (''X'', exRect 400 50 100 50),
      (''Y'', exRect 400 200 100 50)]"

text \<open>The three cards relative to the container, and the two edges of the board.\<close>

definition boardT :: relativeRect where
  "boardT = \<lparr>r_id = ''T'', r_left = 100, r_right = 200, r_top = 100, r_bottom = 160,
              r_width = 100, r_height = 60, centerX = 150, centerY = 130\<rparr>"

definition boardX :: relativeRect where
  "boardX = \<lparr>r_id = ''X'', r_left = 400, r_right = 500, r_top = 50, r_bottom = 100,
              r_width = 100, r_height = 50, centerX = 450, centerY = 75\<rparr>"

definition boardY :: relativeRect where
  "boardY = \<lparr>r_id = ''Y'', r_left = 400, r_right = 500, r_top = 200, r_bottom = 250,
              r_width = 100, r_height = 50, centerX = 450, centerY = 225\<rparr>"

definition edgeYT :: segment where
  "edgeYT = \<lparr>seg_from = ''Y'', seg_to = ''T'', startRect = boardY, endRect = boardT,
              startSprintIdx = 1, endSprintIdx = 0, sameColumn = False, horizontalDir = - 1,
              groupKey = ''row-1-0-l'', orderKey = 355 / 2, startSideKey = ''Y:left'',
              endSideKey = ''T:right'', startSlot = None, endSlot = None\<rparr>"

definition edgeTX :: segment where
  "edgeTX = \<lparr>seg_from = ''T'', seg_to = ''X'', startRect = boardT, endRect = boardX,
              startSprintIdx = 0, endSprintIdx = 1, sameColumn = False, horizontalDir = 1,
              groupKey = ''row-0-1-r'', orderKey = 205 / 2, startSideKey = ''T:right'',
              endSideKey = ''X:left'', startSlot = None, endSlot = None\<rparr>"

section \<open>Properties of the scheduling model\<close>

subsection \<open>Facts about the array helpers\<close>

lemma indexOf_ge: "- 1 \<le> indexOf xs x"
  by (induction xs) auto

lemma indexOf_notin: "indexOf xs x = - 1 \<longleftrightarrow> x \<notin> set xs"
proof (induction xs)
  case Nil
  show ?case by simp
next
  case (Cons y ys)
  have "- 1 \<le> indexOf ys x" by (rule indexOf_ge)
  with Cons show ?case by auto
qed

lemma indexOf_first:
  "x \<in> set xs \<Longrightarrow>
     0 \<le> indexOf xs x \<and> nat (indexOf xs x) < length xs \<and> xs ! nat (indexOf xs x) = x
       \<and> x \<notin> set (take (nat (indexOf xs x)) xs)"
proof (induction xs)
  case Nil
  then show ?case by simp
next
  case (Cons y ys)
  show ?case
  proof (cases "y = x")
    case True
    then show ?thesis by simp
  next
    case False
    with Cons.prems have mem: "x \<in> set ys" by simp
    from Cons.IH [OF mem] have ih: "0 \<le> indexOf ys x" "nat (indexOf ys x) < length ys"
      "ys ! nat (indexOf ys x) = x" "x \<notin> set (take (nat (indexOf ys x)) ys)"
      by simp_all
    have n: "nat (indexOf ys x + 1) = Suc (nat (indexOf ys x))"
      using ih(1) by simp
    show ?thesis
      using False ih n by simp
  qed
qed

lemma insert_cmp_key:
  fixes f :: "'a \<Rightarrow> int"
  shows "insert_cmp (\<lambda>a b. f a - f b) x xs = insort_key f x xs"
  by (induction xs) auto

lemma sort_cmp_key:
  fixes f :: "'a \<Rightarrow> int"
  shows "sort_cmp (\<lambda>a b. f a - f b) xs = sort_key f xs"
  by (induction xs) (auto simp: insert_cmp_key)

lemma remdups_snoc: "remdups (zs @ [x]) = remdups (filter (\<lambda>y. y \<noteq> x) zs) @ [x]"
  by (induction zs) auto

lemma dedupe_filter: "dedupe seen xs = rev (remdups (rev (filter (\<lambda>x. x \<notin> seen) xs)))"
proof (induction xs arbitrary: seen)
  case Nil
  show ?case by simp
next
  case (Cons x xs)
  show ?case
  proof (cases "x \<in> seen")
    case True
    then show ?thesis by (simp add: Cons.IH)
  next
    case False
    let ?ys = "filter (\<lambda>y. y \<notin> seen) xs"
    have f: "filter (\<lambda>y. y \<notin> insert x seen) xs = filter (\<lambda>y. y \<noteq> x) ?ys"
      by (induction xs) auto
    have "dedupe seen (x # xs) = x # dedupe (insert x seen) xs"
      using False by simp
    also have "\<dots> = x # rev (remdups (rev (filter (\<lambda>y. y \<noteq> x) ?ys)))"
      by (simp only: Cons.IH f)
    also have "\<dots> = rev (remdups (filter (\<lambda>y. y \<noteq> x) (rev ?ys)) @ [x])"
      by (simp only: rev_filter rev_append rev.simps append.simps)
    also have "\<dots> = rev (remdups (rev ?ys @ [x]))"
      by (simp only: remdups_snoc)
    also have "\<dots> = rev (remdups (rev (x # ?ys)))"
      by simp
    also have "x # ?ys = filter (\<lambda>y. y \<notin> seen) (x # xs)"
      using False by simp
    finally show ?thesis .
  qed
qed

lemma dedupe_first_occurrence: "dedupe {} xs = rev (remdups (rev xs))"
  by (simp add: dedupe_filter)

lemma dedupe_distinct: "distinct (dedupe {} xs)"
  by (simp add: dedupe_first_occurrence)

lemma dedupe_id: "distinct xs \<Longrightarrow> dedupe {} xs = xs"
  by (simp add: dedupe_first_occurrence distinct_remdups_id)

lemma sortSprintTrail_sort_key:
  "sortSprintTrail ids ordered = sort_key (\<lambda>i. sprintIndex i ordered) (dedupe {} ids)"
  by (simp add: sortSprintTrail_def sort_cmp_key)

lemma sortSprintTrail_distinct: "distinct (sortSprintTrail ids ordered)"
  by (simp add: sortSprintTrail_sort_key dedupe_distinct)

lemma sortSprintTrail_set: "set (sortSprintTrail ids ordered) = set ids"
  by (simp add: sortSprintTrail_sort_key dedupe_first_occurrence)

lemma sortSprintTrail_sorted:
  "sorted (map (\<lambda>i. sprintIndex i ordered) (sortSprintTrail ids ordered))"
  by (simp add: sortSprintTrail_sort_key)

lemma sortSprintTrail_idem:
  "sortSprintTrail (sortSprintTrail ids ordered) ordered = sortSprintTrail ids ordered"
proof -
  let ?r = "sortSprintTrail ids ordered"
  have "dedupe {} ?r = ?r"
    by (rule dedupe_id) (rule sortSprintTrail_distinct)
  moreover have "sort_key (\<lambda>i. sprintIndex i ordered) ?r = ?r"
    by (rule sort_key_id_if_sorted) (rule sortSprintTrail_sorted)
  ultimately show ?thesis
    by (simp add: sortSprintTrail_sort_key [of ?r])
qed

subsection \<open>Claims about calc.ts\<close>

text \<open>
  C6. For every trail \<open>T\<close> and sprint order \<open>ord\<close>, sorting the trail twice gives what
  sorting it once gives, and the result has no duplicate id. The result is \<open>T\<close> with
  every repetition after the first occurrence dropped (\<open>rev (remdups (rev T))\<close>; the
  library's \<open>remdups\<close> keeps last occurrences), stably sorted by the index of each id in
  \<open>ord\<close>, where an id that is not in \<open>ord\<close> (and only such an id) has index \<open>-1\<close> and
  any other id has the position of its first occurrence.
\<close>

theorem sortSprintTrail_idempotent_distinct_sorted:
  "sortSprintTrail (sortSprintTrail T ord) ord = sortSprintTrail T ord
   \<and> distinct (sortSprintTrail T ord)
   \<and> sortSprintTrail T ord = sort_key (\<lambda>i. sprintIndex i ord) (rev (remdups (rev T)))
   \<and> sorted (map (\<lambda>i. sprintIndex i ord) (sortSprintTrail T ord))
   \<and> (sprintIndex i ord = - 1 \<longleftrightarrow> i \<notin> set ord)
   \<and> - 1 \<le> sprintIndex i ord"
  using sortSprintTrail_idem [of T ord] sortSprintTrail_distinct [of T ord]
    sortSprintTrail_sorted [of T ord] indexOf_notin [of ord i] indexOf_ge [of ord i]
  by (simp add: sortSprintTrail_sort_key dedupe_first_occurrence sprintIndex_def)

theorem sortSprintTrail_idempotent_distinct_sorted_witness:
  "sortSprintTrail (sortSprintTrail [''S3'', ''S1'', ''S2'', ''S3''] [''S1'', ''S2'', ''S3''])
       [''S1'', ''S2'', ''S3''] = [''S1'', ''S2'', ''S3'']
   \<and> sortSprintTrail [''S3'', ''S1'', ''S2'', ''S3''] [''S1'', ''S2'', ''S3'']
       = [''S1'', ''S2'', ''S3'']
   \<and> sortSprintTrail [''S2'', ''backlog'', ''S1'', ''S2''] [''S1'', ''S2'', ''S3'']
       = [''backlog'', ''S1'', ''S2'']"
proof -
  have a: "sortSprintTrail [''S3'', ''S1'', ''S2'', ''S3''] [''S1'', ''S2'', ''S3'']
             = [''S1'', ''S2'', ''S3'']"
    by (simp add: sortSprintTrail_def sprintIndex_def)
  have b: "sortSprintTrail [''S2'', ''backlog'', ''S1'', ''S2''] [''S1'', ''S2'', ''S3'']
             = [''backlog'', ''S1'', ''S2'']"
    by (simp add: sortSprintTrail_def sprintIndex_def)
  from sortSprintTrail_idempotent_distinct_sorted
         [of "[''S3'', ''S1'', ''S2'', ''S3'']" "[''S1'', ''S2'', ''S3'']" "''S1''"]
  have "sortSprintTrail (sortSprintTrail [''S3'', ''S1'', ''S2'', ''S3''] [''S1'', ''S2'', ''S3''])
          [''S1'', ''S2'', ''S3''] = sortSprintTrail [''S3'', ''S1'', ''S2'', ''S3''] [''S1'', ''S2'', ''S3'']"
    by blast
  with a b show ?thesis by simp
qed

section \<open>Properties of the planner store\<close>

subsection \<open>What each operation does to the data fields\<close>

lemma commit_data [simp]:
  "sprints (commit p s) = sprints s" "developers (commit p s) = developers s"
  "features (commit p s) = features s" "tickets (commit p s) = tickets s"
  "currentSprint (commit p s) = currentSprint s" "ticketBaseUrl (commit p s) = ticketBaseUrl s"
  "keyboardMove (commit p s) = keyboardMove s" "liveAnnouncement (commit p s) = liveAnnouncement s"
  "notices (commit p s) = notices s" "showDependencies (commit p s) = showDependencies s"
  by (simp_all add: commit_def persistPlannerState_def)

lemma tickets_moveTicketTo:
  "tickets (moveTicketTo c tid to dev mode s) =
     map (\<lambda>t. if ticket_id t = tid
               then t\<lparr>sprintIds := (if mode = Move \<or> to = BACKLOG_COLUMN_ID c then [to]
                                     else sortSprintTrail (sprintIds t @ [to]) (orderedSprints s)),
                      developerId := dev\<rparr>
               else t) (tickets s)"
proof -
  have ne: "sortSprintTrail (xs @ [to]) ord \<noteq> []" for xs ord
    using sortSprintTrail_set [of "xs @ [to]" ord] by auto
  have m: "mode \<noteq> Move \<longleftrightarrow> mode = Extend" by (cases mode) auto
  show ?thesis
    unfolding moveTicketTo_def Let_def
    by (auto simp: ne m intro!: map_cong)
qed

lemma tickets_deleteTicket:
  "tickets (deleteTicket X s) =
     map (\<lambda>t. t\<lparr>dependencies := filter (\<lambda>d. d \<noteq> X) (dependencies t)\<rparr>)
       (filter (\<lambda>t. ticket_id t \<noteq> X) (tickets s))"
  by (simp add: deleteTicket_def Let_def)

lemma tickets_removeFeature:
  "tickets (removeFeature F s) = filter (\<lambda>t. featureId t \<noteq> F) (tickets s)"
  "features (removeFeature F s) = filter (\<lambda>f. feature_id f \<noteq> F) (features s)"
  by (simp_all add: removeFeature_def Let_def)

lemma sortSprintTrail_empty_iff: "sortSprintTrail xs ord = [] \<longleftrightarrow> xs = []"
  using sortSprintTrail_set [of xs ord] by (metis set_empty)

lemma announce_data [simp]:
  "sprints (announce m n s) = sprints s" "developers (announce m n s) = developers s"
  "features (announce m n s) = features s" "tickets (announce m n s) = tickets s"
  "storage (announce m n s) = storage s" "keyboardMove (announce m n s) = keyboardMove s"
  by (simp_all add: announce_def)

lemma tickets_addTicket:
  "tickets (addTicket c partial newId now s) =
     tickets s @
       [\<lparr>ticket_id = newId, key = n_key partial, ticket_name = n_name partial,
         storyPoints = n_storyPoints partial,
         developerId = orElse (n_developerId partial) (UNASSIGNED_DEVELOPER_ID c),
         featureId = n_featureId partial,
         sprintIds = (if orElse (n_sprintIds partial) [] = [] then [BACKLOG_COLUMN_ID c]
                      else sortSprintTrail (orElse (n_sprintIds partial) []) (orderedSprints s)),
         dependencies = orElse (n_dependencies partial) [],
         createdAt = now,
         jiraUrl = trimmedOrNone (n_jiraUrl partial)\<rparr>]"
  by (simp add: addTicket_def Let_def sortSprintTrail_empty_iff)

lemma tickets_updateTicket:
  "tickets (updateTicket c tid patch s) =
     map (\<lambda>t. if ticket_id t \<noteq> tid then t else updateOne c (orderedSprints s) patch t) (tickets s)"
  by (simp add: updateTicket_def Let_def)

lemma updateOne_fields:
  "sprintIds (updateOne c ord patch t) \<noteq> []"
  "ticket_id (updateOne c ord patch t) = orElse (tp_id patch) (ticket_id t)"
  "dependencies (updateOne c ord patch t) = orElse (tp_dependencies patch) (dependencies t)"
  by (simp_all add: updateOne_def Let_def)

lemma tickets_normalizeState_fields:
  "map ticket_id (tickets (normalizeState c d)) = map ticket_id (tickets d)"
  "list_all (\<lambda>t. sprintIds t \<noteq> []) (tickets (normalizeState c d))"
  "map dependencies (tickets (normalizeState c d)) =
     map (\<lambda>t. filter (\<lambda>x. x \<in> set (map ticket_id (tickets d)))
                (filter (\<lambda>x. x \<noteq> ticket_id t) (dependencies t))) (tickets d)"
  by (simp_all add: normalizeState_def Let_def o_def list_all_iff)

lemma tickets_moveTicket:
  "tickets (moveTicket c tid to mode s) =
     (case find (\<lambda>t. ticket_id t = tid) (tickets s) of
        None \<Rightarrow> tickets s
      | Some t \<Rightarrow> tickets (moveTicketTo c tid to (developerId t) mode s))"
  by (simp add: moveTicket_def split: option.splits)

lemma trails_moveTicketTo:
  "trailsNonEmpty (tickets s) \<Longrightarrow> trailsNonEmpty (tickets (moveTicketTo c tid to dev mode s))"
  by (auto simp: trailsNonEmpty_def tickets_moveTicketTo list_all_iff sortSprintTrail_empty_iff
        split: if_splits)

lemma trails_updateTicket:
  "trailsNonEmpty (tickets s) \<Longrightarrow> trailsNonEmpty (tickets (updateTicket c tid patch s))"
  by (auto simp: trailsNonEmpty_def tickets_updateTicket list_all_iff updateOne_fields)

lemma trails_commitKeyboardMove:
  "trailsNonEmpty (tickets s) \<Longrightarrow> trailsNonEmpty (tickets (commitKeyboardMove c mode now s))"
  using trails_moveTicketTo
  by (auto simp: commitKeyboardMove_def Let_def split: option.splits)

lemma trails_beginKeyboardMove:
  "trailsNonEmpty (tickets s) \<Longrightarrow>
     \<exists>s'. beginKeyboardMove tid s = Inr s' \<and> tickets s' = tickets s"
proof -
  assume inv: "trailsNonEmpty (tickets s)"
  show ?thesis
  proof (cases "find (\<lambda>t. ticket_id t = tid) (tickets s)")
    case None
    then show ?thesis by (simp add: beginKeyboardMove_def)
  next
    case (Some t)
    then have "t \<in> set (tickets s)"
      by (auto simp: find_Some_iff)
    with inv have "sprintIds t \<noteq> []"
      by (simp add: trailsNonEmpty_def list_all_iff)
    with Some show ?thesis
      by (simp add: beginKeyboardMove_def currentSprintId_def)
  qed
qed


subsection \<open>The sprint order, trails after an update, and the check after a move\<close>

lemma orderedSprints_sort_key:
  "orderedSprints s = map sprint_id (sort_key sprint_order (sprints s))"
  by (simp add: orderedSprints_def sort_cmp_key)

lemma orderedSprints_set: "set (orderedSprints s) = sprint_id ` set (sprints s)"
  by (simp add: orderedSprints_sort_key)

lemma orderedSprints_index_order:
  assumes d: "distinct (map sprint_id (sprints s))"
    and p: "p \<in> set (sprints s)" and q: "q \<in> set (sprints s)"
    and le: "sprintIndex (sprint_id p) (orderedSprints s) \<le> sprintIndex (sprint_id q) (orderedSprints s)"
  shows "sprint_order p \<le> sprint_order q"
proof -
  define xs where "xs = sort_key sprint_order (sprints s)"
  define ids where "ids = map sprint_id xs"
  have ord: "orderedSprints s = ids"
    unfolding ids_def xs_def by (rule orderedSprints_sort_key)
  have setxs: "set xs = set (sprints s)"
    unfolding xs_def by simp
  from d have inj: "inj_on sprint_id (set xs)"
    unfolding setxs by (simp add: distinct_map)
  have srt: "sorted (map sprint_order xs)"
    unfolding xs_def by simp
  have pos: "\<exists>k < length xs. xs ! k = r \<and> sprintIndex (sprint_id r) ids = int k"
    if r: "r \<in> set (sprints s)" for r
  proof -
    from r setxs have rx: "r \<in> set xs" by simp
    then have mem: "sprint_id r \<in> set ids"
      unfolding ids_def by simp
    from indexOf_first [OF mem]
    have k0: "0 \<le> indexOf ids (sprint_id r)"
      and k1: "nat (indexOf ids (sprint_id r)) < length ids"
      and k2: "ids ! nat (indexOf ids (sprint_id r)) = sprint_id r"
      by simp_all
    define k where "k = nat (indexOf ids (sprint_id r))"
    from k1 have kl: "k < length xs"
      unfolding k_def ids_def by simp
    from k2 kl have "sprint_id (xs ! k) = sprint_id r"
      unfolding k_def ids_def by simp
    moreover from kl have "xs ! k \<in> set xs" by simp
    ultimately have "xs ! k = r"
      using inj rx by (simp add: inj_on_eq_iff)
    moreover from k0 have "sprintIndex (sprint_id r) ids = int k"
      unfolding k_def sprintIndex_def by simp
    ultimately show ?thesis using kl by blast
  qed
  from pos [OF p] obtain kp where kp: "kp < length xs" "xs ! kp = p"
    "sprintIndex (sprint_id p) ids = int kp" by blast
  from pos [OF q] obtain kq where kq: "kq < length xs" "xs ! kq = q"
    "sprintIndex (sprint_id q) ids = int kq" by blast
  from le kp(3) kq(3) have "kp \<le> kq"
    unfolding ord by simp
  with srt kq(1) have "map sprint_order xs ! kp \<le> map sprint_order xs ! kq"
    by (simp add: sorted_iff_nth_mono)
  with kp kq show ?thesis by simp
qed

lemma sortSprintTrail_single: "sortSprintTrail [x] ord = [x]"
  by (simp add: sortSprintTrail_def)

lemma trail_updateTicket:
  assumes k: "k < length (tickets s)" and t: "ticket_id (tickets s ! k) = tid"
  shows "sprintIds (tickets (updateTicket c tid patch s) ! k) =
          (case tp_sprintIds patch of
             None \<Rightarrow> (if sprintIds (tickets s ! k) = [] then [BACKLOG_COLUMN_ID c]
                       else sprintIds (tickets s ! k))
           | Some p \<Rightarrow> (if p = [] then [BACKLOG_COLUMN_ID c]
                        else sortSprintTrail p (orderedSprints s)))"
  using assms
  by (simp add: tickets_updateTicket updateOne_def Let_def sortSprintTrail_empty_iff
        split: option.splits)

lemma trail_setSprintTrail:
  assumes k: "k < length (tickets s)" and t: "ticket_id (tickets s ! k) = tid"
  shows "sprintIds (tickets (setSprintTrail c tid sids s) ! k) =
          (if sids = [] then [BACKLOG_COLUMN_ID c] else sortSprintTrail sids (orderedSprints s))"
  unfolding setSprintTrail_def Let_def
  using trail_updateTicket [OF k t]
  by (simp add: sortSprintTrail_empty_iff sortSprintTrail_single sortSprintTrail_idem
        noTicketPatch_def)

lemma trail_normalizeState:
  assumes k: "k < length (tickets d)"
  shows "sprintIds (tickets (normalizeState c d) ! k) =
          (if filter (\<lambda>x. x \<in> set (map sprint_id (ensureSprintSlots c (sprints d))
                                   @ [BACKLOG_COLUMN_ID c])) (sprintIds (tickets d ! k)) = []
           then [BACKLOG_COLUMN_ID c]
           else sortSprintTrail
                  (filter (\<lambda>x. x \<in> set (map sprint_id (ensureSprintSlots c (sprints d))
                                   @ [BACKLOG_COLUMN_ID c])) (sprintIds (tickets d ! k)))
                  (map sprint_id (ensureSprintSlots c (sprints d))))"
  using k
  by (simp add: normalizeState_def Let_def sortSprintTrail_empty_iff)

lemma tickets_replaceState: "tickets (replaceState c d s) = tickets (normalizeState c d)"
  by (simp add: replaceState_def Let_def setData_def)

lemma begin_under_invariant:
  assumes inv: "trailsNonEmpty (tickets s)"
    and f: "find (\<lambda>t. ticket_id t = tid) (tickets s) = Some t"
  shows "beginKeyboardMove tid s =
           Inr (s\<lparr>keyboardMove := Some \<lparr>km_ticketId = tid, targetDeveloperId = developerId t,
                                         targetSprintId = last (sprintIds t)\<rparr>\<rparr>)"
proof -
  from f have "t \<in> set (tickets s)"
    by (auto simp: find_Some_iff)
  with inv have "sprintIds t \<noteq> []"
    by (simp add: trailsNonEmpty_def list_all_iff)
  with f show ?thesis
    by (simp add: beginKeyboardMove_def currentSprintId_def)
qed








subsection \<open>Preservation of valid dependencies\<close>

lemma depsValid_iff:
  "depsValid ts \<longleftrightarrow>
     (\<forall>t \<in> set ts. \<forall>d \<in> set (dependencies t). d \<noteq> ticket_id t \<and> d \<in> ticket_id ` set ts)"
  by (simp add: depsValid_def list_all_iff)

lemma depsValid_map:
  assumes v: "depsValid ts"
    and i: "\<And>t. t \<in> set ts \<Longrightarrow> ticket_id (f t) = ticket_id t"
    and d: "\<And>t. t \<in> set ts \<Longrightarrow> set (dependencies (f t)) \<subseteq> set (dependencies t)"
  shows "depsValid (map f ts)"
proof -
  have ids: "ticket_id ` set (map f ts) = ticket_id ` set ts"
  proof -
    have "map ticket_id (map f ts) = map ticket_id ts"
      using i by (simp add: map_idI)
    then have "set (map ticket_id (map f ts)) = set (map ticket_id ts)"
      by simp
    then show ?thesis by (simp only: set_map)
  qed
  show ?thesis
    unfolding depsValid_iff ids
  proof (intro ballI)
    fix t' x assume t': "t' \<in> set (map f ts)" and x: "x \<in> set (dependencies t')"
    from t' obtain t where t: "t \<in> set ts" and e: "t' = f t" by auto
    from x e d [OF t] have "x \<in> set (dependencies t)" by auto
    with v t have "x \<noteq> ticket_id t \<and> x \<in> ticket_id ` set ts"
      by (simp add: depsValid_iff)
    with e i [OF t] show "x \<noteq> ticket_id t' \<and> x \<in> ticket_id ` set ts" by simp
  qed
qed

lemma set_deps_normalizeState:
  assumes "t' \<in> set (tickets (normalizeState c d))"
  shows "\<exists>t \<in> set (tickets d). ticket_id t' = ticket_id t
           \<and> dependencies t' = filter (\<lambda>x. x \<in> set (map ticket_id (tickets d)))
                                  (filter (\<lambda>x. x \<noteq> ticket_id t) (dependencies t))"
proof -
  from assms obtain k where k: "k < length (tickets (normalizeState c d))"
      and e: "t' = tickets (normalizeState c d) ! k"
    by (auto simp: in_set_conv_nth)
  have len: "length (tickets (normalizeState c d)) = length (tickets d)"
    using tickets_normalizeState_fields(1) [of c d] by (metis length_map)
  have a: "ticket_id t' = ticket_id (tickets d ! k)"
    using tickets_normalizeState_fields(1) [of c d] k e len by (metis nth_map)
  have b: "dependencies t' = filter (\<lambda>x. x \<in> set (map ticket_id (tickets d)))
                                  (filter (\<lambda>x. x \<noteq> ticket_id (tickets d ! k)) (dependencies (tickets d ! k)))"
  proof -
    have "dependencies t' = map dependencies (tickets (normalizeState c d)) ! k"
      using k e by simp
    also have "\<dots> = map (\<lambda>t. filter (\<lambda>x. x \<in> set (map ticket_id (tickets d)))
                (filter (\<lambda>x. x \<noteq> ticket_id t) (dependencies t))) (tickets d) ! k"
      by (simp only: tickets_normalizeState_fields(3))
    also have "\<dots> = filter (\<lambda>x. x \<in> set (map ticket_id (tickets d)))
                (filter (\<lambda>x. x \<noteq> ticket_id (tickets d ! k)) (dependencies (tickets d ! k)))"
      using k len by simp
    finally show ?thesis .
  qed
  from k len have "tickets d ! k \<in> set (tickets d)" by simp
  with a b show ?thesis by blast
qed

lemma depsValid_normalizeState: "depsValid (tickets (normalizeState c d))"
proof -
  let ?ts = "tickets (normalizeState c d)"
  have ids: "ticket_id ` set ?ts = ticket_id ` set (tickets d)"
    using tickets_normalizeState_fields(1) [of c d] by (metis set_map)
  show ?thesis
    unfolding depsValid_iff ids
  proof (intro ballI)
    fix t' x assume t': "t' \<in> set ?ts" and x: "x \<in> set (dependencies t')"
    from set_deps_normalizeState [OF t'] obtain t where "t \<in> set (tickets d)"
      and "ticket_id t' = ticket_id t"
      and "dependencies t' = filter (\<lambda>x. x \<in> set (map ticket_id (tickets d)))
                                  (filter (\<lambda>x. x \<noteq> ticket_id t) (dependencies t))"
      by blast
    with x show "x \<noteq> ticket_id t' \<and> x \<in> ticket_id ` set (tickets d)" by auto
  qed
qed

lemma depsValid_moveTicketTo:
  "depsValid (tickets s) \<Longrightarrow> depsValid (tickets (moveTicketTo c tid to dev mode s))"
  unfolding tickets_moveTicketTo by (rule depsValid_map) simp_all

lemma depsValid_moveTicket:
  "depsValid (tickets s) \<Longrightarrow> depsValid (tickets (moveTicket c tid to mode s))"
  by (simp add: tickets_moveTicket depsValid_moveTicketTo split: option.splits)

lemma depsValid_deleteTicket:
  assumes v: "depsValid (tickets s)"
  shows "depsValid (tickets (deleteTicket X s))"
  unfolding depsValid_iff
proof (intro ballI)
  fix t' x assume t': "t' \<in> set (tickets (deleteTicket X s))" and x: "x \<in> set (dependencies t')"
  from t' obtain t where t: "t \<in> set (tickets s)" and nx: "ticket_id t \<noteq> X"
    and e: "t' = t\<lparr>dependencies := filter (\<lambda>d. d \<noteq> X) (dependencies t)\<rparr>"
    by (auto simp: tickets_deleteTicket)
  from x e have xd: "x \<in> set (dependencies t)" and xX: "x \<noteq> X" by auto
  from v t xd have ok: "x \<noteq> ticket_id t" and "x \<in> ticket_id ` set (tickets s)"
    by (auto simp: depsValid_iff)
  then obtain u where u: "u \<in> set (tickets s)" and ux: "ticket_id u = x" by auto
  from u ux xX have "u\<lparr>dependencies := filter (\<lambda>d. d \<noteq> X) (dependencies u)\<rparr>
      \<in> set (tickets (deleteTicket X s))"
    by (auto simp: tickets_deleteTicket)
  then have "ticket_id (u\<lparr>dependencies := filter (\<lambda>d. d \<noteq> X) (dependencies u)\<rparr>)
      \<in> ticket_id ` set (tickets (deleteTicket X s))"
    by (rule imageI)
  then have "x \<in> ticket_id ` set (tickets (deleteTicket X s))"
    using ux by simp
  with ok e show "x \<noteq> ticket_id t' \<and> x \<in> ticket_id ` set (tickets (deleteTicket X s))"
    by simp
qed

lemma depsValid_addTicket:
  assumes v: "depsValid (tickets s)"
    and n: "list_all (\<lambda>d. d \<noteq> newId \<and> d \<in> set (map ticket_id (tickets s)))
           (orElse (n_dependencies partial) [])"
  shows "depsValid (tickets (addTicket c partial newId now s))"
  unfolding depsValid_iff
proof (intro ballI)
  fix t' x assume t': "t' \<in> set (tickets (addTicket c partial newId now s))"
    and x: "x \<in> set (dependencies t')"
  have sub: "ticket_id ` set (tickets s) \<subseteq> ticket_id ` set (tickets (addTicket c partial newId now s))"
    by (auto simp: tickets_addTicket)
  from t' have "t' \<in> set (tickets s)
      \<or> (ticket_id t' = newId \<and> dependencies t' = orElse (n_dependencies partial) [])"
    by (auto simp: tickets_addTicket)
  then have "x \<noteq> ticket_id t' \<and> x \<in> ticket_id ` set (tickets s)"
  proof
    assume "t' \<in> set (tickets s)"
    with v x show ?thesis by (auto simp: depsValid_iff)
  next
    assume "ticket_id t' = newId \<and> dependencies t' = orElse (n_dependencies partial) []"
    with n x show ?thesis by (auto simp: list_all_iff)
  qed
  with sub show "x \<noteq> ticket_id t' \<and> x \<in> ticket_id ` set (tickets (addTicket c partial newId now s))"
    by blast
qed

lemma depsValid_updateTicket:
  assumes v: "depsValid (tickets s)" and noid: "tp_id patch = None"
    and n: "list_all (\<lambda>d. d \<noteq> tid \<and> d \<in> set (map ticket_id (tickets s)))
           (orElse (tp_dependencies patch) [])"
  shows "depsValid (tickets (updateTicket c tid patch s))"
proof -
  let ?f = "\<lambda>t. if ticket_id t \<noteq> tid then t else updateOne c (orderedSprints s) patch t"
  have idf: "ticket_id (?f t) = ticket_id t" for t
    using noid by (simp add: updateOne_fields orElse_def)
  have "map ticket_id (map ?f (tickets s)) = map ticket_id (tickets s)"
    using idf by (simp add: map_idI)
  then have "set (map ticket_id (map ?f (tickets s))) = set (map ticket_id (tickets s))"
    by simp
  then have ids: "ticket_id ` set (map ?f (tickets s)) = ticket_id ` set (tickets s)"
    by (simp only: set_map)
  show ?thesis
    unfolding depsValid_iff tickets_updateTicket ids
  proof (intro ballI)
    fix t' x assume t': "t' \<in> set (map ?f (tickets s))" and x: "x \<in> set (dependencies t')"
    from t' obtain t where t: "t \<in> set (tickets s)" and e: "t' = ?f t" by auto
    have "x \<noteq> ticket_id t \<and> x \<in> ticket_id ` set (tickets s)"
    proof (cases "ticket_id t \<noteq> tid")
      case True
      with e x have "x \<in> set (dependencies t)" by simp
      with v t show ?thesis by (auto simp: depsValid_iff)
    next
      case False
      with e x have xd: "x \<in> set (orElse (tp_dependencies patch) (dependencies t))"
        by (simp add: updateOne_fields)
      show ?thesis
      proof (cases "tp_dependencies patch")
        case None
        with xd have "x \<in> set (dependencies t)" by (simp add: orElse_def)
        with v t show ?thesis by (auto simp: depsValid_iff)
      next
        case (Some ds)
        with xd n False show ?thesis by (auto simp: orElse_def list_all_iff)
      qed
    qed
    with e idf [of t] show "x \<noteq> ticket_id t' \<and> x \<in> ticket_id ` set (tickets s)"
      by simp
  qed
qed

lemma depsValid_commitKeyboardMove:
  "depsValid (tickets s) \<Longrightarrow> depsValid (tickets (commitKeyboardMove c mode now s))"
  using depsValid_moveTicketTo
  by (auto simp: commitKeyboardMove_def Let_def split: option.splits)

subsection \<open>The example planner, evaluated\<close>

lemma exStore_fields:
  "sprints exStore = exSprints"
  "tickets exStore = [exTicket ''A'' ''F1'' [''S2''] [], exTicket ''B'' ''F1'' [''S3''] [''A''],
                      exTicket ''C'' ''F2'' [''S1''] []]"
  "storage exStore = None" "keyboardMove exStore = None"
  by (simp_all add: exStore_def)

lemma ex_ordered: "orderedSprints exStore = [''S1'', ''S2'', ''S3'']"
  by (simp add: orderedSprints_def exStore_fields exSprints_def)




lemma ex_depsValid: "depsValid (tickets exStore)"
  by (simp add: depsValid_def exStore_fields exTicket_def)








subsection \<open>Claims about the dependency check\<close>

text \<open>
  C2. When the target is the Backlog sentinel, \<open>isMoveBlockedByDeps\<close> answers
  \<open>{blocked: false, blockers: []}\<close>. Otherwise \<open>blockers\<close> is the sublist (order and
  repetitions kept) of the ticket's dependency ids that the lookup resolves to a ticket
  whose current sprint, the last id of its trail, has a strictly greater index in the
  ordered list than the target, an id that is not in the list having index \<open>-1\<close>; an
  id the lookup does not resolve never appears; and \<open>blocked\<close> holds exactly when
  \<open>blockers\<close> is not empty.
\<close>

theorem isMoveBlockedByDeps_blockers:
  "(target = BACKLOG_COLUMN_ID c \<longrightarrow>
      isMoveBlockedByDeps c t target getTicket orderedIds = \<lparr>blocked = False, blockers = []\<rparr>)
   \<and> (target \<noteq> BACKLOG_COLUMN_ID c \<longrightarrow>
      blockers (isMoveBlockedByDeps c t target getTicket orderedIds)
        = filter (\<lambda>d. \<exists>dep. getTicket d = Some dep \<and> sprintIds dep \<noteq> []
                          \<and> indexOf orderedIds target < indexOf orderedIds (last (sprintIds dep)))
            (dependencies t))
   \<and> (blocked (isMoveBlockedByDeps c t target getTicket orderedIds)
        \<longleftrightarrow> blockers (isMoveBlockedByDeps c t target getTicket orderedIds) \<noteq> [])
   \<and> (getTicket d = None \<longrightarrow>
        d \<notin> set (blockers (isMoveBlockedByDeps c t target getTicket orderedIds)))"
proof -
  have lo: "\<not> indexOf orderedIds target < - 1"
    using indexOf_ge [of orderedIds target] by simp
  have p: "(case getTicket d of None \<Rightarrow> False
            | Some dep \<Rightarrow> sprintIndex target orderedIds < sprintIndexOpt (currentSprintId dep) orderedIds)
           = (\<exists>dep. getTicket d = Some dep \<and> sprintIds dep \<noteq> []
                 \<and> indexOf orderedIds target < indexOf orderedIds (last (sprintIds dep)))" for d
    using lo by (cases "getTicket d")
      (auto simp: sprintIndex_def sprintIndexOpt_def currentSprintId_def)
  show ?thesis
    unfolding isMoveBlockedByDeps_def Let_def p
    by (auto split: if_splits)
qed

theorem isMoveBlockedByDeps_blockers_witness:
  "isMoveBlockedByDeps exConstants (exTicket ''B'' ''F1'' [''S1''] [''ghost'', ''A'', ''C''])
       ''backlog''
       (\<lambda>i. if i = ''A'' then Some (exTicket ''A'' ''F1'' [''S1'', ''S3''] [])
             else if i = ''C'' then Some (exTicket ''C'' ''F2'' [''S1''] []) else None)
       [''S1'', ''S2'', ''S3'']
     = \<lparr>blocked = False, blockers = []\<rparr>
   \<and> blockers (isMoveBlockedByDeps exConstants (exTicket ''B'' ''F1'' [''S1''] [''ghost'', ''A'', ''C''])
       ''S1''
       (\<lambda>i. if i = ''A'' then Some (exTicket ''A'' ''F1'' [''S1'', ''S3''] [])
             else if i = ''C'' then Some (exTicket ''C'' ''F2'' [''S1''] []) else None)
       [''S1'', ''S2'', ''S3''])
     = [''A'']
   \<and> blocked (isMoveBlockedByDeps exConstants (exTicket ''B'' ''F1'' [''S1''] [''ghost'', ''A'', ''C''])
       ''S1''
       (\<lambda>i. if i = ''A'' then Some (exTicket ''A'' ''F1'' [''S1'', ''S3''] [])
             else if i = ''C'' then Some (exTicket ''C'' ''F2'' [''S1''] []) else None)
       [''S1'', ''S2'', ''S3''])"
proof -
  let ?t = "exTicket ''B'' ''F1'' [''S1''] [''ghost'', ''A'', ''C'']"
  let ?g = "\<lambda>i. if i = ''A'' then Some (exTicket ''A'' ''F1'' [''S1'', ''S3''] [])
             else if i = ''C'' then Some (exTicket ''C'' ''F2'' [''S1''] []) else None"
  let ?o = "[''S1'', ''S2'', ''S3'']"
  have b: "''backlog'' = BACKLOG_COLUMN_ID exConstants" and nb: "''S1'' \<noteq> BACKLOG_COLUMN_ID exConstants"
    by (simp_all add: exConstants_def)
  from isMoveBlockedByDeps_blockers [of "''backlog''" exConstants ?t ?g ?o] b
  have 1: "isMoveBlockedByDeps exConstants ?t ''backlog'' ?g ?o = \<lparr>blocked = False, blockers = []\<rparr>"
    by blast
  from isMoveBlockedByDeps_blockers [of "''S1''" exConstants ?t ?g ?o] nb
  have 2: "blockers (isMoveBlockedByDeps exConstants ?t ''S1'' ?g ?o)
        = filter (\<lambda>d. \<exists>dep. ?g d = Some dep \<and> sprintIds dep \<noteq> []
                          \<and> indexOf ?o ''S1'' < indexOf ?o (last (sprintIds dep)))
            (dependencies ?t)"
    and 3: "blocked (isMoveBlockedByDeps exConstants ?t ''S1'' ?g ?o)
        \<longleftrightarrow> blockers (isMoveBlockedByDeps exConstants ?t ''S1'' ?g ?o) \<noteq> []"
    by blast+
  have 4: "filter (\<lambda>d. \<exists>dep. ?g d = Some dep \<and> sprintIds dep \<noteq> []
                          \<and> indexOf ?o ''S1'' < indexOf ?o (last (sprintIds dep)))
            (dependencies ?t) = [''A'']"
    by (simp add: exTicket_def)
  from 1 2 3 4 show ?thesis by simp
qed

subsection \<open>Claims about single store operations\<close>

text \<open>
  C4. For a ticket of the store with the id given to \<open>moveTicketTo\<close> (at any position
  \<open>i\<close> of the collection): with mode \<open>move\<close>, or with the Backlog sentinel as target
  whatever the mode, its trail becomes the one-element trail of the target; with mode
  \<open>extend\<close> and another target its trail becomes \<open>sortSprintTrail\<close> of the old trail
  with the target appended, that is the first-occurrence dedupe, stably sorted by the
  position of each id in the list of sprint ids ordered by the sprints' \<open>order\<close> field.
  So the new trail has no duplicates and holds the old ids and the target; the ids that
  name no sprint (such as the Backlog sentinel) come first; and, the sprint ids of the store
  being distinct, whenever the id of a sprint \<open>p\<close> stands before the id of a sprint \<open>q\<close>
  in the new trail, the order of \<open>p\<close> is at most that of \<open>q\<close>. The ticket's developer
  becomes the given one.
\<close>

theorem moveTicketTo_trail:
  assumes "i < length (tickets s)" and "ticket_id (tickets s ! i) = tid"
  shows "length (tickets (moveTicketTo c tid to dev mode s)) = length (tickets s)
   \<and> (mode = Move \<or> to = BACKLOG_COLUMN_ID c \<longrightarrow>
        sprintIds (tickets (moveTicketTo c tid to dev mode s) ! i) = [to])
   \<and> (mode = Extend \<and> to \<noteq> BACKLOG_COLUMN_ID c \<longrightarrow>
        sprintIds (tickets (moveTicketTo c tid to dev mode s) ! i)
          = sortSprintTrail (sprintIds (tickets s ! i) @ [to]) (orderedSprints s)
        \<and> sprintIds (tickets (moveTicketTo c tid to dev mode s) ! i)
          = sort_key (\<lambda>x. sprintIndex x (orderedSprints s))
              (rev (remdups (rev (sprintIds (tickets s ! i) @ [to]))))
        \<and> distinct (sprintIds (tickets (moveTicketTo c tid to dev mode s) ! i))
        \<and> set (sprintIds (tickets (moveTicketTo c tid to dev mode s) ! i))
            = set (sprintIds (tickets s ! i)) \<union> {to}
        \<and> (\<forall>m n. m < n \<and> n < length (sprintIds (tickets (moveTicketTo c tid to dev mode s) ! i))
               \<and> sprintIds (tickets (moveTicketTo c tid to dev mode s) ! i) ! n
                    \<notin> sprint_id ` set (sprints s)
             \<longrightarrow> sprintIds (tickets (moveTicketTo c tid to dev mode s) ! i) ! m
                    \<notin> sprint_id ` set (sprints s))
        \<and> (distinct (map sprint_id (sprints s)) \<longrightarrow>
             (\<forall>p \<in> set (sprints s). \<forall>q \<in> set (sprints s). \<forall>m n.
                m < n \<and> n < length (sprintIds (tickets (moveTicketTo c tid to dev mode s) ! i))
                \<and> sprintIds (tickets (moveTicketTo c tid to dev mode s) ! i) ! m = sprint_id p
                \<and> sprintIds (tickets (moveTicketTo c tid to dev mode s) ! i) ! n = sprint_id q
                \<longrightarrow> sprint_order p \<le> sprint_order q)))
   \<and> orderedSprints s = map sprint_id (sort_key sprint_order (sprints s))
   \<and> developerId (tickets (moveTicketTo c tid to dev mode s) ! i) = dev"
proof -
  define T where "T = sprintIds (tickets (moveTicketTo c tid to dev mode s) ! i)"
  define old where "old = sprintIds (tickets s ! i)"
  have m: "mode \<noteq> Move \<longleftrightarrow> mode = Extend" by (cases mode) auto
  have len: "length (tickets (moveTicketTo c tid to dev mode s)) = length (tickets s)"
    by (simp add: tickets_moveTicketTo)
  have mv: "mode = Move \<or> to = BACKLOG_COLUMN_ID c \<Longrightarrow> T = [to]"
    unfolding T_def using assms by (auto simp: tickets_moveTicketTo)
  have dev: "developerId (tickets (moveTicketTo c tid to dev mode s) ! i) = dev"
    using assms by (simp add: tickets_moveTicketTo)
  have ext: "T = sortSprintTrail (old @ [to]) (orderedSprints s)"
    if "mode = Extend \<and> to \<noteq> BACKLOG_COLUMN_ID c"
    unfolding T_def old_def using assms that by (simp add: tickets_moveTicketTo)
  have key: "sortSprintTrail (old @ [to]) (orderedSprints s)
          = sort_key (\<lambda>x. sprintIndex x (orderedSprints s)) (rev (remdups (rev (old @ [to]))))"
    by (simp only: sortSprintTrail_sort_key dedupe_first_occurrence)
  have dis: "distinct (sortSprintTrail (old @ [to]) (orderedSprints s))"
    by (rule sortSprintTrail_distinct)
  have st: "set (sortSprintTrail (old @ [to]) (orderedSprints s)) = set old \<union> {to}"
    by (simp add: sortSprintTrail_set)
  have srt: "sorted (map (\<lambda>x. sprintIndex x (orderedSprints s))
               (sortSprintTrail (old @ [to]) (orderedSprints s)))"
    by (rule sortSprintTrail_sorted)
  have mono: "sprintIndex (T ! a) (orderedSprints s) \<le> sprintIndex (T ! b) (orderedSprints s)"
    if e: "mode = Extend \<and> to \<noteq> BACKLOG_COLUMN_ID c" and ab: "a < b" "b < length T" for a b
  proof -
    from srt ext [OF e] have "sorted (map (\<lambda>x. sprintIndex x (orderedSprints s)) T)" by simp
    then have "map (\<lambda>x. sprintIndex x (orderedSprints s)) T ! a
                 \<le> map (\<lambda>x. sprintIndex x (orderedSprints s)) T ! b"
      using ab by (simp add: sorted_iff_nth_mono)
    with ab show ?thesis by simp
  qed
  have notin: "T ! a \<notin> sprint_id ` set (sprints s)"
    if e: "mode = Extend \<and> to \<noteq> BACKLOG_COLUMN_ID c" and ab: "a < b" "b < length T"
      and nb: "T ! b \<notin> sprint_id ` set (sprints s)" for a b
  proof -
    from nb have "sprintIndex (T ! b) (orderedSprints s) = - 1"
      by (simp add: sprintIndex_def indexOf_notin orderedSprints_set)
    with mono [OF e ab] indexOf_ge [of "orderedSprints s" "T ! a"]
    have "indexOf (orderedSprints s) (T ! a) = - 1"
      by (simp add: sprintIndex_def)
    then show ?thesis
      by (simp add: indexOf_notin orderedSprints_set)
  qed
  have byorder: "sprint_order p \<le> sprint_order q"
    if e: "mode = Extend \<and> to \<noteq> BACKLOG_COLUMN_ID c"
      and d: "distinct (map sprint_id (sprints s))"
      and p: "p \<in> set (sprints s)" and q: "q \<in> set (sprints s)"
      and ab: "a < b" "b < length T" and ta: "T ! a = sprint_id p" and tb: "T ! b = sprint_id q"
    for p q a b
    using orderedSprints_index_order [OF d p q] mono [OF e ab] ta tb by simp
  have E: "mode = Extend \<and> to \<noteq> BACKLOG_COLUMN_ID c \<longrightarrow>
        T = sortSprintTrail (old @ [to]) (orderedSprints s)
        \<and> T = sort_key (\<lambda>x. sprintIndex x (orderedSprints s)) (rev (remdups (rev (old @ [to]))))
        \<and> distinct T
        \<and> set T = set old \<union> {to}
        \<and> (\<forall>m n. m < n \<and> n < length T \<and> T ! n \<notin> sprint_id ` set (sprints s)
             \<longrightarrow> T ! m \<notin> sprint_id ` set (sprints s))
        \<and> (distinct (map sprint_id (sprints s)) \<longrightarrow>
             (\<forall>p \<in> set (sprints s). \<forall>q \<in> set (sprints s). \<forall>m n.
                m < n \<and> n < length T \<and> T ! m = sprint_id p \<and> T ! n = sprint_id q
                \<longrightarrow> sprint_order p \<le> sprint_order q))"
  proof (intro impI conjI ballI allI)
    assume e: "mode = Extend \<and> to \<noteq> BACKLOG_COLUMN_ID c"
    show "T = sortSprintTrail (old @ [to]) (orderedSprints s)" by (rule ext [OF e])
    show "T = sort_key (\<lambda>x. sprintIndex x (orderedSprints s)) (rev (remdups (rev (old @ [to]))))"
      using ext [OF e] key by simp
    show "distinct T" using ext [OF e] dis by simp
    show "set T = set old \<union> {to}" using ext [OF e] st by simp
  next
    fix a b
    assume e: "mode = Extend \<and> to \<noteq> BACKLOG_COLUMN_ID c"
      and h: "a < b \<and> b < length T \<and> T ! b \<notin> sprint_id ` set (sprints s)"
    from notin [OF e, of a b] h show "T ! a \<notin> sprint_id ` set (sprints s)" by blast
  next
    fix p q a b
    assume e: "mode = Extend \<and> to \<noteq> BACKLOG_COLUMN_ID c"
      and d: "distinct (map sprint_id (sprints s))"
      and p: "p \<in> set (sprints s)" and q: "q \<in> set (sprints s)"
      and h: "a < b \<and> b < length T \<and> T ! a = sprint_id p \<and> T ! b = sprint_id q"
    from byorder [OF e d p q, of a b] h show "sprint_order p \<le> sprint_order q" by blast
  qed
  from len mv E orderedSprints_sort_key [of s] dev show ?thesis
    unfolding T_def old_def by blast
qed

theorem moveTicketTo_trail_witness:
  "map sprint_id (sprints exStore) = [''S3'', ''S1'', ''S2'']
   \<and> orderedSprints exStore = [''S1'', ''S2'', ''S3'']
   \<and> sprintIds (tickets (moveTicketTo exConstants ''B'' ''S1'' ''dev-a'' Extend exStore) ! 1)
     = [''S1'', ''S3'']
   \<and> sprint_order (sprints exStore ! 1) \<le> sprint_order (sprints exStore ! 0)
   \<and> sprintIds (tickets (moveTicketTo exConstants ''B'' ''backlog'' ''dev-a'' Extend exStore) ! 1)
     = [''backlog'']
   \<and> sprintIds (tickets (moveTicketTo exConstants ''B'' ''S1'' ''dev-a'' Move exStore) ! 1)
     = [''S1'']"
proof -
  have i: "1 < length (tickets exStore)" and t: "ticket_id (tickets exStore ! 1) = ''B''"
    by (simp_all add: exStore_fields exTicket_def)
  have b: "BACKLOG_COLUMN_ID exConstants = ''backlog''"
    by (simp add: exConstants_def)
  have old: "sprintIds (tickets exStore ! 1) = [''S3'']"
    by (simp add: exStore_fields exTicket_def)
  have ids: "map sprint_id (sprints exStore) = [''S3'', ''S1'', ''S2'']"
    by (simp add: exStore_fields exSprints_def)
  have srt: "map sprint_id (sort_key sprint_order (sprints exStore)) = [''S1'', ''S2'', ''S3'']"
    by (simp add: exStore_fields exSprints_def)
  have tr: "sortSprintTrail ([''S3''] @ [''S1'']) [''S1'', ''S2'', ''S3''] = [''S1'', ''S3'']"
    by (simp add: sortSprintTrail_def sprintIndex_def)
  note ext = moveTicketTo_trail [OF i t, of exConstants "''S1''" "''dev-a''" Extend]
  from ext have "orderedSprints exStore = map sprint_id (sort_key sprint_order (sprints exStore))"
    by blast
  then have 0: "orderedSprints exStore = [''S1'', ''S2'', ''S3'']"
    by (simp only: srt)
  from ext have "sprintIds (tickets (moveTicketTo exConstants ''B'' ''S1'' ''dev-a'' Extend exStore) ! 1)
          = sortSprintTrail (sprintIds (tickets exStore ! 1) @ [''S1'']) (orderedSprints exStore)"
    by (simp add: b)
  then have 1: "sprintIds (tickets (moveTicketTo exConstants ''B'' ''S1'' ''dev-a'' Extend exStore) ! 1)
             = [''S1'', ''S3'']"
    by (simp only: old 0 tr)
  have d: "distinct (map sprint_id (sprints exStore))"
    by (simp add: ids)
  have p: "sprints exStore ! 1 \<in> set (sprints exStore)"
    and q: "sprints exStore ! 0 \<in> set (sprints exStore)"
    by (simp_all add: exStore_fields exSprints_def)
  have pq: "sprint_id (sprints exStore ! 1) = ''S1''" "sprint_id (sprints exStore ! 0) = ''S3''"
    by (simp_all add: exStore_fields exSprints_def)
  from ext b have "distinct (map sprint_id (sprints exStore)) \<longrightarrow>
             (\<forall>p \<in> set (sprints exStore). \<forall>q \<in> set (sprints exStore). \<forall>m n.
                m < n \<and> n < length (sprintIds (tickets (moveTicketTo exConstants ''B'' ''S1'' ''dev-a'' Extend exStore) ! 1))
                \<and> sprintIds (tickets (moveTicketTo exConstants ''B'' ''S1'' ''dev-a'' Extend exStore) ! 1) ! m = sprint_id p
                \<and> sprintIds (tickets (moveTicketTo exConstants ''B'' ''S1'' ''dev-a'' Extend exStore) ! 1) ! n = sprint_id q
                \<longrightarrow> sprint_order p \<le> sprint_order q)"
    by simp
  with d p q have "\<forall>m n.
                m < n \<and> n < length (sprintIds (tickets (moveTicketTo exConstants ''B'' ''S1'' ''dev-a'' Extend exStore) ! 1))
                \<and> sprintIds (tickets (moveTicketTo exConstants ''B'' ''S1'' ''dev-a'' Extend exStore) ! 1) ! m = sprint_id (sprints exStore ! 1)
                \<and> sprintIds (tickets (moveTicketTo exConstants ''B'' ''S1'' ''dev-a'' Extend exStore) ! 1) ! n = sprint_id (sprints exStore ! 0)
                \<longrightarrow> sprint_order (sprints exStore ! 1) \<le> sprint_order (sprints exStore ! 0)"
    by blast
  then have "(0::nat) < 1 \<and> 1 < length [''S1'', ''S3''] \<and> [''S1'', ''S3''] ! 0 = ''S1''
         \<and> [''S1'', ''S3''] ! 1 = ''S3''
       \<longrightarrow> sprint_order (sprints exStore ! 1) \<le> sprint_order (sprints exStore ! 0)"
    unfolding 1 pq by blast
  then have 2: "sprint_order (sprints exStore ! 1) \<le> sprint_order (sprints exStore ! 0)"
    by simp
  from moveTicketTo_trail [OF i t, of exConstants "''backlog''" "''dev-a''" Extend]
  have 3: "sprintIds (tickets (moveTicketTo exConstants ''B'' ''backlog'' ''dev-a'' Extend exStore) ! 1)
             = [''backlog'']"
    by (simp add: b)
  from moveTicketTo_trail [OF i t, of exConstants "''S1''" "''dev-a''" Move]
  have 4: "sprintIds (tickets (moveTicketTo exConstants ''B'' ''S1'' ''dev-a'' Move exStore) ! 1)
             = [''S1'']"
    by simp
  from ids 0 1 2 3 4 show ?thesis by simp
qed

text \<open>
  C7. After \<open>deleteTicket(X)\<close> no ticket has id \<open>X\<close> and no ticket's dependencies
  contain \<open>X\<close>. The tickets that remain are, in order, the tickets whose id is not
  \<open>X\<close>: with the dependencies blanked out they are identical to those, and their
  dependencies are the old ones without \<open>X\<close>.
\<close>

theorem deleteTicket_removes_and_strips:
  "list_all (\<lambda>t. ticket_id t \<noteq> X \<and> X \<notin> set (dependencies t)) (tickets (deleteTicket X s))
   \<and> map (\<lambda>t. t\<lparr>dependencies := []\<rparr>) (tickets (deleteTicket X s))
       = map (\<lambda>t. t\<lparr>dependencies := []\<rparr>) (filter (\<lambda>t. ticket_id t \<noteq> X) (tickets s))
   \<and> map dependencies (tickets (deleteTicket X s))
       = map (\<lambda>t. filter (\<lambda>d. d \<noteq> X) (dependencies t)) (filter (\<lambda>t. ticket_id t \<noteq> X) (tickets s))"
  by (simp add: tickets_deleteTicket list_all_iff o_def)

theorem deleteTicket_removes_and_strips_witness:
  "tickets (deleteTicket ''A'' exStore)
     = [exTicket ''B'' ''F1'' [''S3''] [], exTicket ''C'' ''F2'' [''S1''] []]"
  using deleteTicket_removes_and_strips [of "''A''" exStore]
  by (simp add: tickets_deleteTicket exStore_fields exTicket_def)

text \<open>
  C10. \<open>removeFeature(F)\<close> keeps exactly the features whose id is not \<open>F\<close> and exactly
  the tickets whose feature is not \<open>F\<close>: the tickets of \<open>F\<close> are dropped, not
  reassigned, every other ticket stays as it was, and sprints and developers do not
  change.
\<close>

theorem removeFeature_deletes_feature_and_tickets:
  "features (removeFeature F s) = filter (\<lambda>f. feature_id f \<noteq> F) (features s)
   \<and> tickets (removeFeature F s) = filter (\<lambda>t. featureId t \<noteq> F) (tickets s)
   \<and> list_all (\<lambda>f. feature_id f \<noteq> F) (features (removeFeature F s))
   \<and> list_all (\<lambda>t. featureId t \<noteq> F) (tickets (removeFeature F s))
   \<and> (t \<in> set (tickets s) \<and> featureId t \<noteq> F \<longrightarrow> t \<in> set (tickets (removeFeature F s)))
   \<and> set (tickets (removeFeature F s)) \<subseteq> set (tickets s)
   \<and> sprints (removeFeature F s) = sprints s
   \<and> developers (removeFeature F s) = developers s"
  by (auto simp: tickets_removeFeature list_all_iff removeFeature_def Let_def)

theorem removeFeature_deletes_feature_and_tickets_witness:
  "tickets (removeFeature ''F1'' exStore) = [exTicket ''C'' ''F2'' [''S1''] []]
   \<and> exTicket ''C'' ''F2'' [''S1''] [] \<in> set (tickets (removeFeature ''F1'' exStore))"
proof -
  have m: "exTicket ''C'' ''F2'' [''S1''] [] \<in> set (tickets exStore)
             \<and> featureId (exTicket ''C'' ''F2'' [''S1''] []) \<noteq> ''F1''"
    by (simp add: exStore_fields exTicket_def)
  have f: "filter (\<lambda>t. featureId t \<noteq> ''F1'') (tickets exStore) = [exTicket ''C'' ''F2'' [''S1''] []]"
    by (simp add: exStore_fields exTicket_def)
  from removeFeature_deletes_feature_and_tickets
         [of "''F1''" exStore "exTicket ''C'' ''F2'' [''S1''] []"] m f
  show ?thesis by simp
qed

subsection \<open>Claims about validation before a move\<close>




text \<open>
  C5 as stated does not hold: \<open>addTicket\<close> and \<open>updateTicket\<close> store the dependencies
  they are given. In the example planner, whose dependencies are valid, adding a ticket
  that depends on an unknown id, or making \<open>B\<close> depend on itself, gives a collection
  with invalid dependencies.
\<close>

theorem addTicket_updateTicket_keep_dangling_counterexample:
  "depsValid (tickets exStore)
   \<and> \<not> depsValid (tickets (addTicket exConstants
          \<lparr>n_key = ''KEY-N'', n_name = ''New'', n_storyPoints = 1, n_developerId = None,
           n_featureId = ''F1'', n_jiraUrl = None, n_sprintIds = None,
           n_dependencies = Some [''ghost'']\<rparr> ''N'' 0 exStore))
   \<and> \<not> depsValid (tickets (updateTicket exConstants ''B''
          (noTicketPatch\<lparr>tp_dependencies := Some [''B'']\<rparr>) exStore))"
  by (simp add: ex_depsValid depsValid_def tickets_addTicket tickets_updateTicket updateOne_def
        noTicketPatch_def orElse_def exStore_fields exTicket_def exConstants_def Let_def)

text \<open>
  C5, amended. \<open>normalizeState\<close> (run on load, by \<open>replaceState\<close> and by
  \<open>getPlannerSnapshot\<close>) always returns tickets whose dependencies exclude the
  ticket's own id and name only tickets of the collection. The move operations
  (\<open>moveTicketTo\<close>, \<open>moveTicket\<close>, \<open>commitKeyboardMove\<close>) and \<open>deleteTicket\<close> keep
  that property. \<open>addTicket\<close> and \<open>updateTicket\<close> do not validate again: they keep the
  property when the dependencies they are given already exclude the ticket's id and
  name only tickets of the collection (for \<open>updateTicket\<close>, with a patch that leaves
  the id alone; a patch without dependencies leaves them as they were).
\<close>

theorem depsValid_established_and_preserved:
  "depsValid (tickets (normalizeState c d))
   \<and> depsValid (tickets (replaceState c d' s))
   \<and> depsValid (tickets (getPlannerSnapshot c s))
   \<and> (depsValid (tickets s) \<longrightarrow>
        depsValid (tickets (moveTicketTo c tid to dev mode s))
        \<and> depsValid (tickets (moveTicket c tid to mode s))
        \<and> depsValid (tickets (commitKeyboardMove c mode now s))
        \<and> depsValid (tickets (deleteTicket X s)))
   \<and> (depsValid (tickets s)
        \<and> list_all (\<lambda>x. x \<noteq> newId \<and> x \<in> set (map ticket_id (tickets s)))
              (orElse (n_dependencies partial) []) \<longrightarrow>
        depsValid (tickets (addTicket c partial newId now s)))
   \<and> (depsValid (tickets s) \<and> tp_id patch = None
        \<and> list_all (\<lambda>x. x \<noteq> tid \<and> x \<in> set (map ticket_id (tickets s)))
              (orElse (tp_dependencies patch) []) \<longrightarrow>
        depsValid (tickets (updateTicket c tid patch s)))"
proof -
  have r: "depsValid (tickets (replaceState c d' s))"
    using depsValid_normalizeState [of c d']
    by (simp add: replaceState_def Let_def setData_def)
  have g: "depsValid (tickets (getPlannerSnapshot c s))"
    by (simp add: getPlannerSnapshot_def depsValid_normalizeState)
  from r g depsValid_normalizeState [of c d] depsValid_moveTicketTo [of s c tid to dev mode]
    depsValid_moveTicket [of s c tid to mode] depsValid_commitKeyboardMove [of s c mode now]
    depsValid_deleteTicket [of s X] depsValid_addTicket [of s newId partial c now]
    depsValid_updateTicket [of s patch tid c]
  show ?thesis by blast
qed

theorem depsValid_established_and_preserved_witness:
  "depsValid (tickets exStore)
   \<and> depsValid (tickets (moveTicketTo exConstants ''B'' ''S1'' ''dev-a'' Move exStore))
   \<and> depsValid (tickets (deleteTicket ''A'' exStore))
   \<and> depsValid (tickets (addTicket exConstants
          \<lparr>n_key = ''KEY-N'', n_name = ''New'', n_storyPoints = 1, n_developerId = None,
           n_featureId = ''F1'', n_jiraUrl = None, n_sprintIds = None,
           n_dependencies = Some [''A'']\<rparr> ''N'' 0 exStore))
   \<and> depsValid (tickets (updateTicket exConstants ''B''
          (noTicketPatch\<lparr>tp_dependencies := Some [''A'', ''C'']\<rparr>) exStore))"
proof -
  let ?p = "\<lparr>n_key = ''KEY-N'', n_name = ''New'', n_storyPoints = 1, n_developerId = None,
           n_featureId = ''F1'', n_jiraUrl = None, n_sprintIds = None,
           n_dependencies = Some [''A'']\<rparr>"
  let ?q = "noTicketPatch\<lparr>tp_dependencies := Some [''A'', ''C'']\<rparr>"
  have a: "list_all (\<lambda>x. x \<noteq> ''N'' \<and> x \<in> set (map ticket_id (tickets exStore)))
              (orElse (n_dependencies ?p) [])"
    by (simp add: orElse_def exStore_fields exTicket_def)
  have u: "tp_id ?q = None
        \<and> list_all (\<lambda>x. x \<noteq> ''B'' \<and> x \<in> set (map ticket_id (tickets exStore)))
              (orElse (tp_dependencies ?q) [])"
    by (simp add: orElse_def noTicketPatch_def exStore_fields exTicket_def)
  from depsValid_established_and_preserved
         [where c = exConstants and d = exStore and d' = "plannerData.truncate exStore"
            and s = exStore and tid = "''B''" and to = "''S1''" and dev = "''dev-a''"
            and mode = Move and now = 0 and X = "''A''" and newId = "''N''"
            and partial = ?p and patch = ?q]
    ex_depsValid a u
  show ?thesis by blast
qed

subsection \<open>Claims about every store operation\<close>

text \<open>
  C9. If every ticket of the store has a non-empty trail, then every operation of the
  store returns a store in which every ticket has a non-empty trail again; and then
  \<open>currentSprintId\<close> of every stored ticket is defined and is the last id of its trail,
  which is the target that \<open>beginKeyboardMove\<close> stores. Where trimming or sorting leaves
  nothing, the trail becomes the Backlog sentinel alone, at each of the operations that
  trim or sort, whatever the store was:

  \<^item> \<open>replaceState\<close> stores the tickets of \<open>normalizeState\<close>, which keeps of each trail the
    ids of the normalized sprints and the Backlog sentinel, sorted, and puts the sentinel
    alone where none is kept; so its trails are never empty;
  \<^item> \<open>updateTicket\<close> gives every ticket with the given id the sorted trail of the patch,
    or the sentinel alone for a patch with an empty trail (and for a patch without a
    trail, the old trail, or the sentinel alone if that was empty);
  \<^item> \<open>setSprintTrail\<close> gives it the sorted trail, or the sentinel alone for an empty one;
  \<^item> \<open>addTicket\<close> appends a ticket with the sorted trail it is given, or the sentinel
    alone when it is given none or an empty one.
\<close>

theorem step_preserves_trailsNonEmpty:
  "(trailsNonEmpty (tickets s) \<longrightarrow>
       (\<exists>s'. step c dd opn s = Inr s' \<and> trailsNonEmpty (tickets s'))
     \<and> list_all (\<lambda>t. currentSprintId t = Some (last (sprintIds t))) (tickets s)
     \<and> (\<forall>t. find (\<lambda>t. ticket_id t = tid) (tickets s) = Some t \<longrightarrow>
            beginKeyboardMove tid s =
              Inr (s\<lparr>keyboardMove :=
                       Some \<lparr>km_ticketId = tid, targetDeveloperId = developerId t,
                             targetSprintId = last (sprintIds t)\<rparr>\<rparr>)))
   \<and> tickets (replaceState c d s) = tickets (normalizeState c d)
   \<and> length (tickets (normalizeState c d)) = length (tickets d)
   \<and> (\<forall>k < length (tickets d).
        sprintIds (tickets (normalizeState c d) ! k) =
          (if filter (\<lambda>x. x \<in> set (map sprint_id (ensureSprintSlots c (sprints d))
                                   @ [BACKLOG_COLUMN_ID c])) (sprintIds (tickets d ! k)) = []
           then [BACKLOG_COLUMN_ID c]
           else sortSprintTrail
                  (filter (\<lambda>x. x \<in> set (map sprint_id (ensureSprintSlots c (sprints d))
                                   @ [BACKLOG_COLUMN_ID c])) (sprintIds (tickets d ! k)))
                  (map sprint_id (ensureSprintSlots c (sprints d)))))
   \<and> trailsNonEmpty (tickets (replaceState c d s))
   \<and> (\<forall>k < length (tickets s). ticket_id (tickets s ! k) = tid \<longrightarrow>
        sprintIds (tickets (updateTicket c tid patch s) ! k) =
          (case tp_sprintIds patch of
             None \<Rightarrow> (if sprintIds (tickets s ! k) = [] then [BACKLOG_COLUMN_ID c]
                       else sprintIds (tickets s ! k))
           | Some p \<Rightarrow> (if p = [] then [BACKLOG_COLUMN_ID c]
                        else sortSprintTrail p (orderedSprints s)))
        \<and> sprintIds (tickets (setSprintTrail c tid sids s) ! k) =
          (if sids = [] then [BACKLOG_COLUMN_ID c] else sortSprintTrail sids (orderedSprints s)))
   \<and> tickets (addTicket c partial newId now s) \<noteq> []
   \<and> butlast (tickets (addTicket c partial newId now s)) = tickets s
   \<and> sprintIds (last (tickets (addTicket c partial newId now s))) =
        (if orElse (n_sprintIds partial) [] = [] then [BACKLOG_COLUMN_ID c]
         else sortSprintTrail (orElse (n_sprintIds partial) []) (orderedSprints s))"
proof -
  have add: "tickets (addTicket c partial newId now s) \<noteq> []
     \<and> butlast (tickets (addTicket c partial newId now s)) = tickets s
     \<and> sprintIds (last (tickets (addTicket c partial newId now s))) =
        (if orElse (n_sprintIds partial) [] = [] then [BACKLOG_COLUMN_ID c]
         else sortSprintTrail (orElse (n_sprintIds partial) []) (orderedSprints s))"
    by (simp add: tickets_addTicket)
  have norm: "trailsNonEmpty (tickets (normalizeState c x))" for x :: plannerData
    by (simp add: trailsNonEmpty_def tickets_normalizeState_fields)
  have rep: "trailsNonEmpty (tickets (replaceState c x s))" for x
    using norm [of x] by (simp add: tickets_replaceState)
  have lenn: "length (tickets (normalizeState c d)) = length (tickets d)"
    using tickets_normalizeState_fields(1) [of c d] by (metis length_map)
  have st: "\<exists>s'. step c dd opn s = Inr s' \<and> trailsNonEmpty (tickets s')"
    if inv: "trailsNonEmpty (tickets s)"
  proof (cases opn)
    case (AddFeature name newId)
    then show ?thesis using inv by (simp add: addFeature_def Let_def)
  next
    case (UpdateFeature fid patch)
    then show ?thesis using inv by (simp add: updateFeature_def Let_def)
  next
    case (RemoveFeature fid)
    then show ?thesis using inv
      by (simp add: tickets_removeFeature trailsNonEmpty_def list_all_iff)
  next
    case (AddDeveloper name newId)
    then show ?thesis using inv by (simp add: addDeveloper_def Let_def)
  next
    case (UpdateDeveloper did patch)
    then show ?thesis using inv by (simp add: updateDeveloper_def Let_def)
  next
    case (RemoveDeveloper did)
    then show ?thesis using inv
      by (auto simp: removeDeveloper_def Let_def trailsNonEmpty_def list_all_iff)
  next
    case (AddTicket partial newId now)
    then show ?thesis using inv
      by (simp add: tickets_addTicket trailsNonEmpty_def sortSprintTrail_empty_iff)
  next
    case (UpdateTicket tid patch)
    then show ?thesis using inv by (simp add: trails_updateTicket)
  next
    case (DeleteTicket tid)
    then show ?thesis using inv
      by (simp add: tickets_deleteTicket trailsNonEmpty_def list_all_iff)
  next
    case (MoveTicket tid to mode)
    then show ?thesis using inv trails_moveTicketTo
      by (simp add: tickets_moveTicket split: option.splits)
  next
    case (MoveTicketTo tid to devId mode)
    then show ?thesis using inv by (simp add: trails_moveTicketTo)
  next
    case (SetSprintTrail tid sids)
    then show ?thesis using inv by (simp add: setSprintTrail_def Let_def trails_updateTicket)
  next
    case RefreshTicketPositions
    then show ?thesis using inv by (simp add: refreshTicketPositions_def)
  next
    case (ReplaceState x)
    then show ?thesis using rep by simp
  next
    case ToggleDependencies
    then show ?thesis using inv by (simp add: toggleDependencies_def)
  next
    case (Announce msg now)
    then show ?thesis using inv by simp
  next
    case ClearAnnouncement
    then show ?thesis using inv by (simp add: clearAnnouncement_def)
  next
    case (BeginKeyboardMove tid)
    then show ?thesis using inv trails_beginKeyboardMove [OF inv, of tid] by auto
  next
    case (MoveKeyboardTarget ax delta)
    then show ?thesis using inv
      by (simp add: moveKeyboardTarget_def Let_def split: option.splits axis.splits)
  next
    case (CommitKeyboardMove mode now)
    then show ?thesis using inv by (simp add: trails_commitKeyboardMove)
  next
    case CancelKeyboardMove
    then show ?thesis using inv by (simp add: cancelKeyboardMove_def)
  next
    case (PushNotice msg tn nid)
    then show ?thesis using inv by (simp add: pushNotice_def)
  next
    case (DismissNotice nid)
    then show ?thesis using inv by (simp add: dismissNotice_def)
  next
    case (SetCurrentSprint i)
    then show ?thesis using inv by (simp add: setCurrentSprint_def Let_def)
  next
    case ResetPlanner
    then show ?thesis
      by (simp add: resetPlanner_def Let_def setData_def trailsNonEmpty_def)
  next
    case (SetTicketBaseUrl url now)
    then show ?thesis using inv
      by (simp add: setTicketBaseUrl_def Let_def split: option.splits)
  qed
  have cur: "list_all (\<lambda>t. currentSprintId t = Some (last (sprintIds t))) (tickets s)"
    if inv: "trailsNonEmpty (tickets s)"
    using inv by (simp add: trailsNonEmpty_def list_all_iff currentSprintId_def)
  from st cur begin_under_invariant [of s tid] tickets_replaceState [of c d s] lenn trail_normalizeState [of _ d c]
    rep [of d] trail_updateTicket [of _ s tid c patch] trail_setSprintTrail [of _ s tid c sids] add
  show ?thesis by blast
qed

theorem step_preserves_trailsNonEmpty_witness:
  "trailsNonEmpty (tickets exStore)
   \<and> (\<exists>s'. step exConstants (plannerData.truncate exStore)
               (UpdateTicket ''B'' (noTicketPatch\<lparr>tp_sprintIds := Some []\<rparr>)) exStore = Inr s'
          \<and> trailsNonEmpty (tickets s'))
   \<and> list_all (\<lambda>t. currentSprintId t = Some (last (sprintIds t))) (tickets exStore)
   \<and> beginKeyboardMove ''B'' exStore =
        Inr (exStore\<lparr>keyboardMove :=
                       Some \<lparr>km_ticketId = ''B'', targetDeveloperId = ''dev-a'',
                             targetSprintId = ''S3''\<rparr>\<rparr>)
   \<and> sprintIds (tickets (updateTicket exConstants ''B''
                            (noTicketPatch\<lparr>tp_sprintIds := Some []\<rparr>) exStore) ! 1)
       = [''backlog'']
   \<and> sprintIds (tickets (updateTicket exConstants ''B''
                            (noTicketPatch\<lparr>tp_sprintIds := Some [''S2'', ''S1'', ''S2'']\<rparr>) exStore) ! 1)
       = [''S1'', ''S2'']
   \<and> sprintIds (tickets (setSprintTrail exConstants ''B'' [] exStore) ! 1) = [''backlog'']
   \<and> sprintIds (tickets (replaceState exConstants
                            ((plannerData.truncate exStore)
                               \<lparr>tickets := [exTicket ''X'' ''F1'' [''gone''] [],
                                            exTicket ''Y'' ''F1'' [''S2'', ''gone'', ''S1''] []]\<rparr>)
                            exStore) ! 0)
       = [''backlog'']
   \<and> sprintIds (tickets (replaceState exConstants
                            ((plannerData.truncate exStore)
                               \<lparr>tickets := [exTicket ''X'' ''F1'' [''gone''] [],
                                            exTicket ''Y'' ''F1'' [''S2'', ''gone'', ''S1''] []]\<rparr>)
                            exStore) ! 1)
       = [''S1'', ''S2'']"
proof -
  let ?d = "(plannerData.truncate exStore)
              \<lparr>tickets := [exTicket ''X'' ''F1'' [''gone''] [],
                           exTicket ''Y'' ''F1'' [''S2'', ''gone'', ''S1''] []]\<rparr>"
  let ?p0 = "noTicketPatch\<lparr>tp_sprintIds := Some []\<rparr>"
  let ?p1 = "noTicketPatch\<lparr>tp_sprintIds := Some [''S2'', ''S1'', ''S2'']\<rparr>"
  have inv: "trailsNonEmpty (tickets exStore)"
    by (simp add: trailsNonEmpty_def exStore_fields exTicket_def)
  have b: "BACKLOG_COLUMN_ID exConstants = ''backlog''"
    by (simp add: exConstants_def)
  have k: "1 < length (tickets exStore)" and t: "ticket_id (tickets exStore ! 1) = ''B''"
    by (simp_all add: exStore_fields exTicket_def)
  have f: "find (\<lambda>t. ticket_id t = ''B'') (tickets exStore) = Some (exTicket ''B'' ''F1'' [''S3''] [''A''])"
    by (simp add: exStore_fields exTicket_def)
  have p0: "tp_sprintIds ?p0 = Some []" and p1: "tp_sprintIds ?p1 = Some [''S2'', ''S1'', ''S2'']"
    by simp_all
  have srt: "sortSprintTrail [''S2'', ''S1'', ''S2''] [''S1'', ''S2'', ''S3''] = [''S1'', ''S2'']"
    by (simp add: sortSprintTrail_def sprintIndex_def)
  have dl: "length (tickets ?d) = 2"
    and d0: "sprintIds (tickets ?d ! 0) = [''gone'']"
    and d1: "sprintIds (tickets ?d ! 1) = [''S2'', ''gone'', ''S1'']"
    and ds: "sprints ?d = exSprints"
    by (simp_all add: plannerData.truncate_def exStore_def exTicket_def)
  have slots: "map sprint_id (ensureSprintSlots exConstants exSprints) = [''S1'', ''S2'', ''S3'']"
    by (simp add: ensureSprintSlots_def exSprints_def Let_def exConstants_def
          fillSprintSlots.simps [of _ "[_, _, _]"])
  have srt2: "sortSprintTrail [''S2'', ''S1''] [''S1'', ''S2'', ''S3''] = [''S1'', ''S2'']"
    by (simp add: sortSprintTrail_def sprintIndex_def)
  note th = step_preserves_trailsNonEmpty
  from th [of exStore exConstants "plannerData.truncate exStore" "UpdateTicket ''B'' ?p0"] inv
  have 1: "\<exists>s'. step exConstants (plannerData.truncate exStore) (UpdateTicket ''B'' ?p0) exStore = Inr s'
          \<and> trailsNonEmpty (tickets s')"
    and 2: "list_all (\<lambda>t. currentSprintId t = Some (last (sprintIds t))) (tickets exStore)"
    by blast+
  from th [of exStore exConstants _ _ "''B''"] inv f
  have "beginKeyboardMove ''B'' exStore =
        Inr (exStore\<lparr>keyboardMove :=
               Some \<lparr>km_ticketId = ''B'',
                     targetDeveloperId = developerId (exTicket ''B'' ''F1'' [''S3''] [''A'']),
                     targetSprintId = last (sprintIds (exTicket ''B'' ''F1'' [''S3''] [''A'']))\<rparr>\<rparr>)"
    by blast
  then have 3: "beginKeyboardMove ''B'' exStore =
        Inr (exStore\<lparr>keyboardMove :=
                       Some \<lparr>km_ticketId = ''B'', targetDeveloperId = ''dev-a'',
                             targetSprintId = ''S3''\<rparr>\<rparr>)"
    by (simp add: exTicket_def)
  from th [of exStore exConstants _ _ "''B''" _ ?p0] k t
  have "sprintIds (tickets (updateTicket exConstants ''B'' ?p0 exStore) ! 1) =
          (case tp_sprintIds ?p0 of
             None \<Rightarrow> (if sprintIds (tickets exStore ! 1) = [] then [BACKLOG_COLUMN_ID exConstants]
                       else sprintIds (tickets exStore ! 1))
           | Some p \<Rightarrow> (if p = [] then [BACKLOG_COLUMN_ID exConstants]
                        else sortSprintTrail p (orderedSprints exStore)))"
    by blast
  then have 4: "sprintIds (tickets (updateTicket exConstants ''B'' ?p0 exStore) ! 1) = [''backlog'']"
    by (simp add: b)
  from th [of exStore exConstants _ _ "''B''" _ ?p1] k t
  have "sprintIds (tickets (updateTicket exConstants ''B'' ?p1 exStore) ! 1) =
          (case tp_sprintIds ?p1 of
             None \<Rightarrow> (if sprintIds (tickets exStore ! 1) = [] then [BACKLOG_COLUMN_ID exConstants]
                       else sprintIds (tickets exStore ! 1))
           | Some p \<Rightarrow> (if p = [] then [BACKLOG_COLUMN_ID exConstants]
                        else sortSprintTrail p (orderedSprints exStore)))"
    by blast
  then have 5: "sprintIds (tickets (updateTicket exConstants ''B'' ?p1 exStore) ! 1) = [''S1'', ''S2'']"
    by (simp add: ex_ordered srt)
  from th [of exStore exConstants _ _ "''B''" _ _ "[]"] k t
  have "sprintIds (tickets (setSprintTrail exConstants ''B'' [] exStore) ! 1) =
          (if [] = ([] :: string list) then [BACKLOG_COLUMN_ID exConstants]
           else sortSprintTrail [] (orderedSprints exStore))"
    by blast
  then have 6: "sprintIds (tickets (setSprintTrail exConstants ''B'' [] exStore) ! 1) = [''backlog'']"
    by (simp add: b)
  from th [of exStore exConstants _ _ _ ?d]
  have rs: "tickets (replaceState exConstants ?d exStore) = tickets (normalizeState exConstants ?d)"
    and rn: "\<forall>k < length (tickets ?d).
        sprintIds (tickets (normalizeState exConstants ?d) ! k) =
          (if filter (\<lambda>x. x \<in> set (map sprint_id (ensureSprintSlots exConstants (sprints ?d))
                                   @ [BACKLOG_COLUMN_ID exConstants])) (sprintIds (tickets ?d ! k)) = []
           then [BACKLOG_COLUMN_ID exConstants]
           else sortSprintTrail
                  (filter (\<lambda>x. x \<in> set (map sprint_id (ensureSprintSlots exConstants (sprints ?d))
                                   @ [BACKLOG_COLUMN_ID exConstants])) (sprintIds (tickets ?d ! k)))
                  (map sprint_id (ensureSprintSlots exConstants (sprints ?d))))"
    by blast+
  from rn dl have "sprintIds (tickets (normalizeState exConstants ?d) ! 0) =
          (if filter (\<lambda>x. x \<in> set (map sprint_id (ensureSprintSlots exConstants (sprints ?d))
                                   @ [BACKLOG_COLUMN_ID exConstants])) (sprintIds (tickets ?d ! 0)) = []
           then [BACKLOG_COLUMN_ID exConstants]
           else sortSprintTrail
                  (filter (\<lambda>x. x \<in> set (map sprint_id (ensureSprintSlots exConstants (sprints ?d))
                                   @ [BACKLOG_COLUMN_ID exConstants])) (sprintIds (tickets ?d ! 0)))
                  (map sprint_id (ensureSprintSlots exConstants (sprints ?d))))"
    by simp
  then have 7: "sprintIds (tickets (replaceState exConstants ?d exStore) ! 0) = [''backlog'']"
    unfolding rs d0 ds slots b by simp
  from rn dl have "sprintIds (tickets (normalizeState exConstants ?d) ! 1) =
          (if filter (\<lambda>x. x \<in> set (map sprint_id (ensureSprintSlots exConstants (sprints ?d))
                                   @ [BACKLOG_COLUMN_ID exConstants])) (sprintIds (tickets ?d ! 1)) = []
           then [BACKLOG_COLUMN_ID exConstants]
           else sortSprintTrail
                  (filter (\<lambda>x. x \<in> set (map sprint_id (ensureSprintSlots exConstants (sprints ?d))
                                   @ [BACKLOG_COLUMN_ID exConstants])) (sprintIds (tickets ?d ! 1)))
                  (map sprint_id (ensureSprintSlots exConstants (sprints ?d))))"
    by simp
  then have 8: "sprintIds (tickets (replaceState exConstants ?d exStore) ! 1) = [''S1'', ''S2'']"
    unfolding rs d1 ds slots b by (simp add: srt2)
  from inv 1 2 3 4 5 6 7 8 show ?thesis by blast
qed

section \<open>Properties of the dependency edge router\<close>

subsection \<open>The sort and the slot loop of assignSlots\<close>

lemma slotCompare_le:
  "slotCompare byStart a b \<le> 0 \<longleftrightarrow>
     (if byStart then (centerY (startRect a), centerY (endRect a)) \<le> (centerY (startRect b), centerY (endRect b))
      else (centerY (endRect a), centerY (startRect a)) \<le> (centerY (endRect b), centerY (startRect b)))"
  by (auto simp: slotCompare_def less_eq_prod_def)

lemma insert_cmp_slot:
  "insert_cmp (\<lambda>a b. slotCompare byStart (snd a) (snd b)) x xs
     = insort_key (\<lambda>a. slotKey byStart (snd a)) x xs"
  by (induction xs) (auto simp: slotCompare_le slotKey_def)

lemma sort_cmp_slot:
  "sort_cmp (\<lambda>a b. slotCompare byStart (snd a) (snd b)) xs
     = sort_key (\<lambda>a. slotKey byStart (snd a)) xs"
  by (induction xs) (simp_all add: insert_cmp_slot)

lemma slotLoop_fst: "map fst (slotLoop keyOf T A xs) = map fst xs"
  by (induction xs arbitrary: A) (auto simp: Let_def)

lemma group_filter_skip:
  "keyOf (snd x) \<noteq> k \<Longrightarrow>
     filter (\<lambda>(e, r). keyOf (snd e) = k) (zip (x # xs) (y # ys))
       = filter (\<lambda>(e, r). keyOf (snd e) = k) (zip xs ys)"
  by simp

lemma group_filter_keep:
  "keyOf (snd x) = k \<Longrightarrow>
     filter (\<lambda>(e, r). keyOf (snd e) = k) (zip (x # xs) (y # ys))
       = (x, y) # filter (\<lambda>(e, r). keyOf (snd e) = k) (zip xs ys)"
  by simp

lemma slotLoop_group:
  assumes "1 < orElse (T k) 1"
  shows "map snd (map snd (filter (\<lambda>(e, r). keyOf (snd e) = k) (zip xs (slotLoop keyOf T A xs))))
           = [orElse (A k) 0 ..< orElse (A k) 0 + length (filter (\<lambda>e. keyOf (snd e) = k) xs)]"
proof (induction xs arbitrary: A)
  case Nil
  show ?case by simp
next
  case (Cons x xs)
  obtain i seg where x: "x = (i, seg)" by (cases x)
  let ?a = "orElse (A k) 0"
  let ?n = "length (filter (\<lambda>e. keyOf (snd e) = k) xs)"
  show ?case
  proof (cases "keyOf seg = k")
    case True
    with assms have big: "\<not> orElse (T (keyOf seg)) 1 \<le> 1" by simp
    let ?A' = "A(keyOf seg \<mapsto> orElse (A (keyOf seg)) 0 + 1)"
    have a': "orElse (?A' k) 0 = Suc ?a"
      using True by (simp add: orElse_def)
    have step: "slotLoop keyOf T A (x # xs) = (i, ?a) # slotLoop keyOf T ?A' xs"
      using True big x by simp
    have kx: "keyOf (snd x) = k" using True x by simp
    have ih: "map snd (map snd (filter (\<lambda>(e, r). keyOf (snd e) = k) (zip xs (slotLoop keyOf T ?A' xs))))
                = [Suc ?a ..< Suc ?a + ?n]"
      using Cons.IH [of ?A'] unfolding a' .
    have "map snd (map snd (filter (\<lambda>(e, r). keyOf (snd e) = k) (zip (x # xs) (slotLoop keyOf T A (x # xs)))))
            = ?a # map snd (map snd (filter (\<lambda>(e, r). keyOf (snd e) = k) (zip xs (slotLoop keyOf T ?A' xs))))"
      unfolding step group_filter_keep [of keyOf x k, OF kx] by simp
    also have "\<dots> = ?a # [Suc ?a ..< Suc ?a + ?n]"
      unfolding ih ..
    also have "\<dots> = [?a ..< ?a + Suc ?n]"
    proof -
      have "[?a ..< ?a + Suc ?n] = ?a # [Suc ?a ..< ?a + Suc ?n]"
        by (rule upt_conv_Cons) simp
      then show ?thesis by (simp only: add_Suc add_Suc_right)
    qed
    also have "Suc ?n = length (filter (\<lambda>e. keyOf (snd e) = k) (x # xs))"
      using True x by simp
    finally show ?thesis .
  next
    case False
    have same: "orElse ((A(keyOf seg \<mapsto> v)) k) 0 = ?a" for v
      using False by (simp add: orElse_def)
    have n: "length (filter (\<lambda>e. keyOf (snd e) = k) (x # xs)) = ?n"
      using False x by simp
    have kx: "keyOf (snd x) \<noteq> k" using False x by simp
    show ?thesis
    proof (cases "orElse (T (keyOf seg)) 1 \<le> 1")
      case True
      then have step: "slotLoop keyOf T A (x # xs) = (i, 0) # slotLoop keyOf T A xs"
        using x by simp
      show ?thesis
        unfolding step n group_filter_skip [of keyOf x k, OF kx] by (rule Cons.IH)
    next
      case nb: False
      let ?A' = "A(keyOf seg \<mapsto> orElse (A (keyOf seg)) 0 + 1)"
      from nb have step: "slotLoop keyOf T A (x # xs)
            = (i, orElse (A (keyOf seg)) 0) # slotLoop keyOf T ?A' xs"
        using x by simp
      have ih: "map snd (map snd (filter (\<lambda>(e, r). keyOf (snd e) = k) (zip xs (slotLoop keyOf T ?A' xs))))
                = [?a ..< ?a + ?n]"
        using Cons.IH [of ?A'] unfolding same .
      show ?thesis
        unfolding step n group_filter_skip [of keyOf x k, OF kx] by (rule ih)
    qed
  qed
qed

lemma countKeys_foldl:
  "foldl (\<lambda>m k. m(k \<mapsto> orElse (m k) 0 + 1)) m ks k
     = (if k \<in> set ks then Some (orElse (m k) 0 + count_list ks k) else m k)"
proof (induction ks arbitrary: m)
  case Nil
  show ?case by simp
next
  case (Cons a ks)
  let ?f = "\<lambda>m k. m(k \<mapsto> orElse (m k) 0 + 1)"
  have "foldl ?f m (a # ks) k = foldl ?f (?f m a) ks k"
    by (simp only: foldl_Cons)
  also have "\<dots> = (if k \<in> set ks then Some (orElse ((?f m a) k) 0 + count_list ks k)
                   else (?f m a) k)"
    by (rule Cons.IH)
  also have "\<dots> = (if k \<in> set (a # ks) then Some (orElse (m k) 0 + count_list (a # ks) k)
                   else m k)"
    by (auto simp: orElse_def)
  finally show ?case .
qed

lemma countKeys_count:
  "countKeys ks k = (if k \<in> set ks then Some (count_list ks k) else None)"
  unfolding countKeys_def countKeys_foldl by (simp add: orElse_def)

lemma count_list_filter: "count_list (map f xs) k = length (filter (\<lambda>x. f x = k) xs)"
  by (induction xs) auto

lemma zip_filter_fst:
  "length xs = length ys \<Longrightarrow> map fst (filter (\<lambda>(e, r). P e) (zip xs ys)) = filter P xs"
proof (induction xs arbitrary: ys)
  case Nil
  show ?case by simp
next
  case (Cons x xs)
  then obtain y ys' where "ys = y # ys'" by (cases ys) auto
  with Cons show ?case by simp
qed

lemma zip_same_fst:
  "map fst ys = map fst xs \<Longrightarrow> (e, r) \<in> set (zip xs ys) \<Longrightarrow> fst r = fst e"
proof (induction xs arbitrary: ys)
  case Nil
  then show ?case by simp
next
  case (Cons x xs)
  then obtain y ys' where "ys = y # ys'" by (cases ys) auto
  with Cons show ?case by auto
qed

lemma length_filter_enumerate:
  "length (filter (\<lambda>e. P (snd e)) (enumerate n xs)) = length (filter P xs)"
  by (induction xs arbitrary: n) auto

lemma distinct_map_insort_key:
  "distinct (map g (insort_key f x xs)) \<longleftrightarrow> distinct (map g (x # xs))"
  by (induction xs) (auto simp: set_insort_key)

lemma distinct_map_sort_key:
  "distinct (map g (sort_key f xs)) \<longleftrightarrow> distinct (map g xs)"
  by (induction xs) (simp_all add: distinct_map_insort_key set_sort)

lemma slotLoop_length: "length (slotLoop keyOf T A xs) = length xs"
  using slotLoop_fst [of keyOf T A xs] by (metis length_map)

lemma assignSlots_group:
  assumes n2: "2 \<le> length (filter (\<lambda>sg. keyOf sg = k) segs)"
  shows "\<exists>G. length G = length (filter (\<lambda>sg. keyOf sg = k) segs)
            \<and> set G = {e \<in> set (enumerate 0 segs). keyOf (snd e) = k}
            \<and> sorted (map (\<lambda>e. slotKey byStart (snd e)) G)
            \<and> (\<forall>q < length G.
                  assignSlots keyOf (countKeys (map keyOf segs)) byStart segs (fst (G ! q)) = Some q)"
proof -
  define n where "n = length (filter (\<lambda>sg. keyOf sg = k) segs)"
  define T where "T = countKeys (map keyOf segs)"
  define K where "K = (\<lambda>e :: nat \<times> segment. slotKey byStart (snd e))"
  define es where "es = enumerate 0 segs"
  define xs where "xs = sort_key K es"
  define ys where "ys = slotLoop keyOf T Map.empty xs"
  define G where "G = filter (\<lambda>e. keyOf (snd e) = k) xs"
  define F where "F = filter (\<lambda>(e, r). keyOf (snd e) = k) (zip xs ys)"
  have asg: "assignSlots keyOf T byStart segs = map_of ys"
    unfolding assignSlots_def sort_cmp_slot ys_def xs_def K_def es_def ..
  have lenG: "length G = n"
  proof -
    have "G = sort_key K (filter (\<lambda>e. keyOf (snd e) = k) es)"
      unfolding G_def xs_def by (rule filter_sort)
    then have "length G = length (filter (\<lambda>e. keyOf (snd e) = k) es)"
      by (simp only: length_sort)
    also have "\<dots> = n"
      unfolding es_def n_def
      using length_filter_enumerate [of "\<lambda>sg. keyOf sg = k" 0 segs] by simp
    finally show ?thesis .
  qed
  have setG: "set G = {e \<in> set es. keyOf (snd e) = k}"
    unfolding G_def xs_def by (simp only: set_filter set_sort)
  have sortedG: "sorted (map K G)"
    unfolding G_def xs_def by (rule sorted_filter) (rule sorted_sort_key)
  have mem: "k \<in> set (map keyOf segs)"
  proof -
    from n2 have "filter (\<lambda>sg. keyOf sg = k) segs \<noteq> []" by auto
    then obtain sg where "sg \<in> set segs" "keyOf sg = k"
      by (auto simp: filter_empty_conv)
    then show ?thesis by auto
  qed
  have Tk: "T k = Some n"
    unfolding T_def n_def using mem by (simp add: countKeys_count count_list_filter)
  have big: "1 < orElse (T k) 1"
    using n2 by (simp add: Tk orElse_def n_def)
  have len: "length xs = length ys"
    unfolding ys_def by (simp only: slotLoop_length)
  have fstF: "map fst F = G"
    unfolding F_def G_def by (rule zip_filter_fst [OF len])
  have sndF: "map snd (map snd F) = [0 ..< n]"
  proof -
    have "map snd (map snd F) = [orElse (Map.empty k) 0 ..< orElse (Map.empty k) 0 + length G]"
      unfolding F_def G_def ys_def
      by (rule slotLoop_group [of T k keyOf xs Map.empty, OF big])
    then show ?thesis by (simp add: orElse_def lenG)
  qed
  have lenF: "length F = n"
  proof -
    have "length F = length (map snd (map snd F))" by simp
    also have "\<dots> = length [0 ..< n]" by (simp only: sndF)
    finally show ?thesis by simp
  qed
  have dist: "distinct (map fst ys)"
    unfolding ys_def slotLoop_fst xs_def distinct_map_sort_key es_def
    by (simp add: enumerate_eq_zip)
  have slot: "map_of ys (fst (G ! q)) = Some q" if q: "q < n" for q
  proof -
    from q lenF have qF: "q < length F" by simp
    obtain e r where er: "F ! q = (e, r)" by (cases "F ! q")
    have "map fst F ! q = fst (F ! q)"
      using qF by (rule nth_map)
    then have e: "e = G ! q"
      using er by (simp add: fstF)
    have "[0 ..< n] ! q = snd (snd (F ! q))"
      unfolding sndF [symmetric] using qF by simp
    then have r2: "snd r = q"
      using q er by simp
    have "F ! q \<in> set F"
      using qF by (rule nth_mem)
    then have "(e, r) \<in> set F"
      by (simp only: er)
    then have z: "(e, r) \<in> set (zip xs ys)"
      unfolding F_def by simp
    have sf: "map fst ys = map fst xs"
      unfolding ys_def by (rule slotLoop_fst)
    from zip_same_fst [OF sf z] have r1: "fst r = fst e" .
    from z have ry: "r \<in> set ys" by (rule set_zip_rightD)
    from r1 r2 e have "r = (fst (G ! q), q)"
      by (cases r) simp
    with ry have "(fst (G ! q), q) \<in> set ys" by simp
    with dist show ?thesis
      by (rule map_of_is_SomeI)
  qed
  have "length G = n \<and> set G = {e \<in> set es. keyOf (snd e) = k} \<and> sorted (map K G)
          \<and> (\<forall>q < length G. assignSlots keyOf T byStart segs (fst (G ! q)) = Some q)"
    using lenG setG sortedG slot asg by simp
  then show ?thesis
    unfolding n_def T_def K_def es_def by (rule exI)
qed

lemma enumerate_mem: "i < length xs \<Longrightarrow> (i, xs ! i) \<in> set (enumerate 0 xs)"
  by (simp add: in_set_enumerate_eq)

lemma assignSlots_pair:
  assumes i: "i < length segs" and j: "j < length segs" and ne: "i \<noteq> j"
    and ki: "keyOf (segs ! i) = k" and kj: "keyOf (segs ! j) = k"
  shows "2 \<le> length (filter (\<lambda>sg. keyOf sg = k) segs)
     \<and> (\<exists>qi qj. assignSlots keyOf (countKeys (map keyOf segs)) byStart segs i = Some qi
            \<and> assignSlots keyOf (countKeys (map keyOf segs)) byStart segs j = Some qj
            \<and> qi < length (filter (\<lambda>sg. keyOf sg = k) segs)
            \<and> qj < length (filter (\<lambda>sg. keyOf sg = k) segs)
            \<and> qi \<noteq> qj
            \<and> (slotKey byStart (segs ! i) < slotKey byStart (segs ! j) \<longrightarrow> qi < qj))"
proof -
  define n where "n = length (filter (\<lambda>sg. keyOf sg = k) segs)"
  define es where "es = enumerate 0 segs"
  define S where "S = {e \<in> set es. keyOf (snd e) = k}"
  have ei: "(i, segs ! i) \<in> S" and ej: "(j, segs ! j) \<in> S"
    unfolding S_def es_def using i j ki kj by (simp_all add: enumerate_mem)
  have n2: "2 \<le> n"
  proof -
    have "card {(i, segs ! i), (j, segs ! j)} = 2"
      using ne by simp
    moreover have "card {(i, segs ! i), (j, segs ! j)} \<le> card (set (filter (\<lambda>e. keyOf (snd e) = k) es))"
      using ei ej unfolding S_def by (intro card_mono) auto
    moreover have "card (set (filter (\<lambda>e. keyOf (snd e) = k) es))
                     \<le> length (filter (\<lambda>e. keyOf (snd e) = k) es)"
      by (rule card_length)
    moreover have "length (filter (\<lambda>e. keyOf (snd e) = k) es) = n"
      unfolding es_def n_def
      using length_filter_enumerate [of "\<lambda>sg. keyOf sg = k" 0 segs] by simp
    ultimately show ?thesis by linarith
  qed
  from assignSlots_group [of keyOf k segs byStart] n2
  obtain G where lenG: "length G = n" and setG: "set G = S"
    and sortedG: "sorted (map (\<lambda>e. slotKey byStart (snd e)) G)"
    and slot: "\<And>q. q < length G \<Longrightarrow>
          assignSlots keyOf (countKeys (map keyOf segs)) byStart segs (fst (G ! q)) = Some q"
    unfolding n_def S_def es_def by blast
  from ei setG obtain qi where qi: "qi < length G" and gi: "G ! qi = (i, segs ! i)"
    by (auto simp: in_set_conv_nth)
  from ej setG obtain qj where qj: "qj < length G" and gj: "G ! qj = (j, segs ! j)"
    by (auto simp: in_set_conv_nth)
  have si: "assignSlots keyOf (countKeys (map keyOf segs)) byStart segs i = Some qi"
    using slot [OF qi] gi by simp
  have sj: "assignSlots keyOf (countKeys (map keyOf segs)) byStart segs j = Some qj"
    using slot [OF qj] gj by simp
  have neq: "qi \<noteq> qj"
    using gi gj ne by auto
  have ord: "qi < qj" if lt: "slotKey byStart (segs ! i) < slotKey byStart (segs ! j)"
  proof (rule ccontr)
    assume "\<not> qi < qj"
    then have le: "qj \<le> qi" by simp
    have "map (\<lambda>e. slotKey byStart (snd e)) G ! qj \<le> map (\<lambda>e. slotKey byStart (snd e)) G ! qi"
      using sortedG le qi by (simp add: sorted_iff_nth_mono)
    then have "slotKey byStart (segs ! j) \<le> slotKey byStart (segs ! i)"
      using qi qj gi gj by simp
    with lt show False by simp
  qed
  from n2 si sj qi qj neq ord lenG show ?thesis
    unfolding n_def by auto
qed

lemma assignSlots_onto:
  assumes n2: "2 \<le> length (filter (\<lambda>sg. keyOf sg = k) segs)"
    and q: "q < length (filter (\<lambda>sg. keyOf sg = k) segs)"
  shows "\<exists>m < length segs. keyOf (segs ! m) = k
           \<and> assignSlots keyOf (countKeys (map keyOf segs)) byStart segs m = Some q"
proof -
  from assignSlots_group [OF n2, of byStart]
  obtain G where lenG: "length G = length (filter (\<lambda>sg. keyOf sg = k) segs)"
    and setG: "set G = {e \<in> set (enumerate 0 segs). keyOf (snd e) = k}"
    and slot: "\<And>q. q < length G \<Longrightarrow>
          assignSlots keyOf (countKeys (map keyOf segs)) byStart segs (fst (G ! q)) = Some q"
    by blast
  from q lenG have qG: "q < length G" by simp
  then have "G ! q \<in> set G" by (rule nth_mem)
  with setG have m: "G ! q \<in> set (enumerate 0 segs)" and km: "keyOf (snd (G ! q)) = k"
    by auto
  from m have "fst (G ! q) < length segs" and "segs ! fst (G ! q) = snd (G ! q)"
    by (simp_all add: in_set_enumerate_eq)
  with km slot [OF qG] show ?thesis by auto
qed

subsection \<open>Segments of one anchor key share the rectangle\<close>

lemma side_key_inj:
  "a @ '':right'' = b @ '':right'' \<longleftrightarrow> a = b"
  "a @ '':left'' = b @ '':left'' \<longleftrightarrow> a = b"
  "a @ '':right'' \<noteq> b @ '':left''"
  "a @ '':left'' \<noteq> b @ '':right''"
proof -
  show "a @ '':right'' = b @ '':right'' \<longleftrightarrow> a = b" by simp
  show "a @ '':left'' = b @ '':left'' \<longleftrightarrow> a = b" by simp
  have "rev (a @ '':right'') \<noteq> rev (b @ '':left'')" by simp
  then show "a @ '':right'' \<noteq> b @ '':left''" by metis
  have "rev (a @ '':left'') \<noteq> rev (b @ '':right'')" by simp
  then show "a @ '':left'' \<noteq> b @ '':right''" by metis
qed

lemma newSegment_fields:
  "startRect (newSegment d t sr er ssi esi) = sr"
  "endRect (newSegment d t sr er ssi esi) = er"
  "startSideKey (newSegment d t sr er ssi esi) = d @ '':right''
     \<or> startSideKey (newSegment d t sr er ssi esi) = d @ '':left''"
  "endSideKey (newSegment d t sr er ssi esi) = ticket_id t @ '':right''
     \<or> endSideKey (newSegment d t sr er ssi esi) = ticket_id t @ '':left''"
  by (simp_all add: newSegment_def Let_def)

lemma segmentFor_Some:
  assumes "segmentFor rl tks ord act t d = Some sg"
  shows "\<exists>sr er ssi esi. find (\<lambda>r. r_id r = d) rl = Some sr
           \<and> find (\<lambda>r. r_id r = ticket_id t) rl = Some er
           \<and> sg = newSegment d t sr er ssi esi"
  using assms
  by (auto simp: segmentFor_def Let_def split: option.splits if_splits)

lemma segmentFor_rects:
  assumes "segmentFor rl tks ord act t d = Some sg"
  shows "find (\<lambda>r. r_id r = d) rl = Some (startRect sg)"
    and "find (\<lambda>r. r_id r = ticket_id t) rl = Some (endRect sg)"
    and "startSideKey sg = d @ '':right'' \<or> startSideKey sg = d @ '':left''"
    and "endSideKey sg = ticket_id t @ '':right'' \<or> endSideKey sg = ticket_id t @ '':left''"
proof -
  from segmentFor_Some [OF assms] obtain sr er ssi esi
    where f1: "find (\<lambda>r. r_id r = d) rl = Some sr"
      and f2: "find (\<lambda>r. r_id r = ticket_id t) rl = Some er"
      and sg: "sg = newSegment d t sr er ssi esi"
    by blast
  show "find (\<lambda>r. r_id r = d) rl = Some (startRect sg)"
    unfolding sg newSegment_fields by (rule f1)
  show "find (\<lambda>r. r_id r = ticket_id t) rl = Some (endRect sg)"
    unfolding sg newSegment_fields by (rule f2)
  show "startSideKey sg = d @ '':right'' \<or> startSideKey sg = d @ '':left''"
    unfolding sg by (rule newSegment_fields)
  show "endSideKey sg = ticket_id t @ '':right'' \<or> endSideKey sg = ticket_id t @ '':left''"
    unfolding sg by (rule newSegment_fields)
qed

lemma extractSegments_mem:
  assumes "sg \<in> set (extractSegments rl tks ord act)"
  shows "\<exists>t d. segmentFor rl tks ord act t d = Some sg"
proof -
  from assms obtain t where "t \<in> set tks"
    and "sg \<in> set (List.map_filter (segmentFor rl tks ord act t) (dependencies t))"
    by (auto simp: extractSegments_def)
  then obtain d where "segmentFor rl tks ord act t d = Some sg"
    by (auto simp: List.map_filter_def)
  then show ?thesis by blast
qed

lemma same_startSideKey_rect:
  assumes a: "a \<in> set (extractSegments rl tks ord act)"
    and b: "b \<in> set (extractSegments rl tks ord act)"
    and k: "startSideKey a = startSideKey b"
  shows "startRect a = startRect b"
proof -
  from extractSegments_mem [OF a] obtain ta da where sa: "segmentFor rl tks ord act ta da = Some a"
    by blast
  from extractSegments_mem [OF b] obtain tb db where sb: "segmentFor rl tks ord act tb db = Some b"
    by blast
  from segmentFor_rects(3) [OF sa] segmentFor_rects(3) [OF sb] k have "da = db"
    by (auto simp: side_key_inj)
  with segmentFor_rects(1) [OF sa] segmentFor_rects(1) [OF sb] show ?thesis by simp
qed

lemma same_endSideKey_rect:
  assumes a: "a \<in> set (extractSegments rl tks ord act)"
    and b: "b \<in> set (extractSegments rl tks ord act)"
    and k: "endSideKey a = endSideKey b"
  shows "endRect a = endRect b"
proof -
  from extractSegments_mem [OF a] obtain ta da where sa: "segmentFor rl tks ord act ta da = Some a"
    by blast
  from extractSegments_mem [OF b] obtain tb db where sb: "segmentFor rl tks ord act tb db = Some b"
    by blast
  from segmentFor_rects(4) [OF sa] segmentFor_rects(4) [OF sb] k have "ticket_id ta = ticket_id tb"
    by (auto simp: side_key_inj)
  with segmentFor_rects(2) [OF sa] segmentFor_rects(2) [OF sb] show ?thesis by simp
qed

lemma slottedSegments_length: "length (slottedSegments segs) = length segs"
  by (simp add: slottedSegments_def)

lemma slottedSegments_nth:
  assumes "i < length segs"
  shows "slottedSegments segs ! i =
     (segs ! i)\<lparr>startSlot := assignSlots startSideKey (countKeys (map startSideKey segs)) True segs i,
                endSlot := assignSlots endSideKey (countKeys (map endSideKey segs)) False segs i\<rparr>"
  using assms by (simp add: slottedSegments_def nth_enumerate_eq)

lemma map_snd_enumerate: "map (\<lambda>x. f (snd x)) (enumerate n xs) = map f xs"
  by (induction xs arbitrary: n) simp_all

lemma slottedSegments_keys:
  "map startSideKey (slottedSegments segs) = map startSideKey segs"
  "map endSideKey (slottedSegments segs) = map endSideKey segs"
  by (simp_all add: slottedSegments_def o_def case_prod_unfold map_snd_enumerate)

subsection \<open>The example boards, evaluated\<close>

lemma ex_rectList:
  "rectListOf exContainer exBoardPositions None None =
     [\<lparr>r_id = ''A'', r_left = 100, r_right = 200, r_top = 100, r_bottom = 150, r_width = 100,
       r_height = 50, centerX = 150, centerY = 125\<rparr>,
      \<lparr>r_id = ''B'', r_left = 400, r_right = 500, r_top = 100, r_bottom = 150, r_width = 100,
       r_height = 50, centerX = 450, centerY = 125\<rparr>,
      \<lparr>r_id = ''C'', r_left = 380, r_right = 480, r_top = 110, r_bottom = 160, r_width = 100,
       r_height = 50, centerX = 430, centerY = 135\<rparr>]"
  by (simp add: rectListOf_def exBoardPositions_def exContainer_def exRect_def toRelativeRect_def)


lemma showNat_small: "showNat 0 = ''0''" "showNat 1 = ''1''"
  by (simp_all)

lemma ex_segments:
  "extractSegments [boardA, boardB, boardC] exBoardTickets [''S1'', ''S2'', ''S3''] None =
     [\<lparr>seg_from = ''A'', seg_to = ''B'', startRect = boardA, endRect = boardB,
       startSprintIdx = 0, endSprintIdx = 1, sameColumn = False, horizontalDir = 1,
       groupKey = ''row-0-1-r'', orderKey = 125, startSideKey = ''A:right'',
       endSideKey = ''B:left'', startSlot = None, endSlot = None\<rparr>]"
  by (simp add: extractSegments_def segmentFor_def exBoardTickets_def exTicket_def
        List.map_filter_def newSegment_def sprintIndexOpt_def sprintIndex_def currentSprintId_def boardA_def boardB_def boardC_def Let_def)



lemma attempts: "[0..<GUTTER_ATTEMPTS] = [0, 1, 2, 3, 4]"
  by (simp add: GUTTER_ATTEMPTS_def upt_rec)

lemma ex_slotted:
  "slottedSegments [edgeAB] = [edgeAB\<lparr>startSlot := Some 0, endSlot := Some 0\<rparr>]"
  by (simp add: slottedSegments_def assignSlots_def countKeys_def orElse_def edgeAB_def)

lemma ex_anchors:
  "startAnchorY [edgeAB\<lparr>startSlot := Some 0, endSlot := Some 0\<rparr>] (edgeAB\<lparr>startSlot := Some 0, endSlot := Some 0\<rparr>) = 125"
  "endAnchorY [edgeAB\<lparr>startSlot := Some 0, endSlot := Some 0\<rparr>] (edgeAB\<lparr>startSlot := Some 0, endSlot := Some 0\<rparr>) = 125"
  by (simp_all add: startAnchorY_def endAnchorY_def computeAnchor_def countKeys_def orElse_def edgeAB_def boardA_def boardB_def)

lemma ex_lane:
  "findLaneY [boardA, boardB, boardC] exContainer True boardA boardB 228 372 0 125 125 = Some 170"
  by (simp add: findLaneY_def laneOffsets_def laneRejected_def horizontalBlocked_def
        verticalBlocked_def clamp_def MAX_Y_def MIN_Y_def CLEARANCE_def LANE_STEP_def
        exContainer_def boardA_def boardB_def boardC_def Let_def)

lemma ex_cross:
  "buildCrossColumnPath [boardA, boardB, boardC] exContainer boardA boardB 125 125 1 0 =
     Some [\<lparr>px = 200, py = 125\<rparr>, \<lparr>px = 228, py = 125\<rparr>, \<lparr>px = 228, py = 170\<rparr>,
           \<lparr>px = 372, py = 170\<rparr>, \<lparr>px = 372, py = 125\<rparr>, \<lparr>px = 400, py = 125\<rparr>]"
proof -
  have e: "r_right boardA = 200" "r_left boardB = 400" "centerY boardA = 125" "centerY boardB = 125" "r_id boardA = ''A''"
    by (simp_all add: boardA_def boardB_def)
  have vb: "\<not> verticalBlocked [boardA, boardB, boardC] 228 125 125 {''A''}"
    by (simp add: verticalBlocked_def CLEARANCE_def boardA_def boardB_def boardC_def)
  have dd: "dedupePoints [\<lparr>px = 200, py = 125\<rparr>, \<lparr>px = 228, py = 125\<rparr>, \<lparr>px = 228, py = 170\<rparr>,
           \<lparr>px = 372, py = 170\<rparr>, \<lparr>px = 372, py = 125\<rparr>, \<lparr>px = 400, py = 125\<rparr>]
        = [\<lparr>px = 200, py = 125\<rparr>, \<lparr>px = 228, py = 125\<rparr>, \<lparr>px = 228, py = 170\<rparr>,
           \<lparr>px = 372, py = 170\<rparr>, \<lparr>px = 372, py = 125\<rparr>, \<lparr>px = 400, py = 125\<rparr>]"
    by (simp add: dedupePoints_def round1_def)
  show ?thesis
    by (simp add: buildCrossColumnPath_def attempts e vb ex_lane dd GUTTER_BASE_def GUTTER_STEP_def Let_def)
qed


lemma ex_group:
  "groupResults [boardA, boardB, boardC] exContainer [edgeAB\<lparr>startSlot := Some 0, endSlot := Some 0\<rparr>]
       [edgeAB\<lparr>startSlot := Some 0, endSlot := Some 0\<rparr>]
     = [\<lparr>path_from = ''A'', path_to = ''B'',
         points = [\<lparr>px = 200, py = 125\<rparr>, \<lparr>px = 228, py = 125\<rparr>, \<lparr>px = 228, py = 170\<rparr>,
           \<lparr>px = 372, py = 170\<rparr>, \<lparr>px = 372, py = 125\<rparr>, \<lparr>px = 400, py = 125\<rparr>]\<rparr>]"
proof -
  have f: "startRect (edgeAB\<lparr>startSlot := Some 0, endSlot := Some 0\<rparr>) = boardA"
      "endRect (edgeAB\<lparr>startSlot := Some 0, endSlot := Some 0\<rparr>) = boardB"
      "sameColumn (edgeAB\<lparr>startSlot := Some 0, endSlot := Some 0\<rparr>) = False"
      "horizontalDir (edgeAB\<lparr>startSlot := Some 0, endSlot := Some 0\<rparr>) = 1"
      "seg_from (edgeAB\<lparr>startSlot := Some 0, endSlot := Some 0\<rparr>) = ''A''"
      "seg_to (edgeAB\<lparr>startSlot := Some 0, endSlot := Some 0\<rparr>) = ''B''"
    by (simp_all add: edgeAB_def)
  show ?thesis
    by (simp add: groupResults_def List.map_filter_def buildPath_def f ex_anchors
          laneOffsetIndexOf_def ex_cross)
qed

lemma mix_rectList:
  "rectListOf exContainer mixBoardPositions None None = [boardT, boardX, boardY]"
  by (simp add: rectListOf_def mixBoardPositions_def exContainer_def exRect_def toRelativeRect_def
        boardT_def boardX_def boardY_def)

lemma mix_segments:
  "extractSegments [boardT, boardX, boardY] mixBoardTickets [''S1'', ''S2'', ''S3''] None
     = [edgeYT, edgeTX]"
  by (simp add: extractSegments_def segmentFor_def mixBoardTickets_def exTicket_def
        List.map_filter_def newSegment_def sprintIndexOpt_def sprintIndex_def currentSprintId_def
        boardT_def boardX_def boardY_def edgeYT_def edgeTX_def Let_def showNat_small)

lemma mix_slotted:
  "slottedSegments [edgeYT, edgeTX]
     = [edgeYT\<lparr>startSlot := Some 0, endSlot := Some 0\<rparr>,
        edgeTX\<lparr>startSlot := Some 0, endSlot := Some 0\<rparr>]"
  by (simp add: slottedSegments_def assignSlots_def countKeys_def orElse_def edgeYT_def
        edgeTX_def slotCompare_def boardT_def boardX_def boardY_def)

lemma mix_anchors:
  "startAnchorY [edgeYT\<lparr>startSlot := Some 0, endSlot := Some 0\<rparr>,
                 edgeTX\<lparr>startSlot := Some 0, endSlot := Some 0\<rparr>]
       (edgeYT\<lparr>startSlot := Some 0, endSlot := Some 0\<rparr>) = 225"
  "endAnchorY [edgeYT\<lparr>startSlot := Some 0, endSlot := Some 0\<rparr>,
               edgeTX\<lparr>startSlot := Some 0, endSlot := Some 0\<rparr>]
       (edgeYT\<lparr>startSlot := Some 0, endSlot := Some 0\<rparr>) = 130"
  "startAnchorY [edgeYT\<lparr>startSlot := Some 0, endSlot := Some 0\<rparr>,
                 edgeTX\<lparr>startSlot := Some 0, endSlot := Some 0\<rparr>]
       (edgeTX\<lparr>startSlot := Some 0, endSlot := Some 0\<rparr>) = 130"
  "endAnchorY [edgeYT\<lparr>startSlot := Some 0, endSlot := Some 0\<rparr>,
               edgeTX\<lparr>startSlot := Some 0, endSlot := Some 0\<rparr>]
       (edgeTX\<lparr>startSlot := Some 0, endSlot := Some 0\<rparr>) = 75"
  by (simp_all add: startAnchorY_def endAnchorY_def computeAnchor_def countKeys_def orElse_def
        edgeYT_def edgeTX_def boardT_def boardX_def boardY_def)

lemma mix_lane_YT:
  "findLaneY [boardT, boardX, boardY] exContainer False boardY boardT 372 228 0 225 130 = Some 80"
  by (simp add: findLaneY_def laneOffsets_def laneRejected_def horizontalBlocked_def
        verticalBlocked_def clamp_def MAX_Y_def MIN_Y_def CLEARANCE_def LANE_STEP_def
        exContainer_def boardT_def boardX_def boardY_def Let_def)

lemma mix_lane_TX:
  "findLaneY [boardT, boardX, boardY] exContainer False boardT boardX 228 372 0 130 75 = Some 30"
  by (simp add: findLaneY_def laneOffsets_def laneRejected_def horizontalBlocked_def
        verticalBlocked_def clamp_def MAX_Y_def MIN_Y_def CLEARANCE_def LANE_STEP_def
        exContainer_def boardT_def boardX_def boardY_def Let_def)

lemma mix_cross_YT:
  "buildCrossColumnPath [boardT, boardX, boardY] exContainer boardY boardT 225 130 (- 1) 0 =
     Some [\<lparr>px = 400, py = 225\<rparr>, \<lparr>px = 372, py = 225\<rparr>, \<lparr>px = 372, py = 80\<rparr>,
           \<lparr>px = 228, py = 80\<rparr>, \<lparr>px = 228, py = 130\<rparr>, \<lparr>px = 200, py = 130\<rparr>]"
proof -
  have e: "r_left boardY = 400" "r_right boardT = 200" "centerY boardY = 225"
    "centerY boardT = 130" "r_id boardY = ''Y''"
    by (simp_all add: boardT_def boardY_def)
  have vb: "\<not> verticalBlocked [boardT, boardX, boardY] 372 225 225 {''Y''}"
    by (simp add: verticalBlocked_def CLEARANCE_def boardT_def boardX_def boardY_def)
  have dd: "dedupePoints [\<lparr>px = 400, py = 225\<rparr>, \<lparr>px = 372, py = 225\<rparr>, \<lparr>px = 372, py = 80\<rparr>,
           \<lparr>px = 228, py = 80\<rparr>, \<lparr>px = 228, py = 130\<rparr>, \<lparr>px = 200, py = 130\<rparr>]
        = [\<lparr>px = 400, py = 225\<rparr>, \<lparr>px = 372, py = 225\<rparr>, \<lparr>px = 372, py = 80\<rparr>,
           \<lparr>px = 228, py = 80\<rparr>, \<lparr>px = 228, py = 130\<rparr>, \<lparr>px = 200, py = 130\<rparr>]"
    by (simp add: dedupePoints_def round1_def)
  show ?thesis
    by (simp add: buildCrossColumnPath_def attempts e vb mix_lane_YT dd GUTTER_BASE_def
          GUTTER_STEP_def Let_def)
qed

lemma mix_cross_TX:
  "buildCrossColumnPath [boardT, boardX, boardY] exContainer boardT boardX 130 75 1 0 =
     Some [\<lparr>px = 200, py = 130\<rparr>, \<lparr>px = 228, py = 130\<rparr>, \<lparr>px = 228, py = 30\<rparr>,
           \<lparr>px = 372, py = 30\<rparr>, \<lparr>px = 372, py = 75\<rparr>, \<lparr>px = 400, py = 75\<rparr>]"
proof -
  have e: "r_right boardT = 200" "r_left boardX = 400" "centerY boardT = 130"
    "centerY boardX = 75" "r_id boardT = ''T''"
    by (simp_all add: boardT_def boardX_def)
  have vb: "\<not> verticalBlocked [boardT, boardX, boardY] 228 130 130 {''T''}"
    by (simp add: verticalBlocked_def CLEARANCE_def boardT_def boardX_def boardY_def)
  have dd: "dedupePoints [\<lparr>px = 200, py = 130\<rparr>, \<lparr>px = 228, py = 130\<rparr>, \<lparr>px = 228, py = 30\<rparr>,
           \<lparr>px = 372, py = 30\<rparr>, \<lparr>px = 372, py = 75\<rparr>, \<lparr>px = 400, py = 75\<rparr>]
        = [\<lparr>px = 200, py = 130\<rparr>, \<lparr>px = 228, py = 130\<rparr>, \<lparr>px = 228, py = 30\<rparr>,
           \<lparr>px = 372, py = 30\<rparr>, \<lparr>px = 372, py = 75\<rparr>, \<lparr>px = 400, py = 75\<rparr>]"
    by (simp add: dedupePoints_def round1_def)
  show ?thesis
    by (simp add: buildCrossColumnPath_def attempts e vb mix_lane_TX dd GUTTER_BASE_def
          GUTTER_STEP_def Let_def)
qed

lemma mix_fields:
  "startRect (edgeYT\<lparr>startSlot := Some 0, endSlot := Some 0\<rparr>) = boardY"
  "endRect (edgeYT\<lparr>startSlot := Some 0, endSlot := Some 0\<rparr>) = boardT"
  "sameColumn (edgeYT\<lparr>startSlot := Some 0, endSlot := Some 0\<rparr>) = False"
  "horizontalDir (edgeYT\<lparr>startSlot := Some 0, endSlot := Some 0\<rparr>) = - 1"
  "seg_from (edgeYT\<lparr>startSlot := Some 0, endSlot := Some 0\<rparr>) = ''Y''"
  "seg_to (edgeYT\<lparr>startSlot := Some 0, endSlot := Some 0\<rparr>) = ''T''"
  "groupKey (edgeYT\<lparr>startSlot := Some 0, endSlot := Some 0\<rparr>) = ''row-1-0-l''"
  "startSideKey (edgeYT\<lparr>startSlot := Some 0, endSlot := Some 0\<rparr>) = ''Y:left''"
  "endSideKey (edgeYT\<lparr>startSlot := Some 0, endSlot := Some 0\<rparr>) = ''T:right''"
  "startRect (edgeTX\<lparr>startSlot := Some 0, endSlot := Some 0\<rparr>) = boardT"
  "endRect (edgeTX\<lparr>startSlot := Some 0, endSlot := Some 0\<rparr>) = boardX"
  "sameColumn (edgeTX\<lparr>startSlot := Some 0, endSlot := Some 0\<rparr>) = False"
  "horizontalDir (edgeTX\<lparr>startSlot := Some 0, endSlot := Some 0\<rparr>) = 1"
  "seg_from (edgeTX\<lparr>startSlot := Some 0, endSlot := Some 0\<rparr>) = ''T''"
  "seg_to (edgeTX\<lparr>startSlot := Some 0, endSlot := Some 0\<rparr>) = ''X''"
  "groupKey (edgeTX\<lparr>startSlot := Some 0, endSlot := Some 0\<rparr>) = ''row-0-1-r''"
  "startSideKey (edgeTX\<lparr>startSlot := Some 0, endSlot := Some 0\<rparr>) = ''T:right''"
  "endSideKey (edgeTX\<lparr>startSlot := Some 0, endSlot := Some 0\<rparr>) = ''X:left''"
  by (simp_all add: edgeYT_def edgeTX_def)

lemma mix_group_YT:
  "groupResults [boardT, boardX, boardY] exContainer
       [edgeYT\<lparr>startSlot := Some 0, endSlot := Some 0\<rparr>,
        edgeTX\<lparr>startSlot := Some 0, endSlot := Some 0\<rparr>]
       [edgeYT\<lparr>startSlot := Some 0, endSlot := Some 0\<rparr>]
     = [\<lparr>path_from = ''Y'', path_to = ''T'',
         points = [\<lparr>px = 400, py = 225\<rparr>, \<lparr>px = 372, py = 225\<rparr>, \<lparr>px = 372, py = 80\<rparr>,
           \<lparr>px = 228, py = 80\<rparr>, \<lparr>px = 228, py = 130\<rparr>, \<lparr>px = 200, py = 130\<rparr>]\<rparr>]"
  by (simp add: groupResults_def List.map_filter_def buildPath_def mix_fields mix_anchors
        laneOffsetIndexOf_def mix_cross_YT)

lemma mix_group_TX:
  "groupResults [boardT, boardX, boardY] exContainer
       [edgeYT\<lparr>startSlot := Some 0, endSlot := Some 0\<rparr>,
        edgeTX\<lparr>startSlot := Some 0, endSlot := Some 0\<rparr>]
       [edgeTX\<lparr>startSlot := Some 0, endSlot := Some 0\<rparr>]
     = [\<lparr>path_from = ''T'', path_to = ''X'',
         points = [\<lparr>px = 200, py = 130\<rparr>, \<lparr>px = 228, py = 130\<rparr>, \<lparr>px = 228, py = 30\<rparr>,
           \<lparr>px = 372, py = 30\<rparr>, \<lparr>px = 372, py = 75\<rparr>, \<lparr>px = 400, py = 75\<rparr>]\<rparr>]"
  by (simp add: groupResults_def List.map_filter_def buildPath_def mix_fields mix_anchors
        laneOffsetIndexOf_def mix_cross_TX)

subsection \<open>Claims about the router\<close>

text \<open>
  C3, evaluated where it fails. On the first example board the router emits one path for
  the edge from \<open>A\<close> to \<open>B\<close>. Its last segment, the stub from the lane's end at
  \<open>x = 372\<close> to the left edge of \<open>B\<close> at \<open>x = 400\<close>, at height \<open>125\<close>, runs through
  the inside of the rectangle of \<open>C\<close> (from \<open>x = 380\<close> on, between heights \<open>110\<close> and
  \<open>160\<close>): \<open>findLaneY\<close> tests the lane and the two vertical pieces against the other
  rectangles, and nothing tests the two horizontal stubs.
\<close>

theorem router_stub_crosses_obstacle:
  "paths (Some exContainer) True exBoardPositions exBoardTickets [''S1'', ''S2'', ''S3''] None None
     = [\<lparr>path_from = ''A'', path_to = ''B'',
         points = [\<lparr>px = 200, py = 125\<rparr>, \<lparr>px = 228, py = 125\<rparr>, \<lparr>px = 228, py = 170\<rparr>,
           \<lparr>px = 372, py = 170\<rparr>, \<lparr>px = 372, py = 125\<rparr>, \<lparr>px = 400, py = 125\<rparr>]\<rparr>]
   \<and> segmentCrosses \<lparr>px = 372, py = 125\<rparr> \<lparr>px = 400, py = 125\<rparr> boardC
   \<and> pathCrosses [\<lparr>px = 200, py = 125\<rparr>, \<lparr>px = 228, py = 125\<rparr>, \<lparr>px = 228, py = 170\<rparr>,
           \<lparr>px = 372, py = 170\<rparr>, \<lparr>px = 372, py = 125\<rparr>, \<lparr>px = 400, py = 125\<rparr>] boardC
   \<and> boardC \<in> set (rectListOf exContainer exBoardPositions None None)"
proof -
  have rl: "rectListOf exContainer exBoardPositions None None = [boardA, boardB, boardC]"
    by (simp add: ex_rectList boardA_def boardB_def boardC_def)
  have gk: "groupKey (edgeAB\<lparr>startSlot := Some 0, endSlot := Some 0\<rparr>) = ''row-0-1-r''"
    by (simp add: edgeAB_def)
  have p: "paths (Some exContainer) True exBoardPositions exBoardTickets [''S1'', ''S2'', ''S3''] None None
     = [\<lparr>path_from = ''A'', path_to = ''B'',
         points = [\<lparr>px = 200, py = 125\<rparr>, \<lparr>px = 228, py = 125\<rparr>, \<lparr>px = 228, py = 170\<rparr>,
           \<lparr>px = 372, py = 170\<rparr>, \<lparr>px = 372, py = 125\<rparr>, \<lparr>px = 400, py = 125\<rparr>]\<rparr>]"
    by (simp add: paths_def rl ex_segments [folded edgeAB_def] ex_slotted gk ex_group)
  have c: "segmentCrosses \<lparr>px = 372, py = 125\<rparr> \<lparr>px = 400, py = 125\<rparr> boardC"
    by (simp add: segmentCrosses_def boardC_def)
  from p c rl show ?thesis by simp
qed

text \<open>
  C8, evaluated where it fails. On the second example board two edges share the right
  side of \<open>T\<close>: the edge from \<open>T\<close> to \<open>X\<close> leaves there (its start-side key is
  \<open>T:right\<close>) and the edge from \<open>Y\<close> to \<open>T\<close> arrives there (its end-side key is
  \<open>T:right\<close>). The router counts and slots start sides and end sides apart, so each of
  the two edges is alone under its key and is anchored at the vertical centre of \<open>T\<close>:
  the path from \<open>Y\<close> ends at \<open>(200, 130)\<close> and the path to \<open>X\<close> starts at
  \<open>(200, 130)\<close>, and the two stubs between \<open>x = 200\<close> and \<open>x = 228\<close> at height \<open>130\<close>
  lie on each other. Two edges on one side of a card of top \<open>100\<close> and height \<open>60\<close>
  should be anchored at the heights \<open>100 + 60 / 3 = 120\<close> and \<open>100 + 2 * 60 / 3 = 140\<close>.
  (Edges that share a key of one kind, start or end, do get distinct slots, in the order of
  the other end's centre: lemmas \<open>assignSlots_pair\<close> and \<open>assignSlots_onto\<close>.)
\<close>

theorem mixed_roles_share_anchor:
  "paths (Some exContainer) True mixBoardPositions mixBoardTickets [''S1'', ''S2'', ''S3''] None None
     = [\<lparr>path_from = ''Y'', path_to = ''T'',
         points = [\<lparr>px = 400, py = 225\<rparr>, \<lparr>px = 372, py = 225\<rparr>, \<lparr>px = 372, py = 80\<rparr>,
           \<lparr>px = 228, py = 80\<rparr>, \<lparr>px = 228, py = 130\<rparr>, \<lparr>px = 200, py = 130\<rparr>]\<rparr>,
        \<lparr>path_from = ''T'', path_to = ''X'',
         points = [\<lparr>px = 200, py = 130\<rparr>, \<lparr>px = 228, py = 130\<rparr>, \<lparr>px = 228, py = 30\<rparr>,
           \<lparr>px = 372, py = 30\<rparr>, \<lparr>px = 372, py = 75\<rparr>, \<lparr>px = 400, py = 75\<rparr>]\<rparr>]
   \<and> map endSideKey (slottedSegments (extractSegments
          (rectListOf exContainer mixBoardPositions None None) mixBoardTickets
          [''S1'', ''S2'', ''S3''] None)) = [''T:right'', ''X:left'']
   \<and> map startSideKey (slottedSegments (extractSegments
          (rectListOf exContainer mixBoardPositions None None) mixBoardTickets
          [''S1'', ''S2'', ''S3''] None)) = [''Y:left'', ''T:right'']
   \<and> r_right boardT = 200 \<and> r_top boardT = 100 \<and> r_height boardT = 60
   \<and> computeAnchor boardT (Some 0) 2 = 120 \<and> computeAnchor boardT (Some 1) 2 = 140
   \<and> boardT \<in> set (rectListOf exContainer mixBoardPositions None None)"
proof -
  let ?segs = "[edgeYT\<lparr>startSlot := Some 0, endSlot := Some 0\<rparr>,
                edgeTX\<lparr>startSlot := Some 0, endSlot := Some 0\<rparr>]"
  have sl: "slottedSegments (extractSegments
          (rectListOf exContainer mixBoardPositions None None) mixBoardTickets
          [''S1'', ''S2'', ''S3''] None) = ?segs"
    by (simp only: mix_rectList mix_segments mix_slotted)
  have p: "paths (Some exContainer) True mixBoardPositions mixBoardTickets [''S1'', ''S2'', ''S3''] None None
     = [\<lparr>path_from = ''Y'', path_to = ''T'',
         points = [\<lparr>px = 400, py = 225\<rparr>, \<lparr>px = 372, py = 225\<rparr>, \<lparr>px = 372, py = 80\<rparr>,
           \<lparr>px = 228, py = 80\<rparr>, \<lparr>px = 228, py = 130\<rparr>, \<lparr>px = 200, py = 130\<rparr>]\<rparr>,
        \<lparr>path_from = ''T'', path_to = ''X'',
         points = [\<lparr>px = 200, py = 130\<rparr>, \<lparr>px = 228, py = 130\<rparr>, \<lparr>px = 228, py = 30\<rparr>,
           \<lparr>px = 372, py = 30\<rparr>, \<lparr>px = 372, py = 75\<rparr>, \<lparr>px = 400, py = 75\<rparr>]\<rparr>]"
    by (simp add: paths_def mix_rectList mix_segments mix_slotted mix_fields mix_group_YT mix_group_TX)
  have k: "map endSideKey ?segs = [''T:right'', ''X:left'']"
    "map startSideKey ?segs = [''Y:left'', ''T:right'']"
    by (simp_all add: mix_fields)
  have r: "r_right boardT = 200 \<and> r_top boardT = 100 \<and> r_height boardT = 60"
    by (simp add: boardT_def)
  have a: "computeAnchor boardT (Some 0) 2 = 120 \<and> computeAnchor boardT (Some 1) 2 = 140"
    by (simp add: computeAnchor_def boardT_def)
  from p k r a show ?thesis
    unfolding sl by (simp add: mix_rectList)
qed

end
